(* ===== verification/Prelude.thy ===== *)
theory Prelude
  imports Main "HOL-Library.Word" "HOL-Library.Char_ord" "HOL-Library.List_Lexorder"
begin

text \<open>
  The prelude of the development: the machine-integer types of the Rust sources, the
  fail-fast combinator for chains of \<open>?\<close> checks, Rust's saturating and wrapping integer
  operations, and the operations of Rust's \<open>str\<close> that the sources call. A Rust string is
  modelled by its UTF-8 bytes: HOL's \<open>char\<close> is a byte, and \<open>length\<close> is Rust's
  \<open>len()\<close>. The order on strings of \<open>List_Lexorder\<close> and \<open>Char_ord\<close> is Rust's bytewise
  lexicographic order of \<open>String\<close>.
\<close>

type_synonym u8 = "8 word"
type_synonym u16 = "16 word"
type_synonym u32 = "32 word"
type_synonym u64 = "64 word"
type_synonym i32 = "32 word"  \<comment> \<open>read through \<open>sint\<close>\<close>

named_theorems u64_simps \<open>conversion of saturating and wrapping 64-bit operations to nat\<close>
named_theorems str_simps \<open>evaluation and inversion of string operations\<close>

section \<open>Chains of checks\<close>

text \<open>
  A Rust \<open>fn validate(&self) -> Result<(), E>\<close> is a list of checks joined by \<open>?\<close>: the
  first failing one is returned. Its model is \<open>first_err\<close> of the list of the checks'
  results, in the source's order.
\<close>

fun first_err :: "('e + unit) list \<Rightarrow> 'e + unit" where
  "first_err [] = Inr ()"
| "first_err (c # cs) = (case c of Inl e \<Rightarrow> Inl e | Inr _ \<Rightarrow> first_err cs)"

definition is_ok :: "'e + 'a \<Rightarrow> bool" where
  "is_ok r = (case r of Inl _ \<Rightarrow> False | Inr _ \<Rightarrow> True)"

definition guard_err :: "bool \<Rightarrow> 'e \<Rightarrow> 'e + unit" where
  "guard_err bad e = (if bad then Inl e else Inr ())"

lemma is_ok_simps [simp]: "is_ok (Inr x)" "\<not> is_ok (Inl e)"
  by (simp_all add: is_ok_def)

lemma is_ok_unit: "is_ok (r :: 'e + unit) \<longleftrightarrow> r = Inr ()"
  by (cases r) auto

lemma is_ok_guard [simp]: "is_ok (guard_err b e) \<longleftrightarrow> \<not> b"
  by (simp add: guard_err_def)

lemma guard_err_Inr [simp]: "guard_err b e = Inr u \<longleftrightarrow> \<not> b"
  by (simp add: guard_err_def)

lemma guard_err_Inl [simp]: "guard_err b e = Inl f \<longleftrightarrow> b \<and> f = e"
  by (auto simp: guard_err_def)

lemma first_err_ok: "first_err cs = Inr () \<longleftrightarrow> (\<forall>c\<in>set cs. c = Inr ())"
  by (induction cs) (auto split: sum.splits)

lemma first_err_is_ok: "is_ok (first_err cs) \<longleftrightarrow> (\<forall>c\<in>set cs. is_ok c)"
  by (induction cs) (auto split: sum.splits)

lemma first_err_append: "first_err (xs @ ys) = (case first_err xs of Inl e \<Rightarrow> Inl e | Inr _ \<Rightarrow> first_err ys)"
  by (induction xs) (auto split: sum.splits)

text \<open>A failing chain fails with the error of its first failing check.\<close>

lemma first_err_first:
  "first_err cs = Inl e \<longleftrightarrow> (\<exists>pre post. cs = pre @ Inl e # post \<and> (\<forall>c\<in>set pre. c = Inr ()))"
proof (induction cs)
  case Nil
  then show ?case by simp
next
  case (Cons c cs)
  show ?case
  proof (cases c)
    case (Inl d)
    then show ?thesis by (auto simp: Cons_eq_append_conv)
  next
    case (Inr u)
    then have c: "c = Inr ()" by simp
    show ?thesis
    proof
      assume "first_err (c # cs) = Inl e"
      with c Cons.IH obtain pre post
        where "cs = pre @ Inl e # post" "\<forall>c\<in>set pre. c = Inr ()" by auto
      then have "c # cs = (c # pre) @ Inl e # post \<and> (\<forall>c\<in>set (c # pre). c = Inr ())"
        using c by simp
      then show "\<exists>pre post. c # cs = pre @ Inl e # post \<and> (\<forall>c\<in>set pre. c = Inr ())"
        by blast
    next
      assume "\<exists>pre post. c # cs = pre @ Inl e # post \<and> (\<forall>c\<in>set pre. c = Inr ())"
      then obtain pre post where p: "c # cs = pre @ Inl e # post" "\<forall>c\<in>set pre. c = Inr ()"
        by blast
      with c obtain pre' where "pre = c # pre'" by (cases pre) auto
      with p have "first_err cs = Inl e" unfolding Cons.IH by auto
      with c show "first_err (c # cs) = Inl e" by simp
    qed
  qed
qed

lemma first_err_map:
  "first_err (map f xs) = Inl e \<longleftrightarrow>
     (\<exists>pre x post. xs = pre @ x # post \<and> (\<forall>y\<in>set pre. f y = Inr ()) \<and> f x = Inl e)"
proof
  assume "first_err (map f xs) = Inl e"
  then obtain pre post where "map f xs = pre @ Inl e # post" "\<forall>c\<in>set pre. c = Inr ()"
    unfolding first_err_first by blast
  then obtain us z zs where "xs = us @ z # zs \<and> (\<forall>y\<in>set us. f y = Inr ()) \<and> f z = Inl e"
    by (auto simp: map_eq_append_conv map_eq_Cons_conv)
  then show "\<exists>pre x post. xs = pre @ x # post \<and> (\<forall>y\<in>set pre. f y = Inr ()) \<and> f x = Inl e"
    by blast
next
  assume "\<exists>pre x post. xs = pre @ x # post \<and> (\<forall>y\<in>set pre. f y = Inr ()) \<and> f x = Inl e"
  then obtain pre x post where "xs = pre @ x # post" "\<forall>y\<in>set pre. f y = Inr ()" "f x = Inl e" by blast
  then have "map f xs = map f pre @ Inl e # map f post \<and> (\<forall>c\<in>set (map f pre). c = Inr ())" by auto
  then show "first_err (map f xs) = Inl e" unfolding first_err_first by blast
qed

text \<open>The operator \<open>?\<close> on a fallible step with a value, and \<open>Option::unwrap_or\<close>.\<close>

definition and_then :: "'e + 'a \<Rightarrow> ('a \<Rightarrow> 'e + 'b) \<Rightarrow> 'e + 'b" where
  "and_then r f = (case r of Inl e \<Rightarrow> Inl e | Inr x \<Rightarrow> f x)"

definition unwrap_or :: "'a option \<Rightarrow> 'a \<Rightarrow> 'a" where
  "unwrap_or m d = (case m of None \<Rightarrow> d | Some x \<Rightarrow> x)"

lemma and_then_simps [simp]: "and_then (Inr x) f = f x" "and_then (Inl e) f = Inl e"
  by (simp_all add: and_then_def)

lemma and_then_Inr: "and_then r f = Inr y \<longleftrightarrow> (\<exists>x. r = Inr x \<and> f x = Inr y)"
  by (cases r) auto

lemma and_then_Inl: "and_then r f = Inl e \<longleftrightarrow> r = Inl e \<or> (\<exists>x. r = Inr x \<and> f x = Inl e)"
  by (cases r) auto

lemma unwrap_or_simps [simp]: "unwrap_or None d = d" "unwrap_or (Some x) d = x"
  by (simp_all add: unwrap_or_def)

lemma map_sum_Inr: "map_sum f id r = Inr x \<longleftrightarrow> r = Inr x"
  by (cases r) auto

text \<open>From here on a chain is read through these lemmas, not unfolded check by check.\<close>

declare first_err.simps(2) [simp del]

section \<open>Saturating integers\<close>

text \<open>Rust's \<open>u64::saturating_add\<close> and \<open>saturating_sub\<close>.\<close>

definition sat_add :: "u64 \<Rightarrow> u64 \<Rightarrow> u64" where
  "sat_add a b = (if unat a + unat b < 2 ^ 64 then a + b else - 1)"

definition sat_sub :: "u64 \<Rightarrow> u64 \<Rightarrow> u64" where
  "sat_sub a b = (if b \<le> a then a - b else 0)"

lemma unat_minus_one_u64 [simp, u64_simps]: "unat (- 1 :: u64) = 2 ^ 64 - 1"
  by (simp add: unsigned_minus_1_eq_mask mask_eq_exp_minus_1)

lemma unat_sat_add [u64_simps]: "unat (sat_add a b) = min (unat a + unat b) (2 ^ 64 - 1)"
proof (cases "unat a + unat b < 2 ^ 64")
  case True
  then have "unat (a + b) = unat a + unat b"
    by (subst unat_add_lem [THEN iffD1]) simp_all
  with True show ?thesis by (simp add: sat_add_def)
next
  case False
  then have "sat_add a b = - 1" by (simp add: sat_add_def)
  with False show ?thesis by simp
qed

lemma unat_sat_add_exact: "unat a + unat b < 2 ^ 64 \<Longrightarrow> unat (sat_add a b) = unat a + unat b"
  by (simp add: unat_sat_add)

lemma unat_sat_sub [u64_simps]: "unat (sat_sub a b) = unat a - unat b"
  by (simp add: sat_sub_def unat_sub word_le_nat_alt)

lemma unat_u64_less [simp]: "unat (x :: u64) < 18446744073709551616"
  using unsigned_less [of x, where 'a = nat] by simp

lemma unat_u64_le [simp]: "unat (x :: u64) \<le> 18446744073709551615"
  using unat_u64_less [of x] by linarith

lemma unat_add_u64 [u64_simps]: "unat (a + b :: u64) = (unat a + unat b) mod 2 ^ 64"
  by (simp add: unat_word_ariths)

text \<open>The same on \<open>nat\<close>, for values held as bounded naturals.\<close>

definition sat_mul_nat :: "nat \<Rightarrow> nat \<Rightarrow> nat" where
  "sat_mul_nat a b = min (a * b) (2 ^ 64 - 1)"

definition sat_add_nat :: "nat \<Rightarrow> nat \<Rightarrow> nat" where
  "sat_add_nat a b = min (a + b) (2 ^ 64 - 1)"

lemma sat_nat_bounds [simp]:
  "sat_mul_nat a b < 2 ^ 64" "sat_add_nat a b < 2 ^ 64"
  by (simp_all add: sat_mul_nat_def sat_add_nat_def)

lemma sat_mul_nat_exact: "a * b < 2 ^ 64 \<Longrightarrow> sat_mul_nat a b = a * b"
  by (simp add: sat_mul_nat_def)

lemma sat_add_nat_exact: "a + b < 2 ^ 64 \<Longrightarrow> sat_add_nat a b = a + b"
  by (simp add: sat_add_nat_def)

text \<open>
  Two's complement wrap-around of \<open>i64\<close>, as the release profile (no overflow checks)
  computes, and Rust's truncating division, on \<open>int\<close>.
\<close>

definition w64 :: "int \<Rightarrow> int" where
  "w64 x = (x + 2 ^ 63) mod 2 ^ 64 - 2 ^ 63"

definition tdiv :: "int \<Rightarrow> int \<Rightarrow> int" where
  "tdiv a b = sgn a * sgn b * (\<bar>a\<bar> div \<bar>b\<bar>)"

lemma w64_id: "- (2 ^ 63) \<le> x \<Longrightarrow> x < 2 ^ 63 \<Longrightarrow> w64 x = x"
  by (simp add: w64_def)

lemma w64_range: "- (2 ^ 63) \<le> w64 x" "w64 x < 2 ^ 63"
  by (simp_all add: w64_def)

lemma tdiv_nonneg: "0 \<le> a \<Longrightarrow> 0 < b \<Longrightarrow> tdiv a b = a div b"
  by (cases "a = 0") (simp_all add: tdiv_def)

end
