(* ===== verification/Strings.thy ===== *)
theory Strings
  imports Prelude
begin

text \<open>
  The operations of Rust's \<open>str\<close> and the integer parsers and printers of the standard
  library that the sources call, on UTF-8 byte strings: prefix and suffix tests,
  \<open>split\<close>, \<open>split_once\<close>, \<open>trim\<close>, \<open>to_string\<close> and \<open>FromStr\<close> of the integer types.
\<close>

section \<open>Prefixes, suffixes, splitting\<close>

definition starts_with :: "string \<Rightarrow> string \<Rightarrow> bool" where
  "starts_with s p \<longleftrightarrow> take (length p) s = p"

definition ends_with :: "string \<Rightarrow> string \<Rightarrow> bool" where
  "ends_with s p \<longleftrightarrow> length p \<le> length s \<and> drop (length s - length p) s = p"

definition strip_prefix :: "string \<Rightarrow> string \<Rightarrow> string option" where
  "strip_prefix s p = (if starts_with s p then Some (drop (length p) s) else None)"

definition strip_suffix :: "string \<Rightarrow> string \<Rightarrow> string option" where
  "strip_suffix s p = (if ends_with s p then Some (take (length s - length p) s) else None)"

fun split_on :: "char \<Rightarrow> string \<Rightarrow> string list" where
  "split_on c [] = [[]]"
| "split_on c (x # xs) =
     (if x = c then [] # split_on c xs
      else (case split_on c xs of [] \<Rightarrow> [[x]] | y # ys \<Rightarrow> (x # y) # ys))"

fun split_once :: "char \<Rightarrow> string \<Rightarrow> (string \<times> string) option" where
  "split_once c [] = None"
| "split_once c (x # xs) =
     (if x = c then Some ([], xs)
      else (case split_once c xs of None \<Rightarrow> None | Some (a, b) \<Rightarrow> Some (x # a, b)))"

definition trim_end_char :: "char \<Rightarrow> string \<Rightarrow> string" where
  "trim_end_char c s = rev (dropWhile (\<lambda>x. x = c) (rev s))"

text \<open>The position of the first occurrence of a substring.\<close>

fun find_sub :: "string \<Rightarrow> string \<Rightarrow> nat option" where
  "find_sub p [] = (if p = [] then Some 0 else None)"
| "find_sub p (x # xs) =
     (if take (length p) (x # xs) = p then Some 0
      else map_option Suc (find_sub p xs))"

lemma starts_with_append [simp]: "starts_with (p @ s) p"
  by (simp add: starts_with_def)

lemma starts_with_iff: "starts_with s p \<longleftrightarrow> (\<exists>t. s = p @ t)"
  by (metis append_eq_conv_conj append_take_drop_id starts_with_def)

lemma ends_with_iff: "ends_with s p \<longleftrightarrow> (\<exists>t. s = t @ p)"
proof
  assume "ends_with s p"
  then show "\<exists>t. s = t @ p"
    by (metis append_take_drop_id ends_with_def)
next
  assume "\<exists>t. s = t @ p"
  then show "ends_with s p" by (auto simp: ends_with_def)
qed

lemma strip_prefix_append [simp]: "strip_prefix (p @ s) p = Some s"
  by (simp add: strip_prefix_def)

lemma strip_suffix_append [simp]: "strip_suffix (s @ p) p = Some s"
  by (simp add: strip_suffix_def ends_with_def)

lemma strip_prefix_Some: "strip_prefix s p = Some t \<longleftrightarrow> s = p @ t"
  by (auto simp: strip_prefix_def starts_with_iff)

lemma strip_suffix_Some: "strip_suffix s p = Some t \<longleftrightarrow> s = t @ p"
  by (auto simp: strip_suffix_def ends_with_iff)

lemma split_on_not_Nil [simp]: "split_on c s \<noteq> []"
  by (cases s) (auto split: list.splits)

lemma split_on_no_sep: "c \<notin> set s \<Longrightarrow> split_on c s = [s]"
  by (induction s) auto

lemma split_on_append: "c \<notin> set a \<Longrightarrow> split_on c (a @ c # b) = a # split_on c b"
  by (induction a) auto

lemma split_on_parts: "p \<in> set (split_on c s) \<Longrightarrow> c \<notin> set p"
proof (induction s arbitrary: p)
  case Nil
  then show ?case by simp
next
  case (Cons x xs)
  then show ?case
    by (cases "split_on c xs") (auto split: if_splits)
qed

text \<open>The parts of a split, joined by the separator, give the string back.\<close>

lemma split_on_join: "s = hd (split_on c s) @ concat (map ((#) c) (tl (split_on c s)))"
proof (induction s)
  case (Cons x xs)
  obtain p ps where "split_on c xs = p # ps" by (cases "split_on c xs") auto
  with Cons show ?case by (cases "x = c") auto
qed simp

lemma split_once_append: "c \<notin> set a \<Longrightarrow> split_once c (a @ c # b) = Some (a, b)"
  by (induction a) auto

lemma split_once_None: "split_once c s = None \<longleftrightarrow> c \<notin> set s"
  by (induction s) (auto split: option.splits)

lemma split_once_Some: "split_once c s = Some (a, b) \<longleftrightarrow> s = a @ c # b \<and> c \<notin> set a"
proof
  assume "split_once c s = Some (a, b)"
  then show "s = a @ c # b \<and> c \<notin> set a"
    by (induction s arbitrary: a b) (auto split: if_splits option.splits prod.splits)
qed (simp add: split_once_append)

lemma trim_end_char_last: "s = [] \<or> last s \<noteq> c \<Longrightarrow> trim_end_char c s = s"
  by (cases s rule: rev_cases) (auto simp: trim_end_char_def)

section \<open>White space\<close>

text \<open>
  \<open>str::trim\<close> removes characters with the Unicode \<open>White_Space\<close> property. In UTF-8 these
  are the following byte sequences.
\<close>

definition ws_seqs :: "string list" where
  "ws_seqs =
     [[CHR 0x09], [CHR 0x0A], [CHR 0x0B], [CHR 0x0C], [CHR 0x0D], [CHR 0x20],
      [CHR 0xC2, CHR 0x85], [CHR 0xC2, CHR 0xA0], [CHR 0xE1, CHR 0x9A, CHR 0x80],
      [CHR 0xE2, CHR 0x80, CHR 0x80], [CHR 0xE2, CHR 0x80, CHR 0x81],
      [CHR 0xE2, CHR 0x80, CHR 0x82], [CHR 0xE2, CHR 0x80, CHR 0x83],
      [CHR 0xE2, CHR 0x80, CHR 0x84], [CHR 0xE2, CHR 0x80, CHR 0x85],
      [CHR 0xE2, CHR 0x80, CHR 0x86], [CHR 0xE2, CHR 0x80, CHR 0x87],
      [CHR 0xE2, CHR 0x80, CHR 0x88], [CHR 0xE2, CHR 0x80, CHR 0x89],
      [CHR 0xE2, CHR 0x80, CHR 0x8A], [CHR 0xE2, CHR 0x80, CHR 0xA8],
      [CHR 0xE2, CHR 0x80, CHR 0xA9], [CHR 0xE2, CHR 0x80, CHR 0xAF],
      [CHR 0xE2, CHR 0x81, CHR 0x9F], [CHR 0xE3, CHR 0x80, CHR 0x80]]"

text \<open>Drop leading members of a list of (non-empty) sequences, as often as one matches.\<close>

function drop_seqs :: "string list \<Rightarrow> string \<Rightarrow> string" where
  "drop_seqs ws s =
     (case find (\<lambda>w. w \<noteq> [] \<and> starts_with s w) ws of
        None \<Rightarrow> s | Some w \<Rightarrow> drop_seqs ws (drop (length w) s))"
  by pat_completeness auto
termination
proof (relation "measure (\<lambda>(ws, s). length s)", goal_cases)
  case 1
  then show ?case by simp
next
  case (2 ws s w)
  then have "w \<noteq> []" "starts_with s w" by (auto simp: find_Some_iff)
  then show ?case by (cases s) (auto simp: starts_with_def)
qed

declare drop_seqs.simps [simp del]

definition trim_start :: "string \<Rightarrow> string" where
  "trim_start s = drop_seqs ws_seqs s"

definition trim_end :: "string \<Rightarrow> string" where
  "trim_end s = rev (drop_seqs (map rev ws_seqs) (rev s))"

definition trim :: "string \<Rightarrow> string" where
  "trim s = trim_end (trim_start s)"

definition blank :: "string \<Rightarrow> bool" where
  "blank s \<longleftrightarrow> trim s = []"

lemma ws_seqs_nonempty: "w \<in> set ws_seqs \<Longrightarrow> w \<noteq> []"
  by (auto simp: ws_seqs_def)

lemma drop_seqs_id: "(\<And>w. w \<in> set ws \<Longrightarrow> w \<noteq> [] \<Longrightarrow> \<not> starts_with s w) \<Longrightarrow> drop_seqs ws s = s"
  by (subst drop_seqs.simps) (auto split: option.splits simp: find_Some_iff)

lemma trim_start_visible:
  assumes "\<And>w. w \<in> set ws_seqs \<Longrightarrow> hd w \<noteq> x"
  shows "trim_start (x # xs) = x # xs"
  unfolding trim_start_def
proof (rule drop_seqs_id)
  fix w assume "w \<in> set ws_seqs" "w \<noteq> []"
  with assms [of w] show "\<not> starts_with (x # xs) w"
    by (cases w) (auto simp: starts_with_def)
qed

text \<open>A string that starts with a visible ASCII byte is not blank.\<close>

definition visible :: "char \<Rightarrow> bool" where
  "visible c \<longleftrightarrow> 33 \<le> (of_char c :: nat) \<and> (of_char c :: nat) < 127"

lemma drop_seqs_suffix: "\<exists>p. s = p @ drop_seqs ws s"
proof (induction ws s rule: drop_seqs.induct)
  case (1 ws s)
  show ?case
  proof (cases "find (\<lambda>w. w \<noteq> [] \<and> starts_with s w) ws")
    case None
    then show ?thesis by (subst drop_seqs.simps) simp
  next
    case (Some w)
    then have "starts_with s w" by (auto simp: find_Some_iff)
    then obtain t where t: "s = w @ t" by (auto simp: starts_with_iff)
    from "1" [OF Some] obtain p where "drop (length w) s = p @ drop_seqs ws (drop (length w) s)"
      by blast
    with Some t have "s = (w @ p) @ drop_seqs ws s"
      by (subst drop_seqs.simps) simp
    then show ?thesis by blast
  qed
qed

lemma drop_seqs_visible:
  assumes "\<And>w c. w \<in> set ws \<Longrightarrow> c \<in> set w \<Longrightarrow> \<not> visible c" and "visible x" and "x \<in> set s"
  shows "x \<in> set (drop_seqs ws s)"
  using assms
proof (induction ws s rule: drop_seqs.induct)
  case (1 ws s)
  show ?case
  proof (cases "find (\<lambda>w. w \<noteq> [] \<and> starts_with s w) ws")
    case None
    with "1.prems"(3) show ?thesis by (subst drop_seqs.simps) auto
  next
    case (Some w)
    then have w: "w \<in> set ws" "starts_with s w" by (auto simp: find_Some_iff)
    then obtain t where t: "s = w @ t" by (auto simp: starts_with_iff)
    from w "1.prems"(1,2) have "x \<notin> set w" by blast
    with t "1.prems"(3) have "x \<in> set (drop (length w) s)" by auto
    with "1.IH" [OF Some "1.prems"(1,2)] Some show ?thesis
      by (subst drop_seqs.simps) simp
  qed
qed

lemma ws_seqs_invisible: "w \<in> set ws_seqs \<Longrightarrow> c \<in> set w \<Longrightarrow> \<not> visible c"
  unfolding ws_seqs_def visible_def by (simp, elim disjE) (auto)

lemma visible_in_trim:
  assumes "visible x" and "x \<in> set s"
  shows "x \<in> set (trim s)"
proof -
  have "x \<in> set (trim_start s)"
    unfolding trim_start_def by (rule drop_seqs_visible [OF ws_seqs_invisible assms])
  then have "x \<in> set (drop_seqs (map rev ws_seqs) (rev (trim_start s)))"
    using ws_seqs_invisible by (intro drop_seqs_visible [OF _ assms(1)]) auto
  then show ?thesis by (simp add: trim_def trim_end_def)
qed

lemma visible_not_blank: "visible x \<Longrightarrow> x \<in> set s \<Longrightarrow> \<not> blank s"
  using visible_in_trim [of x s] by (auto simp: blank_def)

lemma blank_Nil [simp]: "blank []"
  by (simp add: blank_def trim_def trim_start_def trim_end_def ws_seqs_def drop_seqs.simps starts_with_def)

text \<open>A string that begins and ends with visible characters is not changed by \<open>trim\<close>.\<close>

lemma trim_visible_ends:
  assumes "s \<noteq> []" "visible (hd s)" "visible (last s)"
  shows "trim s = s"
proof -
  have hd: "\<not> starts_with s w" if "w \<in> set ws_seqs" for w
  proof
    assume "starts_with s w"
    then obtain t where t: "s = w @ t" by (auto simp: starts_with_iff)
    have w: "w \<noteq> []" by (rule ws_seqs_nonempty [OF that])
    with t have "hd s = hd w" by simp
    with w assms(2) ws_seqs_invisible [OF that, of "hd w"] show False by simp
  qed
  have tl: "\<not> starts_with (rev s) w" if "w \<in> set (map rev ws_seqs)" for w
  proof
    assume "starts_with (rev s) w"
    then obtain t where t: "rev s = w @ t" by (auto simp: starts_with_iff)
    from that obtain v where v: "v \<in> set ws_seqs" "w = rev v" by auto
    with ws_seqs_nonempty have "w \<noteq> []" by auto
    with t have "last s = hd w" by (metis hd_append hd_rev rev_rev_ident)
    with \<open>w \<noteq> []\<close> v assms(3) ws_seqs_invisible [of v "hd w"] show False
      by (metis hd_in_set set_rev)
  qed
  have "trim_start s = s"
    unfolding trim_start_def using hd by (intro drop_seqs_id) simp
  moreover have "trim_end s = s"
    unfolding trim_end_def using drop_seqs_id [of "map rev ws_seqs" "rev s"] tl by simp
  ultimately show ?thesis by (simp add: trim_def)
qed

text \<open>\<open>str::lines\<close>: a terminated line loses its newline and one carriage return before it.\<close>

definition strip_cr :: "string \<Rightarrow> string" where
  "strip_cr l = (if l \<noteq> [] \<and> last l = CHR 0x0D then butlast l else l)"

fun strip_lines :: "string list \<Rightarrow> string list" where
  "strip_lines [] = []"
| "strip_lines [l] = (if l = [] then [] else [l])"
| "strip_lines (l # ls) = strip_cr l # strip_lines ls"

definition str_lines :: "string \<Rightarrow> string list" where
  "str_lines s = strip_lines (split_on (CHR 0x0A) s)"

definition contains_sub :: "string \<Rightarrow> string \<Rightarrow> bool" where
  "contains_sub s p \<longleftrightarrow> find_sub p s \<noteq> None"

end
