(* ===== verification/Numbers.thy ===== *)
theory Numbers
  imports Strings
begin

text \<open>
  Decimal printing (\<open>to_string\<close>, \<open>{}\<close> and \<open>{:0w}\<close> in \<open>format!\<close>) and parsing
  (\<open>FromStr\<close>) of Rust's integer types, with the round trip between the two.
\<close>

definition digit :: "nat \<Rightarrow> char" where
  "digit d = char_of (48 + d)"

definition is_digit :: "char \<Rightarrow> bool" where
  "is_digit c \<longleftrightarrow> 48 \<le> (of_char c :: nat) \<and> (of_char c :: nat) \<le> 57"

definition digit_val :: "char \<Rightarrow> nat" where
  "digit_val c = of_char c - 48"

text \<open>Printing.\<close>

fun dec :: "nat \<Rightarrow> string" where
  "dec n = (if n < 10 then [digit n] else dec (n div 10) @ [digit (n mod 10)])"

declare dec.simps [simp del]

definition dec_int :: "int \<Rightarrow> string" where
  "dec_int i = (if i < 0 then CHR ''-'' # dec (nat (- i)) else dec (nat i))"

definition pad0 :: "nat \<Rightarrow> string \<Rightarrow> string" where
  "pad0 w s = replicate (w - length s) (CHR ''0'') @ s"

text \<open>
  \<open>from_str_radix(s, 10)\<close>: an optional sign (\<open>-\<close> for signed types only), then at least one
  digit and nothing else; a value outside the type is an error.
\<close>

definition digits_val :: "string \<Rightarrow> nat" where
  "digits_val s = foldl (\<lambda>v c. 10 * v + digit_val c) 0 s"

definition parse_digits :: "string \<Rightarrow> nat option" where
  "parse_digits s = (if s \<noteq> [] \<and> list_all is_digit s then Some (digits_val s) else None)"

definition strip_plus :: "string \<Rightarrow> string" where
  "strip_plus s = (case s of c # (d # t) \<Rightarrow> if c = CHR ''+'' then d # t else s | _ \<Rightarrow> s)"

definition parse_uint :: "nat \<Rightarrow> string \<Rightarrow> nat option" where
  "parse_uint bound s =
     (case parse_digits (strip_plus s) of
        None \<Rightarrow> None
      | Some v \<Rightarrow> if v < bound then Some v else None)"

definition parse_i64 :: "string \<Rightarrow> int option" where
  "parse_i64 s =
     (case s of
        c # (d # t) \<Rightarrow>
          if c = CHR ''-''
          then (case parse_digits (d # t) of
                  None \<Rightarrow> None
                | Some v \<Rightarrow> if v \<le> 2 ^ 63 then Some (- int v) else None)
          else map_option int (parse_uint (2 ^ 63) s)
      | _ \<Rightarrow> map_option int (parse_uint (2 ^ 63) s))"

section \<open>Digits\<close>

lemma of_char_digit [simp]: "d < 10 \<Longrightarrow> (of_char (digit d) :: nat) = 48 + d"
  by (simp add: digit_def)

lemma digit_val_digit [simp]: "d < 10 \<Longrightarrow> digit_val (digit d) = d"
  by (simp add: digit_val_def)

lemma is_digit_digit [simp]: "d < 10 \<Longrightarrow> is_digit (digit d)"
  by (simp add: is_digit_def)

lemma digit_inj [simp]: "a < 10 \<Longrightarrow> b < 10 \<Longrightarrow> digit a = digit b \<longleftrightarrow> a = b"
  by (metis digit_val_digit)

lemma is_digit_digit_val: "is_digit c \<Longrightarrow> digit (digit_val c) = c"
  by (simp add: digit_def digit_val_def is_digit_def)

lemma digit_val_less: "is_digit c \<Longrightarrow> digit_val c < 10"
  by (auto simp: digit_val_def is_digit_def)

lemma digit_0: "digit 0 = CHR ''0''"
  unfolding digit_def by code_simp

lemma is_digit_zero [simp]: "is_digit (CHR ''0'')" "digit_val (CHR ''0'') = 0"
  by (simp_all add: is_digit_def digit_val_def)

lemma not_is_digit [simp]:
  "\<not> is_digit (CHR ''-'')" "\<not> is_digit (CHR ''+'')" "\<not> is_digit (CHR '':'')"
  "\<not> is_digit (CHR ''.'')" "\<not> is_digit (CHR ''T'')" "\<not> is_digit (CHR ''Z'')"
  by (simp_all add: is_digit_def)

lemma is_digit_visible: "is_digit c \<Longrightarrow> visible c"
  by (simp add: is_digit_def visible_def)

section \<open>Printing\<close>

lemma dec_small: "n < 10 \<Longrightarrow> dec n = [digit n]"
  by (simp add: dec.simps)

lemma dec_step: "10 \<le> n \<Longrightarrow> dec n = dec (n div 10) @ [digit (n mod 10)]"
  by (subst dec.simps) simp

lemma dec_not_Nil [simp]: "dec n \<noteq> []"
  by (subst dec.simps) simp

lemma dec_digits: "c \<in> set (dec n) \<Longrightarrow> is_digit c"
proof (induction n rule: dec.induct)
  case (1 n)
  then show ?case
    by (cases "n < 10") (auto simp: dec_small dec_step)
qed

lemma digits_val_snoc [simp]: "digits_val (s @ [c]) = 10 * digits_val s + digit_val c"
  by (simp add: digits_val_def)

lemma digits_val_Nil [simp]: "digits_val [] = 0"
  by (simp add: digits_val_def)

lemma digits_val_dec [simp]: "digits_val (dec n) = n"
proof (induction n rule: dec.induct)
  case (1 n)
  show ?case
  proof (cases "n < 10")
    case True
    then show ?thesis using digits_val_snoc [of "[]" "digit n"] by (simp add: dec_small)
  next
    case False
    with 1 show ?thesis by (simp add: dec_step)
  qed
qed

lemma digits_val_Cons: "digits_val (c # s) = digit_val c * 10 ^ length s + digits_val s"
  by (induction s rule: rev_induct) (simp_all add: digits_val_def algebra_simps)

lemma digits_val_zeros [simp]: "digits_val (replicate k (CHR ''0'') @ s) = digits_val s"
  by (induction k) (simp_all add: digits_val_Cons)

lemma digits_val_pad0 [simp]: "digits_val (pad0 w s) = digits_val s"
  by (simp add: pad0_def)

lemma pad0_digits: "list_all is_digit s \<Longrightarrow> list_all is_digit (pad0 w s)"
  by (auto simp: pad0_def list_all_iff)

lemma dec_list_all [simp]: "list_all is_digit (dec n)"
  by (simp add: list_all_iff dec_digits)

lemma length_pad0: "length (pad0 w s) = max w (length s)"
  by (simp add: pad0_def)

lemma pad0_not_Nil: "s \<noteq> [] \<Longrightarrow> pad0 w s \<noteq> []"
  by (simp add: pad0_def)

lemma dec_bound: "n < 10 ^ length (dec n)"
proof (induction n rule: dec.induct)
  case (1 n)
  show ?case
  proof (cases "n < 10")
    case True
    then show ?thesis by (simp add: dec_small)
  next
    case False
    with 1 have "n div 10 < 10 ^ length (dec (n div 10))" by simp
    then have "n < 10 * 10 ^ length (dec (n div 10))" by linarith
    with False show ?thesis by (simp add: dec_step)
  qed
qed

lemma dec_length_le: "n < 10 ^ k \<Longrightarrow> 0 < k \<Longrightarrow> length (dec n) \<le> k"
proof (induction n arbitrary: k rule: dec.induct)
  case (1 n)
  show ?case
  proof (cases "n < 10")
    case True
    with "1.prems" show ?thesis by (simp add: dec_small)
  next
    case False
    with "1.prems" obtain j where j: "k = Suc j" "0 < j"
      by (cases k; cases "k - 1") auto
    with "1.prems" have "n div 10 < 10 ^ j" by (simp add: div_less_iff_less_mult mult.commute)
    with "1.IH" [OF False] j False show ?thesis by (simp add: dec_step)
  qed
qed

lemma dec_inj [simp]: "dec m = dec n \<longleftrightarrow> m = n"
  by (metis digits_val_dec)

lemma dec_not_blank: "\<not> blank (dec n)"
proof -
  obtain c where "c \<in> set (dec n)" by (cases "dec n") auto
  then show ?thesis using dec_digits is_digit_visible visible_not_blank by blast
qed

text \<open>A padded number in range occupies exactly the width.\<close>

lemma pad0_dec_length: "n < 10 ^ w \<Longrightarrow> 0 < w \<Longrightarrow> length (pad0 w (dec n)) = w"
  using dec_length_le [of n w] by (simp add: length_pad0)

section \<open>Parsing\<close>

lemma strip_plus_digits: "list_all is_digit s \<Longrightarrow> strip_plus s = s"
  by (auto simp: strip_plus_def split: list.splits)

lemma parse_uint_digits:
  "s \<noteq> [] \<Longrightarrow> list_all is_digit s \<Longrightarrow> digits_val s < b \<Longrightarrow> parse_uint b s = Some (digits_val s)"
  by (simp add: parse_uint_def strip_plus_digits parse_digits_def)

lemma parse_uint_dec [simp]: "n < b \<Longrightarrow> parse_uint b (dec n) = Some n"
  by (simp add: parse_uint_digits)

lemma parse_uint_pad0: "n < b \<Longrightarrow> parse_uint b (pad0 w (dec n)) = Some n"
  by (simp add: parse_uint_digits pad0_digits pad0_not_Nil)

lemma parse_uint_bound: "parse_uint b s = Some n \<Longrightarrow> n < b"
  by (auto simp: parse_uint_def split: option.splits if_splits)

lemma parse_uint_nonblank: "parse_uint b s = Some n \<Longrightarrow> \<not> blank s"
proof -
  assume "parse_uint b s = Some n"
  then obtain c where c: "c \<in> set (strip_plus s)" "is_digit c"
    by (cases "strip_plus s") (auto simp: parse_uint_def parse_digits_def split: option.splits if_splits)
  moreover have "set (strip_plus s) \<subseteq> set s"
    by (auto simp: strip_plus_def split: list.splits if_splits)
  ultimately show ?thesis using is_digit_visible visible_not_blank by blast
qed

lemma parse_i64_digits:
  assumes "s \<noteq> []" "list_all is_digit s" "digits_val s < 2 ^ 63"
  shows "parse_i64 s = Some (int (digits_val s))"
proof -
  have "\<not> (\<exists>t. s = CHR ''-'' # t)" using assms(2) by auto
  with assms show ?thesis
    by (auto simp: parse_i64_def parse_uint_digits split: list.splits)
qed

lemma parse_i64_pad0: "n < 2 ^ 63 \<Longrightarrow> parse_i64 (pad0 w (dec n)) = Some (int n)"
  by (simp add: parse_i64_digits pad0_digits pad0_not_Nil)

end
