(* ===== verification/F64.thy ===== *)
theory F64
  imports Complex_Main Numbers
begin

text \<open>
  The part of IEEE 754 binary64 that the sources use (Rust's \<open>f64\<close>): conversion from
  integers, multiplication and division with rounding to nearest, ties to even, the
  comparisons, \<open>round()\<close>, the saturating cast \<open>as u32\<close> and printing with a fixed number of
  decimals. A finite value is the rational number it denotes. The two zeros are one value
  here: no operation of the sources but printing tells them apart.
\<close>

datatype f64 = NaN | Inf bool | Fin rat  \<comment> \<open>\<open>Inf True\<close> is negative infinity\<close>

section \<open>Rounding to nearest, ties to even\<close>

definition rhe :: "rat \<Rightarrow> int" where
  "rhe x = (let f = floor x; r = x - of_int f
            in if r < 1 / 2 \<or> r = 1 / 2 \<and> even f then f else f + 1)"

fun bitlen :: "nat \<Rightarrow> nat" where
  "bitlen n = (if n = 0 then 0 else Suc (bitlen (n div 2)))"

declare bitlen.simps [simp del]

text \<open>The binary exponent of a positive number: \<open>2 ^ e \<le> x < 2 ^ (e + 1)\<close>.\<close>

definition expo :: "rat \<Rightarrow> int" where
  "expo x = (let (n, d) = quotient_of x;
                 e = int (bitlen (nat n)) - int (bitlen (nat d))
             in if 2 powi e \<le> x then e else e - 1)"

text \<open>The exponent of the last place of a 53-bit significand, with gradual underflow.\<close>

definition ulp_expo :: "rat \<Rightarrow> int" where
  "ulp_expo x = max (expo x - 52) (- 1074)"

definition rn_pos :: "rat \<Rightarrow> rat" where
  "rn_pos x = of_int (rhe (x / 2 powi ulp_expo x)) * 2 powi ulp_expo x"

definition rn :: "rat \<Rightarrow> rat" where
  "rn x = (if x = 0 then 0 else if 0 < x then rn_pos x else - rn_pos (- x))"

definition fl :: "rat \<Rightarrow> f64" where
  "fl x = (let y = rn x in if \<bar>y\<bar> < 2 ^ 1024 then Fin y else Inf (y < 0))"

section \<open>Operations\<close>

definition f64_of_u64 :: "u64 \<Rightarrow> f64" where
  "f64_of_u64 w = fl (of_nat (unat w))"

definition f64_of_u32 :: "u32 \<Rightarrow> f64" where
  "f64_of_u32 w = fl (of_nat (unat w))"

fun is_neg :: "f64 \<Rightarrow> bool" where
  "is_neg NaN = False"
| "is_neg (Inf s) = s"
| "is_neg (Fin x) = (x < 0)"

fun fmul :: "f64 \<Rightarrow> f64 \<Rightarrow> f64" where
  "fmul (Fin a) (Fin b) = fl (a * b)"
| "fmul NaN _ = NaN"
| "fmul _ NaN = NaN"
| "fmul (Inf s) b = (if b = Fin 0 then NaN else Inf (s \<noteq> is_neg b))"
| "fmul a (Inf s) = (if a = Fin 0 then NaN else Inf (s \<noteq> is_neg a))"

text \<open>Division; every divisor in the sources is positive, so the sign of a zero divisor is not needed.\<close>

fun fdiv :: "f64 \<Rightarrow> f64 \<Rightarrow> f64" where
  "fdiv (Fin a) (Fin b) =
     (if b = 0 then (if a = 0 then NaN else Inf (a < 0)) else fl (a / b))"
| "fdiv NaN _ = NaN"
| "fdiv _ NaN = NaN"
| "fdiv (Inf s) (Inf t) = NaN"
| "fdiv (Inf s) b = Inf (s \<noteq> is_neg b)"
| "fdiv _ (Inf _) = Fin 0"

text \<open>The comparisons: any comparison with NaN is false.\<close>

instantiation f64 :: ord
begin

fun less_eq_f64 :: "f64 \<Rightarrow> f64 \<Rightarrow> bool" where
  "less_eq_f64 (Fin a) (Fin b) = (a \<le> b)"
| "less_eq_f64 NaN _ = False"
| "less_eq_f64 _ NaN = False"
| "less_eq_f64 (Inf s) (Inf t) = (s \<or> \<not> t)"
| "less_eq_f64 (Inf s) (Fin _) = s"
| "less_eq_f64 (Fin _) (Inf t) = (\<not> t)"

fun less_f64 :: "f64 \<Rightarrow> f64 \<Rightarrow> bool" where
  "less_f64 (Fin a) (Fin b) = (a < b)"
| "less_f64 NaN _ = False"
| "less_f64 _ NaN = False"
| "less_f64 (Inf s) (Inf t) = (s \<and> \<not> t)"
| "less_f64 (Inf s) (Fin _) = s"
| "less_f64 (Fin _) (Inf t) = (\<not> t)"

instance ..

end

fun is_finite :: "f64 \<Rightarrow> bool" where
  "is_finite (Fin _) = True"
| "is_finite _ = False"

text \<open>\<open>f64::round\<close> (half away from zero) followed by the saturating cast \<open>as u32\<close>.\<close>

definition round_away :: "rat \<Rightarrow> int" where
  "round_away x = (if 0 \<le> x then floor (x + 1 / 2) else - floor (- x + 1 / 2))"

fun round_as_u32 :: "f64 \<Rightarrow> u32" where
  "round_as_u32 NaN = 0"
| "round_as_u32 (Inf s) = (if s then 0 else - 1)"
| "round_as_u32 (Fin x) =
     (let i = round_away x in if i < 0 then 0 else if 2 ^ 32 \<le> i then - 1 else word_of_int i)"

text \<open>
  \<open>format!("{:.k}")\<close>: the exact decimal expansion rounded to \<open>k\<close> decimals, ties to even.
\<close>

fun fmt_fixed :: "nat \<Rightarrow> f64 \<Rightarrow> string" where
  "fmt_fixed k NaN = ''NaN''"
| "fmt_fixed k (Inf s) = (if s then ''-inf'' else ''inf'')"
| "fmt_fixed k (Fin x) =
     (let s = pad0 (Suc k) (dec (nat (rhe (\<bar>x\<bar> * 10 ^ k)))); n = length s - k
      in (if x < 0 then ''-'' else []) @ take n s @ (if k = 0 then [] else CHR ''.'' # drop n s))"

section \<open>Rounding to integers\<close>

lemma rhe_bounds: "floor x \<le> rhe x" "rhe x \<le> floor x + 1"
  by (simp_all add: rhe_def Let_def)

lemma rhe_of_int [simp]: "rhe (of_int i) = i"
  by (simp add: rhe_def)

lemma rhe_mono: "x \<le> y \<Longrightarrow> rhe x \<le> rhe y"
proof -
  assume le: "x \<le> y"
  then have "floor x \<le> floor y" by (rule floor_mono)
  then consider "floor x = floor y" | "floor x + 1 \<le> floor y" by linarith
  then show ?thesis
  proof cases
    case 1
    with le show ?thesis by (auto simp: rhe_def Let_def)
  next
    case 2
    then show ?thesis using rhe_bounds(2) [of x] rhe_bounds(1) [of y] by linarith
  qed
qed

lemma rhe_le: "x \<le> of_int i \<Longrightarrow> rhe x \<le> i"
  using rhe_mono [of x "of_int i"] by simp

lemma rhe_ge: "of_int i \<le> x \<Longrightarrow> i \<le> rhe x"
  using rhe_mono [of "of_int i" x] by simp

lemma rhe_nonneg: "0 \<le> x \<Longrightarrow> 0 \<le> rhe x"
  using rhe_ge [of 0 x] by simp

lemma rhe_error: "\<bar>of_int (rhe x) - x\<bar> \<le> 1 / 2"
proof -
  define f where "f = (of_int (floor x) :: rat)"
  have f: "f \<le> x" "x < f + 1"
    unfolding f_def by linarith+
  have "of_int (rhe x) = (if x - f < 1 / 2 \<or> x - f = 1 / 2 \<and> even (floor x) then f else f + 1)"
    by (simp add: rhe_def Let_def f_def)
  with f show ?thesis by (auto simp: abs_if split: if_splits)
qed

section \<open>The exponent\<close>

lemma bitlen_bounds: "0 < n \<Longrightarrow> 2 ^ (bitlen n - 1) \<le> n \<and> n < 2 ^ bitlen n"
proof (induction n rule: bitlen.induct)
  case (1 n)
  show ?case
  proof (cases "n = 1")
    case True
    then show ?thesis by (simp add: bitlen.simps)
  next
    case False
    with "1.prems" have "0 < n div 2" by simp
    with "1.IH" "1.prems" have ih: "2 ^ (bitlen (n div 2) - 1) \<le> n div 2" "n div 2 < 2 ^ bitlen (n div 2)"
      by auto
    obtain k where k: "bitlen (n div 2) = Suc k"
      using \<open>0 < n div 2\<close> by (subst (asm) bitlen.simps) (auto simp: bitlen.simps [of "n div 2"])
    have "bitlen n = Suc (Suc k)"
      using "1.prems" k by (simp add: bitlen.simps [of n])
    with ih k show ?thesis by simp linarith
  qed
qed

lemma powi_pos [simp]: "(0::rat) < 2 powi e"
  by (simp add: zero_less_power_int)

lemma powi_Suc: "(2::rat) powi (e + 1) = 2 * 2 powi e"
  by (simp add: power_int_add)

lemma powi_less_iff: "(2::rat) powi a < 2 powi b \<longleftrightarrow> a < b"
proof
  assume "(2::rat) powi a < 2 powi b"
  then have "\<not> (2::rat) powi b \<le> 2 powi a" by simp
  then show "a < b" using power_int_increasing [of b a "2::rat"] by fastforce
next
  assume "a < b"
  then show "(2::rat) powi a < 2 powi b" by (intro power_int_strict_increasing) auto
qed

lemma powi_add: "(2::rat) powi (a + b) = 2 powi a * 2 powi b"
  by (simp add: power_int_add)

lemma powi_nat: "(2::rat) powi int n = 2 ^ n"
  by simp

lemma expo_bounds:
  assumes "0 < x"
  shows "2 powi expo x \<le> x \<and> x < 2 powi (expo x + 1)"
proof -
  obtain n d where q: "quotient_of x = (n, d)" by (cases "quotient_of x")
  have d: "0 < d" and x: "x = of_int n / of_int d"
    using quotient_of_denom_pos [OF q] quotient_of_div [OF q] by simp_all
  have n: "0 < n" using assms d x by (simp add: zero_less_divide_iff)
  define bn bd where "bn = bitlen (nat n)" and "bd = bitlen (nat d)"
  define e where "e = int bn - int bd"
  have bn: "2 ^ (bn - 1) \<le> nat n" "nat n < 2 ^ bn" and bd: "2 ^ (bd - 1) \<le> nat d" "nat d < 2 ^ bd"
    using bitlen_bounds [of "nat n"] bitlen_bounds [of "nat d"] n d by (auto simp: bn_def bd_def)
  have pos: "0 < bn" "0 < bd"
    using bn(2) bd(2) n d by (auto intro!: Nat.gr0I)
  have N: "(2::rat) powi (int bn - 1) \<le> of_int n" "of_int n < (2::rat) powi int bn"
  proof -
    have "(2::rat) powi (int bn - 1) = of_nat (2 ^ (bn - 1))"
      using pos powi_nat [of "bn - 1"] by (simp add: of_nat_diff)
    also have "\<dots> \<le> of_nat (nat n)" using bn(1) of_nat_le_iff by blast
    finally show "(2::rat) powi (int bn - 1) \<le> of_int n" using n by simp
    have "(of_nat (nat n) :: rat) < of_nat (2 ^ bn)" using bn(2) of_nat_less_iff by blast
    then show "of_int n < (2::rat) powi int bn" using n by simp
  qed
  have D: "(2::rat) powi (int bd - 1) \<le> of_int d" "of_int d < (2::rat) powi int bd"
  proof -
    have "(2::rat) powi (int bd - 1) = of_nat (2 ^ (bd - 1))"
      using pos powi_nat [of "bd - 1"] by (simp add: of_nat_diff)
    also have "\<dots> \<le> of_nat (nat d)" using bd(1) of_nat_le_iff by blast
    finally show "(2::rat) powi (int bd - 1) \<le> of_int d" using d by simp
    have "(of_nat (nat d) :: rat) < of_nat (2 ^ bd)" using bd(2) of_nat_less_iff by blast
    then show "of_int d < (2::rat) powi int bd" using d by simp
  qed
  have lo: "2 powi (e - 1) \<le> x"
  proof -
    have "(2::rat) powi (e - 1) * of_int d \<le> 2 powi (e - 1) * 2 powi int bd"
      using D(2) by (intro mult_left_mono) auto
    also have "\<dots> = 2 powi (int bn - 1)"
      using powi_add [of "e - 1" "int bd"] by (simp add: e_def)
    finally show ?thesis using N(1) d by (simp add: x pos_le_divide_eq)
  qed
  have hi: "x < 2 powi (e + 1)"
  proof -
    have "(2::rat) powi int bn = 2 powi (e + 1) * 2 powi (int bd - 1)"
      using powi_add [of "e + 1" "int bd - 1"] by (simp add: e_def)
    also have "\<dots> \<le> 2 powi (e + 1) * of_int d"
      using D(1) by (intro mult_left_mono) auto
    finally have "of_int n < (2::rat) powi (e + 1) * of_int d" by (rule less_le_trans [OF N(2)])
    then show ?thesis unfolding x using d by (subst pos_divide_less_eq) simp_all
  qed
  have "expo x = (if 2 powi e \<le> x then e else e - 1)"
    by (simp add: expo_def q bn_def bd_def e_def)
  with lo hi show ?thesis by auto
qed

lemma expo_mono:
  assumes "0 < x" "x \<le> y"
  shows "expo x \<le> expo y"
proof -
  have "2 powi expo x < (2::rat) powi (expo y + 1)"
    using expo_bounds [OF assms(1)] expo_bounds [of y] assms by linarith
  then have "expo x < expo y + 1"
    by (simp add: powi_less_iff)
  then show ?thesis by simp
qed

lemma expo_eqI:
  assumes "2 powi e \<le> x" "x < 2 powi (e + 1)"
  shows "expo x = e"
proof -
  have x: "0 < x" using assms(1) powi_pos [of e] by linarith
  have "2 powi expo x < (2::rat) powi (e + 1)" "2 powi e < (2::rat) powi (expo x + 1)"
    using expo_bounds [OF x] assms by linarith+
  then show ?thesis by (simp_all add: powi_less_iff)
qed

section \<open>Rounding\<close>

text \<open>Rounding is monotone, so it never reverses a comparison between two thresholds.\<close>

lemma rn_pos_le_pow:
  assumes "0 < x" "x \<le> 2 powi k" "ulp_expo x \<le> k"
  shows "rn_pos x \<le> 2 powi k"
proof -
  let ?q = "ulp_expo x"
  obtain j where j: "k = ?q + int j" using assms(3) zle_iff_zadd by metis
  have "x / 2 powi ?q \<le> 2 powi k / 2 powi ?q"
    using assms(2) by (intro divide_right_mono) (auto intro: less_imp_le)
  also have "\<dots> = of_int (2 ^ j)" by (simp add: j power_int_add)
  finally have "rhe (x / 2 powi ?q) \<le> 2 ^ j" by (rule rhe_le)
  then have "(of_int (rhe (x / 2 powi ?q)) :: rat) \<le> of_int (2 ^ j)" by (simp only: of_int_le_iff)
  then have "rn_pos x \<le> of_int (2 ^ j) * 2 powi ?q"
    unfolding rn_pos_def by (intro mult_right_mono) (auto intro: less_imp_le)
  then show ?thesis by (simp add: j power_int_add mult.commute)
qed

lemma rn_pos_ge_pow:
  assumes "2 powi k \<le> x" "ulp_expo x \<le> k"
  shows "2 powi k \<le> rn_pos x"
proof -
  let ?q = "ulp_expo x"
  obtain j where j: "k = ?q + int j" using assms(2) zle_iff_zadd by metis
  have "of_int (2 ^ j) = (2::rat) powi k / 2 powi ?q" by (simp add: j power_int_add)
  also have "\<dots> \<le> x / 2 powi ?q"
    using assms(1) by (intro divide_right_mono) (auto intro: less_imp_le)
  finally have "2 ^ j \<le> rhe (x / 2 powi ?q)" by (rule rhe_ge)
  then have "(of_int (2 ^ j) :: rat) \<le> of_int (rhe (x / 2 powi ?q))" by (simp only: of_int_le_iff)
  then have "of_int (2 ^ j) * 2 powi ?q \<le> rn_pos x"
    unfolding rn_pos_def by (intro mult_right_mono) (auto intro: less_imp_le)
  then show ?thesis by (simp add: j power_int_add mult.commute)
qed

lemma rn_pos_mono:
  assumes "0 < x" "x \<le> y"
  shows "rn_pos x \<le> rn_pos y"
proof (cases "ulp_expo x = ulp_expo y")
  case True
  have "rhe (x / 2 powi ulp_expo y) \<le> rhe (y / 2 powi ulp_expo y)"
    using assms by (intro rhe_mono divide_right_mono) (auto intro: less_imp_le)
  then show ?thesis
    unfolding rn_pos_def True by (intro mult_right_mono) (auto intro: less_imp_le)
next
  case False
  have e: "expo x \<le> expo y" by (rule expo_mono [OF assms])
  with False have q: "ulp_expo y = expo y - 52" "ulp_expo x < ulp_expo y" "expo x < expo y"
    by (auto simp: ulp_expo_def max_def split: if_splits)
  have "x \<le> 2 powi expo y"
  proof -
    have "x < 2 powi (expo x + 1)" using expo_bounds [OF assms(1)] by simp
    also have "\<dots> \<le> 2 powi expo y" using q(3) by (intro power_int_increasing) auto
    finally show ?thesis by simp
  qed
  then have "rn_pos x \<le> 2 powi expo y"
    using q by (intro rn_pos_le_pow assms) auto
  also have "\<dots> \<le> rn_pos y"
    using expo_bounds [of y] assms q by (intro rn_pos_ge_pow) auto
  finally show ?thesis .
qed

lemma rn_pos_nonneg: "0 < x \<Longrightarrow> 0 \<le> rn_pos x"
  unfolding rn_pos_def
  by (intro mult_nonneg_nonneg) (simp_all add: rhe_nonneg order.strict_implies_order [OF powi_pos])

lemma rn_mono:
  assumes "x \<le> y"
  shows "rn x \<le> rn y"
proof -
  consider "0 < x" | "x \<le> 0" "0 \<le> y" | "y < 0" by linarith
  then show ?thesis
  proof cases
    case 1
    with assms show ?thesis by (simp add: rn_def rn_pos_mono)
  next
    case 2
    then have "rn x \<le> 0" "0 \<le> rn y"
      using rn_pos_nonneg [of "- x"] rn_pos_nonneg [of y] by (auto simp: rn_def)
    then show ?thesis by linarith
  next
    case 3
    with assms show ?thesis by (simp add: rn_def rn_pos_mono)
  qed
qed

text \<open>Integers below \<open>2 ^ 53\<close> are represented exactly.\<close>

lemma rn_of_nat:
  assumes "n < 2 ^ 53"
  shows "rn (of_nat n) = of_nat n"
proof (cases "n = 0")
  case True
  then show ?thesis by (simp add: rn_def)
next
  case False
  let ?x = "of_nat n :: rat"
  have pos: "0 < ?x" using False by simp
  have "?x < of_nat (2 ^ 53)" using assms of_nat_less_iff by blast
  then have "2 powi expo ?x < (2::rat) powi 53"
    using expo_bounds [OF pos] by simp
  then have "expo ?x < 53" by (simp only: powi_less_iff)
  then have q: "ulp_expo ?x \<le> 0" by (simp add: ulp_expo_def)
  define j where "j = nat (- ulp_expo ?x)"
  have j: "ulp_expo ?x = - int j" using q by (simp add: j_def)
  have "?x / 2 powi ulp_expo ?x = of_int (int n * 2 ^ j)"
    by (simp add: j power_int_minus field_simps)
  then have "rn_pos ?x = of_int (int n * 2 ^ j) * 2 powi ulp_expo ?x"
    by (simp only: rn_pos_def rhe_of_int)
  also have "\<dots> = ?x" by (simp add: j power_int_minus)
  finally show ?thesis using pos by (simp add: rn_def)
qed

lemma rn_nonneg: "0 \<le> x \<Longrightarrow> 0 \<le> rn x"
  using rn_mono [of 0 x] by (simp add: rn_def)

lemma fl_bounded:
  assumes "0 \<le> x" "x \<le> of_nat n" "n < 2 ^ 53"
  shows "fl x = Fin (rn x)" "0 \<le> rn x" "rn x \<le> of_nat n"
proof -
  show *: "0 \<le> rn x" "rn x \<le> of_nat n"
    using rn_nonneg assms rn_mono [of x "of_nat n"] rn_of_nat by auto
  have "(of_nat n :: rat) < of_nat (2 ^ 53)" using assms(3) of_nat_less_iff by blast
  also have "\<dots> \<le> 2 ^ 1024" by simp
  finally show "fl x = Fin (rn x)" using * by (simp add: fl_def Let_def)
qed

text \<open>The rounding error of a value below a power of two.\<close>

lemma rn_error:
  assumes "0 \<le> x" "x < 2 powi (k + 1)" "- 1022 \<le> k"
  shows "\<bar>rn x - x\<bar> \<le> 2 powi (k - 53)"
proof (cases "x = 0")
  case True
  then show ?thesis using powi_pos [of "k - 53"] by (simp add: rn_def)
next
  case False
  with assms have pos: "0 < x" by simp
  define u where "u = (2::rat) powi ulp_expo x"
  have u: "0 < u" by (simp add: u_def)
  have "(2::rat) powi expo x < 2 powi (k + 1)"
    using expo_bounds [OF pos] assms(2) by linarith
  then have "ulp_expo x \<le> k - 52"
    using assms(3) by (simp add: powi_less_iff ulp_expo_def)
  then have uk: "u \<le> 2 powi (k - 52)"
    unfolding u_def using powi_less_iff [of "k - 52" "ulp_expo x"] by linarith
  have half: "(2::rat) powi (k - 52) = 2 * 2 powi (k - 53)"
    using powi_Suc [of "k - 53"] by simp
  have "rn x - x = (of_int (rhe (x / u)) - x / u) * u"
    using pos u by (simp add: rn_def rn_pos_def u_def [symmetric] field_simps)
  then have "\<bar>rn x - x\<bar> = \<bar>of_int (rhe (x / u)) - x / u\<bar> * u"
    using u by (simp add: abs_mult)
  also have "\<dots> \<le> 1 / 2 * u"
    by (rule mult_right_mono [OF rhe_error]) (use u in simp)
  also have "\<dots> \<le> 2 powi (k - 53)" using uk half by simp
  finally show ?thesis .
qed

lemma round_away_error: "\<bar>of_int (round_away x) - x\<bar> \<le> 1 / 2"
proof -
  have "of_int (floor z) \<le> z" "z < of_int (floor z) + 1" for z :: rat
    by linarith+
  note fl = this [of "x + 1 / 2"] this [of "- x + 1 / 2"]
  show ?thesis
  proof (cases "0 \<le> x")
    case True
    with fl(1,2) show ?thesis unfolding round_away_def by (simp only: if_True abs_le_iff) linarith
  next
    case False
    with fl(3,4) show ?thesis
      unfolding round_away_def by (simp only: if_False abs_le_iff of_int_minus) linarith
  qed
qed

lemma round_away_mono: "x \<le> y \<Longrightarrow> round_away x \<le> round_away y"
proof -
  assume le: "x \<le> y"
  consider "0 \<le> x" | "x < 0" "0 \<le> y" | "y < 0" by linarith
  then show ?thesis
  proof cases
    case 1
    with le show ?thesis by (simp add: round_away_def floor_mono)
  next
    case 2
    then have "0 \<le> floor (- x + 1 / 2)" "0 \<le> floor (y + 1 / 2)" by simp_all
    then have "- floor (- x + 1 / 2) \<le> floor (y + 1 / 2)" by linarith
    moreover have "round_away x = - floor (- x + 1 / 2)" "round_away y = floor (y + 1 / 2)"
      using 2 by (simp_all only: round_away_def) simp_all
    ultimately show ?thesis by simp
  next
    case 3
    with le have "floor (- y + 1 / 2) \<le> floor (- x + 1 / 2)" by (intro floor_mono) simp
    with 3 le show ?thesis by (simp add: round_away_def)
  qed
qed

lemma round_away_nonneg: "0 \<le> x \<Longrightarrow> 0 \<le> round_away x"
  by (simp add: round_away_def)

lemma round_away_of_nat [simp]: "round_away (of_nat n) = int n"
proof -
  have "floor (of_nat n + 1 / 2 :: rat) = int n" by (rule floor_unique) simp_all
  then show ?thesis by (simp add: round_away_def)
qed

lemma round_as_u32_bounded:
  assumes "0 \<le> x" "x \<le> of_nat n" "n < 2 ^ 32"
  shows "unat (round_as_u32 (Fin x)) = nat (round_away x)" "nat (round_away x) \<le> n"
proof -
  have r: "0 \<le> round_away x" "round_away x \<le> int n"
    using round_away_nonneg round_away_mono [of x "of_nat n"] assms by auto
  then show "nat (round_away x) \<le> n" by simp
  from r assms(3) have "round_as_u32 (Fin x) = word_of_int (round_away x)" by simp
  with r assms(3) show "unat (round_as_u32 (Fin x)) = nat (round_away x)"
    by (simp add: unsigned_of_int take_bit_int_eq_self)
qed

section \<open>Quotients of counters\<close>

lemma f64_of_u64_finite:
  obtains a where "f64_of_u64 w = Fin a" "0 \<le> a" "w \<noteq> 0 \<Longrightarrow> 1 \<le> a"
proof -
  define x where "x = (of_nat (unat w) :: rat)"
  have x0: "0 \<le> x" unfolding x_def by (rule of_nat_0_le_iff)
  have "x < of_nat (2 ^ 64)" unfolding x_def of_nat_less_iff using unat_u64_less [of w] by simp
  then have x64: "x \<le> 2 powi 64" by simp
  have le: "rn x \<le> 2 powi 64"
  proof (cases "x = 0")
    case True
    then show ?thesis by (simp add: rn_def)
  next
    case False
    with x0 have pos: "0 < x" by simp
    have "(2::rat) powi expo x \<le> 2 powi 64" using expo_bounds [OF pos] x64 by linarith
    then have "expo x \<le> 64" using powi_less_iff [of 64 "expo x"] by linarith
    then have "ulp_expo x \<le> 64" by (simp add: ulp_expo_def)
    with rn_pos_le_pow [OF pos x64] pos show ?thesis by (simp add: rn_def)
  qed
  have "(2::rat) powi 64 < 2 ^ 1024" by simp
  with le rn_nonneg [OF x0] have "\<bar>rn x\<bar> < 2 ^ 1024" by linarith
  then have "f64_of_u64 w = Fin (rn x)"
    unfolding f64_of_u64_def fl_def Let_def x_def [symmetric] by (rule if_P)
  moreover have "1 \<le> rn x" if "w \<noteq> 0"
  proof -
    have "1 \<le> unat w" using that by (simp add: Suc_le_eq unat_gt_0)
    then have "1 \<le> x" unfolding x_def by (metis of_nat_1 of_nat_le_iff)
    with rn_mono [of 1 x] rn_of_nat [of 1] show ?thesis by simp
  qed
  ultimately show ?thesis using rn_nonneg [OF x0] that by blast
qed

definition nonneg :: "f64 \<Rightarrow> bool" where
  "nonneg x \<longleftrightarrow> Fin 0 \<le> x"

lemma nonneg_fl: "0 \<le> q \<Longrightarrow> nonneg (fl q)"
  using rn_nonneg [of q] by (auto simp: nonneg_def fl_def Let_def)

lemma nonneg_ratio: "b \<noteq> 0 \<Longrightarrow> nonneg (fdiv (f64_of_u64 a) (f64_of_u64 b))"
proof -
  assume "b \<noteq> 0"
  obtain x where x: "f64_of_u64 a = Fin x" "0 \<le> x" using f64_of_u64_finite [of a] .
  obtain y where y: "f64_of_u64 b = Fin y" "0 \<le> y" "b \<noteq> 0 \<Longrightarrow> 1 \<le> y"
    using f64_of_u64_finite [of b] by metis
  from y(3) \<open>b \<noteq> 0\<close> have "1 \<le> y" by simp
  then have "0 < y" by linarith
  with x(2) have "0 \<le> x / y" by simp
  with \<open>0 < y\<close> show ?thesis by (simp add: x(1) y(1) nonneg_fl)
qed

lemma nonneg_mult: "nonneg x \<Longrightarrow> 0 < k \<Longrightarrow> nonneg (fmul x (Fin k))"
  by (cases x) (auto simp: nonneg_fl, auto simp: nonneg_def nonneg_fl [unfolded nonneg_def])

end
