(* ===== verification/Btree.thy ===== *)
theory Btree
  imports Prelude
begin

text \<open>
  \<open>std::collections::BTreeMap\<close>, the container of the controller's registries, of metric
  values and of JSON objects: an association list in strictly increasing key order, which
  is also the order the standard library iterates in. The locale \<open>ordered_map\<close> is the
  contract its clients rely on; the interpretation \<open>bt\<close> proves it for this model.
\<close>

type_synonym ('k, 'v) btree = "('k \<times> 'v) list"

fun bt_insert :: "'k::linorder \<Rightarrow> 'v \<Rightarrow> ('k, 'v) btree \<Rightarrow> ('k, 'v) btree" where
  "bt_insert k v [] = [(k, v)]"
| "bt_insert k v ((a, b) # m) =
     (if k < a then (k, v) # (a, b) # m
      else if k = a then (a, v) # m
      else (a, b) # bt_insert k v m)"

abbreviation bt_get :: "('k, 'v) btree \<Rightarrow> 'k \<Rightarrow> 'v option" where
  "bt_get \<equiv> map_of"

definition bt_keys :: "('k, 'v) btree \<Rightarrow> 'k list" where
  "bt_keys m = map fst m"

definition bt_inv :: "('k::linorder, 'v) btree \<Rightarrow> bool" where
  "bt_inv m \<longleftrightarrow> sorted_wrt (<) (map fst m)"

text \<open>\<open>BTreeMap::from\<close>: insert the pairs from left to right.\<close>

definition bt_from :: "('k::linorder \<times> 'v) list \<Rightarrow> ('k, 'v) btree" where
  "bt_from kvs = fold (\<lambda>(k, v). bt_insert k v) kvs []"

section \<open>The contract of an ordered map\<close>

locale ordered_map =
  fixes empty :: "'m"
    and ins :: "'k::linorder \<Rightarrow> 'v \<Rightarrow> 'm \<Rightarrow> 'm"
    and get :: "'m \<Rightarrow> 'k \<Rightarrow> 'v option"
    and entries :: "'m \<Rightarrow> ('k \<times> 'v) list"
    and inv :: "'m \<Rightarrow> bool"
  assumes get_empty: "get empty k = None"
    and get_ins: "inv m \<Longrightarrow> get (ins k v m) = (get m)(k \<mapsto> v)"
    and entries_get: "inv m \<Longrightarrow> (k, v) \<in> set (entries m) \<longleftrightarrow> get m k = Some v"
    and entries_sorted: "inv m \<Longrightarrow> sorted_wrt (<) (map fst (entries m))"
    and inv_empty: "inv empty"
    and inv_ins: "inv m \<Longrightarrow> inv (ins k v m)"
begin

lemma keys_get:
  assumes "inv m"
  shows "k \<in> fst ` set (entries m) \<longleftrightarrow> get m k \<noteq> None"
proof -
  have "k \<in> fst ` set (entries m) \<longleftrightarrow> (\<exists>v. (k, v) \<in> set (entries m))" by force
  with assms show ?thesis by (simp add: entries_get)
qed

lemma keys_ins: "inv m \<Longrightarrow> fst ` set (entries (ins k v m)) = insert k (fst ` set (entries m))"
  by (rule set_eqI) (simp add: keys_get inv_ins get_ins)

lemma entries_distinct: "inv m \<Longrightarrow> distinct (map fst (entries m))"
  using entries_sorted by (metis strict_sorted_iff)

lemma inv_fold: "inv m \<Longrightarrow> inv (fold (\<lambda>(k, v). ins k v) kvs m)"
  by (induction kvs arbitrary: m) (auto simp: inv_ins)

lemma get_fold: "inv m \<Longrightarrow> get (fold (\<lambda>(k, v). ins k v) kvs m) = get m ++ map_of (rev kvs)"
proof (induction kvs arbitrary: m)
  case Nil
  then show ?case by simp
next
  case (Cons kv kvs)
  obtain k v where "kv = (k, v)" by force
  with Cons.prems Cons.IH [of "ins k v m"] show ?case
    by (simp add: inv_ins get_ins map_add_def fun_eq_iff split: option.splits)
qed

end

section \<open>The model meets the contract\<close>

lemma bt_get_insert: "bt_inv m \<Longrightarrow> bt_get (bt_insert k v m) = (bt_get m)(k \<mapsto> v)"
  by (induction k v m rule: bt_insert.induct) (auto simp: bt_inv_def fun_eq_iff)

lemma bt_keys_insert: "set (map fst (bt_insert k v m)) = insert k (set (map fst m))"
  by (induction k v m rule: bt_insert.induct) auto

lemma bt_inv_insert: "bt_inv m \<Longrightarrow> bt_inv (bt_insert k v m)"
proof (induction k v m rule: bt_insert.induct)
  case (1 k v)
  then show ?case by (simp add: bt_inv_def)
next
  case (2 k v a b m)
  then have "\<not> k < a \<Longrightarrow> k \<noteq> a \<Longrightarrow> bt_inv (bt_insert k v m)" by (simp add: bt_inv_def)
  moreover have "\<not> k < a \<Longrightarrow> k \<noteq> a \<Longrightarrow> \<forall>x\<in>set (map fst (bt_insert k v m)). a < x"
    using "2.prems" by (auto simp: bt_keys_insert bt_inv_def simp del: set_map)
  ultimately show ?case
    using "2.prems" by (auto simp: bt_inv_def intro: less_trans)
qed

lemma bt_inv_Nil [simp]: "bt_inv []"
  by (simp add: bt_inv_def)

interpretation bt: ordered_map "[]" bt_insert bt_get "\<lambda>m. m" bt_inv
proof (unfold_locales, goal_cases)
  case (3 m k v)
  then have "distinct (map fst m)" by (auto simp: bt_inv_def strict_sorted_iff)
  then show ?case by simp
qed (simp_all add: bt_get_insert bt_inv_insert bt_inv_def [symmetric] del: map_of_eq_Some_iff)

lemma bt_from_inv [simp]: "bt_inv (bt_from kvs)"
  unfolding bt_from_def by (rule bt.inv_fold) simp

lemma bt_from_get: "bt_get (bt_from kvs) = map_of (rev kvs)"
  unfolding bt_from_def by (simp add: bt.get_fold)

lemma bt_keys_get: "k \<in> set (bt_keys m) \<longleftrightarrow> bt_get m k \<noteq> None"
  by (simp add: bt_keys_def map_of_eq_None_iff)

end
