(* ===== verification/Json.thy ===== *)
theory Json
  imports F64 Btree
begin

text \<open>
  \<open>serde_json::Value\<close>: the untyped documents that carry event facts. An object is a
  \<open>BTreeMap\<close> from keys to values; numbers are unsigned, negative or floating.
\<close>

datatype json =
    JNull
  | JBool bool
  | JPos u64
  | JNeg int
  | JFloat f64
  | JStr string
  | JArr "json list"
  | JObj "(string, json) btree"

text \<open>The \<open>json!({ ... })\<close> macro: the entries are inserted in order.\<close>

definition json_object :: "(string \<times> json) list \<Rightarrow> json" where
  "json_object kvs = JObj (bt_from kvs)"

fun json_insert :: "string \<Rightarrow> json \<Rightarrow> json \<Rightarrow> json" where
  "json_insert k v (JObj m) = JObj (bt_insert k v m)"
| "json_insert k v j = j"

fun json_get :: "json \<Rightarrow> string \<Rightarrow> json option" where
  "json_get (JObj m) k = bt_get m k"
| "json_get _ k = None"

definition json_i32 :: "i32 \<Rightarrow> json" where
  "json_i32 w = (if sint w < 0 then JNeg (sint w) else JPos (word_of_int (sint w)))"

definition json_u32 :: "u32 \<Rightarrow> json" where
  "json_u32 w = JPos (ucast w)"

definition json_u16 :: "u16 \<Rightarrow> json" where
  "json_u16 w = JPos (ucast w)"

text \<open>A non-finite float becomes \<open>null\<close>.\<close>

definition json_f64 :: "f64 \<Rightarrow> json" where
  "json_f64 x = (if is_finite x then JFloat x else JNull)"

definition is_object :: "json \<Rightarrow> bool" where
  "is_object j = (case j of JObj _ \<Rightarrow> True | _ \<Rightarrow> False)"

lemma json_get_object: "json_get (json_object kvs) k = map_of (rev kvs) k"
  by (simp add: json_object_def bt_from_get)

end
