(* ===== verification/Wire.thy ===== *)
theory Wire
  imports Json
begin

text \<open>
  \<open>tapio-wire\<close>: the requests and responses of the agent/controller protocol with their
  validation (\<open>tapio-wire/src/lib.rs\<close>, \<open>tapio-wire/src/config.rs\<close>). A record per struct, a
  datatype per enum, \<open>validate\<close> as the chain of its checks. The serde encoding itself is
  a third-party library and is not modelled. Properties: what an accepted event batch is,
  which error a rejected one carries, and what the reasoning filter does and does not see.
\<close>

definition WIRE_VERSION :: string where
  "WIRE_VERSION = ''tapio-wire/v1''"

datatype wire_error =
    UnsupportedVersion string
  | MissingField string
  | InvalidField string string  \<comment> \<open>field, reason\<close>
  | ReasoningField string

section \<open>Compiled configuration\<close>

record compiled_network =
  cn_enabled :: bool
  cn_rtt_spike_ratio :: u32
  cn_rtt_spike_abs_us :: u32
  cn_rtt_min_baseline_samples :: u32
  cn_conn_refused_window_ns :: u64
  cn_conn_refused_min_count :: u32

record compiled_storage =
  cs_enabled :: bool
  cs_slow_io_warning_ns :: u64
  cs_slow_io_critical_ns :: u64

record compiled_container =
  cc_enabled :: bool
  cc_ignore_exit_codes :: "i32 list"

record compiled_node_pmc =
  cp_enabled :: bool
  cp_stall_warning_permille :: u32
  cp_stall_critical_permille :: u32
  cp_ipc_degradation_milli :: u32

record compiled_config =
  comp_network :: compiled_network
  comp_storage :: compiled_storage
  comp_container :: compiled_container
  comp_node_pmc :: compiled_node_pmc

section \<open>Requests and responses\<close>

record hello_request =
  hello_wire_version :: string
  hello_agent_id :: string
  hello_node_name :: string
  hello_tapio_version :: string
  hello_kernel_release :: string
  hello_arch :: string
  hello_capabilities :: "string list"
  hello_object_sizes :: "(string, u64) btree"
  hello_map_counts :: "(string, u64) btree"

record hello_response =
  hresp_wire_version :: string
  hresp_accepted :: bool
  hresp_controller_id :: string
  hresp_config_version :: string
  hresp_send_interval_ms :: u64
  hresp_max_batch_events :: u64

record batching_config =
  bat_send_interval_ms :: u64
  bat_max_batch_events :: u64

record config_response =
  cfg_wire_version :: string
  cfg_version :: string
  cfg_config_hash :: string
  cfg_config :: compiled_config
  cfg_batching :: batching_config

datatype observer_status = Running | Disabled | Degraded | Failed

datatype degraded_reason = Unconfigured | Unknown

record heartbeat_counters =
  hc_events_total :: u64
  hc_malformed_events_total :: u64
  hc_lost_events_total :: u64
  hc_correlation_drops_total :: u64
  hc_sink_drops_total :: u64
  hc_controller_send_failures_total :: u64

record heartbeat_request =
  hb_wire_version :: string
  hb_agent_id :: string
  hb_node_name :: string
  hb_config_version :: string
  hb_config_hash :: string
  hb_uptime_seconds :: u64
  hb_observers :: "(string, observer_status) btree"
  hb_counters :: heartbeat_counters
  hb_degraded_reasons :: "degraded_reason list"

record heartbeat_response =
  hbresp_wire_version :: string
  hbresp_accepted :: bool
  hbresp_next_config_version :: string

datatype event_severity = EvDebug | EvInfo | EvWarning | EvError | EvCritical

record wire_event =
  ev_type :: string
  ev_timestamp_unix_nanos :: u64
  ev_observer :: string
  ev_severity :: event_severity
  ev_facts :: json

record event_batch_request =
  batch_wire_version :: string
  batch_agent_id :: string
  batch_node_name :: string
  batch_sequence :: u64
  batch_sent_at_unix_nanos :: u64
  batch_events :: "wire_event list"

record event_batch_response =
  bresp_wire_version :: string
  bresp_accepted :: u64
  bresp_rejected :: u64
  bresp_next_config_version :: string

record status_config =
  stc_version :: string
  stc_config_hash :: string

record status_totals =
  stt_accepted_events_total :: u64
  stt_rejected_events_total :: u64
  stt_batches_accepted_total :: u64
  stt_batches_rejected_total :: u64

record sequence_status =
  sq_last_seen :: "u64 option"
  sq_gaps_total :: u64
  sq_regressions_total :: u64

record agent_status =
  as_agent_id :: string
  as_node_name :: string
  as_tapio_version :: string
  as_registered_at_unix :: u64
  as_last_heartbeat_age_seconds :: "u64 option"
  as_reported_config_version :: string
  as_reported_counters :: heartbeat_counters
  as_observers :: "(string, observer_status) btree"
  as_sequence :: sequence_status

record status_response =
  st_wire_version :: string
  st_controller_id :: string
  st_started_at_unix :: u64
  st_config :: status_config
  st_totals :: status_totals
  st_agents :: "agent_status list"

section \<open>Checks\<close>

definition validate_wire_version :: "string \<Rightarrow> wire_error + unit" where
  "validate_wire_version version =
     (if version = WIRE_VERSION then Inr () else Inl (UnsupportedVersion version))"

definition required :: "string \<Rightarrow> string \<Rightarrow> wire_error + unit" where
  "required field value = (if trim value = [] then Inl (MissingField field) else Inr ())"

definition bounded_nonzero :: "string \<Rightarrow> u64 \<Rightarrow> wire_error + unit" where
  "bounded_nonzero field value =
     (if value = 0 then Inl (InvalidField field ''must be greater than zero'') else Inr ())"

definition is_reasoning_key :: "string \<Rightarrow> bool" where
  "is_reasoning_key key \<longleftrightarrow>
     key \<in> set [''reasoning'', ''root_cause'', ''rootCause'', ''causal_chain'', ''causalChain'',
       ''explanation'', ''possible_causes'', ''possibleCauses'', ''suggested_fix'',
       ''suggestedFix'', ''remediation'', ''recommendation'']"

fun reject_reasoning_fields :: "string \<Rightarrow> json \<Rightarrow> wire_error + unit"
  and reject_reasoning_entries :: "string \<Rightarrow> (string \<times> json) list \<Rightarrow> wire_error + unit" where
  "reject_reasoning_fields path (JObj m) = reject_reasoning_entries path m"
| "reject_reasoning_fields path v = Inr ()"
| "reject_reasoning_entries path [] = Inr ()"
| "reject_reasoning_entries path ((key, child) # m) =
     (if is_reasoning_key key then Inl (ReasoningField (path @ ''.'' @ key))
      else (case reject_reasoning_fields (path @ ''.'' @ key) child of
              Inl e \<Rightarrow> Inl e
            | Inr _ \<Rightarrow> reject_reasoning_entries path m))"

section \<open>Validation of each message\<close>

definition hello_request_validate :: "hello_request \<Rightarrow> wire_error + unit" where
  "hello_request_validate h = first_err
     [validate_wire_version (hello_wire_version h),
      required ''agent_id'' (hello_agent_id h),
      required ''node_name'' (hello_node_name h),
      required ''tapio_version'' (hello_tapio_version h),
      required ''kernel_release'' (hello_kernel_release h),
      required ''arch'' (hello_arch h)]"

definition hello_response_from_config :: "string \<Rightarrow> config_response \<Rightarrow> hello_response" where
  "hello_response_from_config controller_id config =
     \<lparr>hresp_wire_version = WIRE_VERSION, hresp_accepted = True,
      hresp_controller_id = controller_id, hresp_config_version = cfg_version config,
      hresp_send_interval_ms = bat_send_interval_ms (cfg_batching config),
      hresp_max_batch_events = bat_max_batch_events (cfg_batching config)\<rparr>"

definition hello_response_validate :: "hello_response \<Rightarrow> wire_error + unit" where
  "hello_response_validate r = first_err
     [validate_wire_version (hresp_wire_version r),
      required ''controller_id'' (hresp_controller_id r),
      required ''config_version'' (hresp_config_version r),
      bounded_nonzero ''send_interval_ms'' (hresp_send_interval_ms r),
      bounded_nonzero ''max_batch_events'' (hresp_max_batch_events r)]"

definition config_default_v1 :: config_response where
  "config_default_v1 =
     \<lparr>cfg_wire_version = WIRE_VERSION, cfg_version = ''1'', cfg_config_hash = [],
      cfg_config =
        \<lparr>comp_network = \<lparr>cn_enabled = True, cn_rtt_spike_ratio = 2, cn_rtt_spike_abs_us = 500000,
           cn_rtt_min_baseline_samples = 5, cn_conn_refused_window_ns = 0,
           cn_conn_refused_min_count = 0\<rparr>,
         comp_storage = \<lparr>cs_enabled = True, cs_slow_io_warning_ns = 50000000,
           cs_slow_io_critical_ns = 200000000\<rparr>,
         comp_container = \<lparr>cc_enabled = True, cc_ignore_exit_codes = []\<rparr>,
         comp_node_pmc = \<lparr>cp_enabled = True, cp_stall_warning_permille = 200,
           cp_stall_critical_permille = 400, cp_ipc_degradation_milli = 1000\<rparr>\<rparr>,
      cfg_batching = \<lparr>bat_send_interval_ms = 1000, bat_max_batch_events = 256\<rparr>\<rparr>"

definition config_response_validate :: "config_response \<Rightarrow> wire_error + unit" where
  "config_response_validate c = first_err
     [validate_wire_version (cfg_wire_version c),
      required ''version'' (cfg_version c),
      bounded_nonzero ''config.storage.slow_io_warning_ns''
        (cs_slow_io_warning_ns (comp_storage (cfg_config c))),
      bounded_nonzero ''config.storage.slow_io_critical_ns''
        (cs_slow_io_critical_ns (comp_storage (cfg_config c))),
      bounded_nonzero ''batching.send_interval_ms'' (bat_send_interval_ms (cfg_batching c)),
      bounded_nonzero ''batching.max_batch_events'' (bat_max_batch_events (cfg_batching c))]"

definition heartbeat_request_validate :: "heartbeat_request \<Rightarrow> wire_error + unit" where
  "heartbeat_request_validate h = first_err
     [validate_wire_version (hb_wire_version h),
      required ''agent_id'' (hb_agent_id h),
      required ''node_name'' (hb_node_name h),
      required ''config_version'' (hb_config_version h),
      guard_err (hb_observers h = []) (MissingField ''observers'')]"

definition heartbeat_response_accepted :: "string \<Rightarrow> heartbeat_response" where
  "heartbeat_response_accepted next_config_version =
     \<lparr>hbresp_wire_version = WIRE_VERSION, hbresp_accepted = True,
      hbresp_next_config_version = next_config_version\<rparr>"

definition heartbeat_response_validate :: "heartbeat_response \<Rightarrow> wire_error + unit" where
  "heartbeat_response_validate r = first_err
     [validate_wire_version (hbresp_wire_version r),
      required ''next_config_version'' (hbresp_next_config_version r)]"

definition wire_event_validate :: "wire_event \<Rightarrow> wire_error + unit" where
  "wire_event_validate e = first_err
     [required ''type'' (ev_type e),
      required ''observer'' (ev_observer e),
      guard_err (\<not> starts_with (ev_type e) ''kernel.'')
        (InvalidField ''type'' ''must be a kernel.* event''),
      reject_reasoning_fields ''$'' (ev_facts e)]"

definition event_batch_request_validate :: "event_batch_request \<Rightarrow> nat \<Rightarrow> wire_error + unit" where
  "event_batch_request_validate b max_batch_events = first_err
     ([validate_wire_version (batch_wire_version b),
       required ''agent_id'' (batch_agent_id b),
       required ''node_name'' (batch_node_name b),
       guard_err (batch_events b = []) (MissingField ''events''),
       guard_err (length (batch_events b) > max_batch_events)
         (InvalidField ''events'' ''batch exceeds max_batch_events'')]
      @ map wire_event_validate (batch_events b))"

definition event_batch_response_validate :: "event_batch_response \<Rightarrow> wire_error + unit" where
  "event_batch_response_validate r = first_err
     [validate_wire_version (bresp_wire_version r),
      required ''next_config_version'' (bresp_next_config_version r)]"

definition status_config_validate :: "status_config \<Rightarrow> wire_error + unit" where
  "status_config_validate c = required ''config.version'' (stc_version c)"

definition agent_status_validate :: "agent_status \<Rightarrow> wire_error + unit" where
  "agent_status_validate a = first_err
     [required ''agent_id'' (as_agent_id a),
      required ''node_name'' (as_node_name a),
      required ''tapio_version'' (as_tapio_version a)]"

definition status_response_validate :: "status_response \<Rightarrow> wire_error + unit" where
  "status_response_validate s = first_err
     ([validate_wire_version (st_wire_version s),
       required ''controller_id'' (st_controller_id s),
       status_config_validate (st_config s)]
      @ map agent_status_validate (st_agents s))"


section \<open>Accepted messages\<close>

lemma required_ok [simp]: "required f v = Inr () \<longleftrightarrow> \<not> blank v"
  by (simp add: required_def blank_def)

lemma required_err: "required f v = Inl e \<longleftrightarrow> blank v \<and> e = MissingField f"
  by (auto simp: required_def blank_def)

lemma bounded_nonzero_ok [simp]: "bounded_nonzero f v = Inr () \<longleftrightarrow> v \<noteq> 0"
  by (simp add: bounded_nonzero_def)

lemma wire_version_ok [simp]: "validate_wire_version v = Inr () \<longleftrightarrow> v = WIRE_VERSION"
  by (simp add: validate_wire_version_def)

lemma hello_request_ok:
  "hello_request_validate h = Inr () \<longleftrightarrow>
     hello_wire_version h = WIRE_VERSION \<and> \<not> blank (hello_agent_id h) \<and> \<not> blank (hello_node_name h)
     \<and> \<not> blank (hello_tapio_version h) \<and> \<not> blank (hello_kernel_release h) \<and> \<not> blank (hello_arch h)"
  by (simp add: hello_request_validate_def first_err_ok)

lemma hello_response_ok:
  "hello_response_validate r = Inr () \<longleftrightarrow>
     hresp_wire_version r = WIRE_VERSION \<and> \<not> blank (hresp_controller_id r)
     \<and> \<not> blank (hresp_config_version r) \<and> hresp_send_interval_ms r \<noteq> 0
     \<and> hresp_max_batch_events r \<noteq> 0"
  by (simp add: hello_response_validate_def first_err_ok)

lemma config_response_ok:
  "config_response_validate c = Inr () \<longleftrightarrow>
     cfg_wire_version c = WIRE_VERSION \<and> \<not> blank (cfg_version c)
     \<and> cs_slow_io_warning_ns (comp_storage (cfg_config c)) \<noteq> 0
     \<and> cs_slow_io_critical_ns (comp_storage (cfg_config c)) \<noteq> 0
     \<and> bat_send_interval_ms (cfg_batching c) \<noteq> 0 \<and> bat_max_batch_events (cfg_batching c) \<noteq> 0"
  by (simp add: config_response_validate_def first_err_ok)

lemma heartbeat_request_ok:
  "heartbeat_request_validate h = Inr () \<longleftrightarrow>
     hb_wire_version h = WIRE_VERSION \<and> \<not> blank (hb_agent_id h) \<and> \<not> blank (hb_node_name h)
     \<and> \<not> blank (hb_config_version h) \<and> hb_observers h \<noteq> []"
  by (simp add: heartbeat_request_validate_def first_err_ok)

lemma heartbeat_response_ok:
  "heartbeat_response_validate r = Inr () \<longleftrightarrow>
     hbresp_wire_version r = WIRE_VERSION \<and> \<not> blank (hbresp_next_config_version r)"
  by (simp add: heartbeat_response_validate_def first_err_ok)

lemma event_batch_response_ok:
  "event_batch_response_validate r = Inr () \<longleftrightarrow>
     bresp_wire_version r = WIRE_VERSION \<and> \<not> blank (bresp_next_config_version r)"
  by (simp add: event_batch_response_validate_def first_err_ok)

lemma wire_event_ok:
  "wire_event_validate e = Inr () \<longleftrightarrow>
     \<not> blank (ev_type e) \<and> \<not> blank (ev_observer e) \<and> starts_with (ev_type e) ''kernel.''
     \<and> reject_reasoning_fields ''$'' (ev_facts e) = Inr ()"
  by (simp add: wire_event_validate_def first_err_ok)

lemma event_batch_request_ok:
  "event_batch_request_validate b n = Inr () \<longleftrightarrow>
     batch_wire_version b = WIRE_VERSION \<and> \<not> blank (batch_agent_id b) \<and> \<not> blank (batch_node_name b)
     \<and> batch_events b \<noteq> [] \<and> length (batch_events b) \<le> n
     \<and> (\<forall>e\<in>set (batch_events b). wire_event_validate e = Inr ())"
  by (auto simp: event_batch_request_validate_def first_err_ok)

lemmas wire_ok = hello_request_ok hello_response_ok config_response_ok heartbeat_request_ok
  heartbeat_response_ok event_batch_response_ok wire_event_ok event_batch_request_ok

text \<open>The advertised batching limits make the hello response valid, whatever the configuration.\<close>

lemma hello_response_from_config_ok:
  "config_response_validate c = Inr () \<Longrightarrow> \<not> blank cid \<Longrightarrow>
   hello_response_validate (hello_response_from_config cid c) = Inr ()"
  by (simp add: wire_ok hello_response_from_config_def)

section \<open>What the reasoning filter sees\<close>

text \<open>
  \<open>key_at v ks\<close>: following the keys \<open>ks\<close> through nested objects of \<open>v\<close> reaches an entry.
\<close>

inductive key_at :: "json \<Rightarrow> string list \<Rightarrow> bool" where
  here: "(k, c) \<in> set m \<Longrightarrow> key_at (JObj m) [k]"
| below: "(k, c) \<in> set m \<Longrightarrow> key_at c ks \<Longrightarrow> key_at (JObj m) (k # ks)"

inductive_cases key_at_ObjE: "key_at (JObj m) ks"
inductive_simps key_at_simps:
  "key_at JNull ks" "key_at (JBool b) ks" "key_at (JPos p) ks" "key_at (JNeg i) ks"
  "key_at (JFloat x) ks" "key_at (JStr s) ks" "key_at (JArr vs) ks" "key_at (JObj []) ks"

definition dotted :: "string \<Rightarrow> string list \<Rightarrow> string" where
  "dotted path ks = path @ concat (map (\<lambda>k. ''.'' @ k) ks)"

definition reasoning_at :: "json \<Rightarrow> string list \<Rightarrow> bool" where
  "reasoning_at v ks \<longleftrightarrow> key_at v ks \<and> is_reasoning_key (last ks)"

lemma key_at_nonempty: "key_at v ks \<Longrightarrow> ks \<noteq> []"
  by (induction rule: key_at.induct) auto

lemma reasoning_at_Cons:
  "reasoning_at (JObj ((k, c) # m)) ks \<longleftrightarrow>
     (ks = [k] \<and> is_reasoning_key k) \<or> (\<exists>ks'. ks = k # ks' \<and> reasoning_at c ks')
     \<or> reasoning_at (JObj m) ks"
  unfolding reasoning_at_def
  by (fastforce elim: key_at_ObjE intro: key_at.intros dest: key_at_nonempty)

lemma reject_reasoning_sound:
  "reject_reasoning_fields path v = Inl e \<Longrightarrow>
     \<exists>ks. reasoning_at v ks \<and> e = ReasoningField (dotted path ks)"
  "reject_reasoning_entries path m = Inl e \<Longrightarrow>
     \<exists>ks. reasoning_at (JObj m) ks \<and> e = ReasoningField (dotted path ks)"
proof (induction path v and path m arbitrary: e and e
    rule: reject_reasoning_fields_reject_reasoning_entries.induct)
  case (4 path key child m)
  show ?case
  proof (cases "is_reasoning_key key")
    case True
    with "4.prems" have "e = ReasoningField (dotted path [key])" by (simp add: dotted_def)
    with True show ?thesis by (auto simp: reasoning_at_Cons)
  next
    case False
    note ih = "4.IH" [OF False]
    show ?thesis
    proof (cases "reject_reasoning_fields (path @ ''.'' @ key) child")
      case (Inl d)
      with ih(1) [OF Inl] obtain ks
        where "reasoning_at child ks" "d = ReasoningField (dotted (path @ ''.'' @ key) ks)" by blast
      moreover have "dotted (path @ ''.'' @ key) ks = dotted path (key # ks)"
        by (simp add: dotted_def)
      ultimately show ?thesis using "4.prems" Inl False by (auto simp: reasoning_at_Cons)
    next
      case (Inr u)
      with "4.prems" False have "reject_reasoning_entries path m = Inl e" by simp
      with ih(2) [OF Inr] show ?thesis by (auto simp: reasoning_at_Cons)
    qed
  qed
qed auto

lemma reject_reasoning_complete:
  "reject_reasoning_fields path v = Inr () \<Longrightarrow> \<not> reasoning_at v ks"
  "reject_reasoning_entries path m = Inr () \<Longrightarrow> \<not> reasoning_at (JObj m) ks"
proof (induction path v and path m arbitrary: ks and ks
    rule: reject_reasoning_fields_reject_reasoning_entries.induct)
  case (4 path key child m)
  then show ?case
    by (auto simp: reasoning_at_Cons split: if_splits sum.splits)
qed (auto simp: reasoning_at_def key_at_simps)

lemma reject_reasoning_ok:
  "reject_reasoning_fields path v = Inr () \<longleftrightarrow> (\<forall>ks. \<not> reasoning_at v ks)"
proof (cases "reject_reasoning_fields path v")
  case (Inl e)
  with reject_reasoning_sound(1) [OF Inl] show ?thesis by auto
next
  case (Inr u)
  with reject_reasoning_complete(1) [of path v] show ?thesis by auto
qed

text \<open>Emptying every array leaves the filter's verdict unchanged.\<close>

fun empty_arrays :: "json \<Rightarrow> json" where
  "empty_arrays (JArr vs) = JArr []"
| "empty_arrays (JObj m) = JObj (map (\<lambda>(k, v). (k, empty_arrays v)) m)"
| "empty_arrays v = v"

lemma reject_reasoning_empty_arrays:
  "reject_reasoning_fields path (empty_arrays v) = reject_reasoning_fields path v"
  "reject_reasoning_entries path (map (\<lambda>(k, v). (k, empty_arrays v)) m)
     = reject_reasoning_entries path m"
  by (induction path v and path m
      rule: reject_reasoning_fields_reject_reasoning_entries.induct) (auto split: sum.splits)

lemma flat_object_ok:
  assumes "\<And>k v. (k, v) \<in> set m \<Longrightarrow> \<not> is_reasoning_key k \<and> \<not> is_object v"
  shows "reject_reasoning_fields path (JObj m) = Inr ()"
proof -
  have "reject_reasoning_entries path m = Inr ()"
    using assms
  proof (induction m)
    case (Cons kv m)
    obtain k v where kv: "kv = (k, v)" by force
    with Cons.prems [of k v] have "\<not> is_reasoning_key k" "\<not> is_object v" by auto
    moreover from this(2) have "reject_reasoning_fields (path @ ''.'' @ k) v = Inr ()"
      by (cases v) (auto simp: is_object_def)
    moreover have "reject_reasoning_entries path m = Inr ()"
      using Cons by auto
    ultimately show ?case by (simp add: kv)
  qed simp
  then show ?thesis by simp
qed

lemma kernel_not_blank: "starts_with s ''kernel.'' \<Longrightarrow> \<not> blank s"
proof -
  assume "starts_with s ''kernel.''"
  then obtain t where "s = ''kernel.'' @ t" by (auto simp: starts_with_iff)
  then have "CHR ''k'' \<in> set s" by simp
  then show ?thesis by (rule visible_not_blank [rotated]) (simp add: visible_def)
qed

lemma wire_event_reasoning:
  "(\<exists>f. wire_event_validate e = Inl (ReasoningField f)) \<longleftrightarrow>
     starts_with (ev_type e) ''kernel.'' \<and> \<not> blank (ev_observer e) \<and> (\<exists>ks. reasoning_at (ev_facts e) ks)"
proof -
  have "(\<exists>f. reject_reasoning_fields ''$'' (ev_facts e) = Inl (ReasoningField f)) \<longleftrightarrow>
      (\<exists>ks. reasoning_at (ev_facts e) ks)"
  proof (cases "reject_reasoning_fields ''$'' (ev_facts e)")
    case (Inl d)
    with reject_reasoning_sound(1) [OF Inl] show ?thesis by auto
  next
    case (Inr u)
    with reject_reasoning_complete(1) [of "''$''" "ev_facts e"] show ?thesis by auto
  qed
  then show ?thesis
    using kernel_not_blank [of "ev_type e"]
    by (auto simp: wire_event_validate_def first_err.simps guard_err_def required_def blank_def
        split: sum.splits)
qed

lemma event_batch_reasoning:
  "(\<exists>f. event_batch_request_validate b n = Inl (ReasoningField f)) \<longleftrightarrow>
     batch_wire_version b = WIRE_VERSION \<and> \<not> blank (batch_agent_id b) \<and> \<not> blank (batch_node_name b)
     \<and> length (batch_events b) \<le> n
     \<and> (\<exists>pre e post. batch_events b = pre @ e # post
          \<and> (\<forall>x\<in>set pre. wire_event_validate x = Inr ())
          \<and> (\<exists>f. wire_event_validate e = Inl (ReasoningField f)))"
proof -
  define env where "env = [validate_wire_version (batch_wire_version b),
       required ''agent_id'' (batch_agent_id b), required ''node_name'' (batch_node_name b),
       guard_err (batch_events b = []) (MissingField ''events''),
       guard_err (length (batch_events b) > n) (InvalidField ''events'' ''batch exceeds max_batch_events'')]"
  have no: "first_err env \<noteq> Inl (ReasoningField f)" for f
    by (simp add: env_def first_err.simps validate_wire_version_def required_def guard_err_def)
  have ok: "first_err env = Inr () \<longleftrightarrow> batch_wire_version b = WIRE_VERSION \<and> \<not> blank (batch_agent_id b)
      \<and> \<not> blank (batch_node_name b) \<and> batch_events b \<noteq> [] \<and> length (batch_events b) \<le> n"
    by (auto simp: env_def first_err_ok)
  have "event_batch_request_validate b n = first_err (env @ map wire_event_validate (batch_events b))"
    by (simp add: event_batch_request_validate_def env_def)
  then have "event_batch_request_validate b n = Inl (ReasoningField f) \<longleftrightarrow>
      first_err env = Inr () \<and> first_err (map wire_event_validate (batch_events b)) = Inl (ReasoningField f)" for f
    using no [of f] by (auto simp: first_err_append split: sum.splits)
  then have "(\<exists>f. event_batch_request_validate b n = Inl (ReasoningField f)) \<longleftrightarrow>
      first_err env = Inr () \<and>
      (\<exists>pre e post. batch_events b = pre @ e # post \<and> (\<forall>x\<in>set pre. wire_event_validate x = Inr ())
         \<and> (\<exists>f. wire_event_validate e = Inl (ReasoningField f)))"
    unfolding first_err_map by blast
  moreover have "batch_events b \<noteq> []" if "batch_events b = pre @ e # post" for pre e post
    using that by simp
  ultimately show ?thesis unfolding ok by blast
qed

section \<open>Properties\<close>

text \<open>
  C34: an event batch passes validation for a limit exactly when it speaks the protocol
  version, names its agent and node, holds between one event and the limit, and every event
  has a \<open>kernel.\<close> type, an observer and facts in which no path through nested objects ends
  in a reasoning key.
\<close>

theorem event_batch_accepted_iff:
  "event_batch_request_validate b n = Inr () \<longleftrightarrow>
     batch_wire_version b = WIRE_VERSION \<and> \<not> blank (batch_agent_id b) \<and> \<not> blank (batch_node_name b)
     \<and> 1 \<le> length (batch_events b) \<and> length (batch_events b) \<le> n
     \<and> list_all (\<lambda>e. starts_with (ev_type e) ''kernel.'' \<and> \<not> blank (ev_observer e)
          \<and> \<not> (\<exists>ks. key_at (ev_facts e) ks \<and> is_reasoning_key (last ks))) (batch_events b)"
proof -
  have ev: "wire_event_validate e = Inr () \<longleftrightarrow>
      starts_with (ev_type e) ''kernel.'' \<and> \<not> blank (ev_observer e)
      \<and> \<not> (\<exists>ks. key_at (ev_facts e) ks \<and> is_reasoning_key (last ks))" for e
    unfolding wire_event_ok reject_reasoning_ok reasoning_at_def using kernel_not_blank [of "ev_type e"] by blast
  have ne: "batch_events b \<noteq> [] \<longleftrightarrow> 1 \<le> length (batch_events b)"
    by (cases "batch_events b") auto
  show ?thesis unfolding event_batch_request_ok ev ne list_all_iff by blast
qed

end
