(* ===== verification/Profile.thy ===== *)
theory Profile
  imports Wire
begin

text \<open>
  \<open>tapio-profile/src/lib.rs\<close>: the operator's Evidence Profile, its validation against the
  builtin base profiles and its compilation into the integer configuration the agents
  receive. Deserialisation (serde) is not modelled: a document is the record that serde
  builds, with \<open>None\<close> for an absent or null field. A number inside an error message is
  kept as the number (\<open>ShownInt\<close>, \<open>ShownF64\<close>), not as its text.
\<close>

section \<open>Documents and errors\<close>

record rtt_spike_override =
  rso_ratio :: "u32 option"
  rso_abs_ms :: "u32 option"

record network_override =
  no_enabled :: "bool option"
  no_rtt_spike :: rtt_spike_override

record slow_io_override =
  sio_warning_ms :: "u64 option"
  sio_critical_ms :: "u64 option"

record storage_override =
  so_enabled :: "bool option"
  so_slow_io :: slow_io_override

record container_override =
  co_enabled :: "bool option"
  co_ignore_exit_codes :: "i32 list option"

record stall_pct_override =
  spo_warning :: "f64 option"
  spo_critical :: "f64 option"

record node_pmc_override =
  npo_enabled :: "bool option"
  npo_stall_pct :: stall_pct_override
  npo_ipc_degradation :: "f64 option"

record profile_overrides =
  po_network :: network_override
  po_storage :: storage_override
  po_container :: container_override
  po_node_pmc :: node_pmc_override

record evidence_profile =
  ep_api_version :: "string option"
  ep_kind :: "string option"
  ep_base :: "string option"
  ep_overrides :: profile_overrides

record resolved_network =
  rn_enabled :: bool
  rn_rtt_spike_ratio :: u32
  rn_rtt_spike_abs_ms :: u32
  rn_rtt_min_baseline_samples :: u32
  rn_conn_refused_window_ns :: u64
  rn_conn_refused_min_count :: u32

record resolved_storage =
  rs_enabled :: bool
  rs_slow_io_warning_ms :: u64
  rs_slow_io_critical_ms :: u64

record resolved_container =
  rc_enabled :: bool
  rc_ignore_exit_codes :: "u8 list"

record resolved_node_pmc =
  rp_enabled :: bool
  rp_stall_pct_warning :: f64
  rp_stall_pct_critical :: f64
  rp_ipc_degradation :: f64

record resolved_profile =
  res_network :: resolved_network
  res_storage :: resolved_storage
  res_container :: resolved_container
  res_node_pmc :: resolved_node_pmc

record validated_profile =
  vp_resolved :: resolved_profile

record builtin_set =
  bs_profiles :: "(string, resolved_profile) btree"

datatype shown = ShownInt int | ShownF64 f64

datatype profile_error =
    UnsupportedApiVersion string "string option" string
  | UnsupportedKind string "string option" string
  | MissingBase string
  | InvalidProfileName string string
  | UnknownBase string string "string list"
  | OutOfRange string shown string
  | NotFinite string
  | ThresholdOrder string shown shown
  | TooManyIgnoreExitCodes string nat

section \<open>Validation\<close>

definition API_VERSION :: string where
  "API_VERSION = ''tapio.false.systems/v0''"

definition KIND :: string where
  "KIND = ''EvidenceProfile''"

definition PRODUCTION_DEFAULT :: string where
  "PRODUCTION_DEFAULT = ''production-default''"

definition MAX_RTT_ABS_MS :: u32 where "MAX_RTT_ABS_MS = 600000"
definition MAX_WARNING_MS :: u64 where "MAX_WARNING_MS = 60000"
definition MAX_CRITICAL_MS :: u64 where "MAX_CRITICAL_MS = 600000"
definition MAX_IGNORE_EXIT_CODES :: nat where "MAX_IGNORE_EXIT_CODES = 16"

definition production_default :: resolved_profile where
  "production_default =
     \<lparr>res_network = \<lparr>rn_enabled = True, rn_rtt_spike_ratio = 2, rn_rtt_spike_abs_ms = 500,
        rn_rtt_min_baseline_samples = 5, rn_conn_refused_window_ns = 0,
        rn_conn_refused_min_count = 0\<rparr>,
      res_storage = \<lparr>rs_enabled = True, rs_slow_io_warning_ms = 50, rs_slow_io_critical_ms = 200\<rparr>,
      res_container = \<lparr>rc_enabled = True, rc_ignore_exit_codes = []\<rparr>,
      res_node_pmc = \<lparr>rp_enabled = True, rp_stall_pct_warning = Fin 20,
        rp_stall_pct_critical = Fin 40, rp_ipc_degradation = Fin 1\<rparr>\<rparr>"

definition builtins_v0 :: builtin_set where
  "builtins_v0 = \<lparr>bs_profiles = bt_from [(PRODUCTION_DEFAULT, production_default)]\<rparr>"

definition validate_envelope :: "evidence_profile \<Rightarrow> profile_error + unit" where
  "validate_envelope p = first_err
     [guard_err (ep_api_version p \<noteq> Some API_VERSION)
        (UnsupportedApiVersion ''apiVersion'' (ep_api_version p) API_VERSION),
      guard_err (ep_kind p \<noteq> Some KIND) (UnsupportedKind ''kind'' (ep_kind p) KIND)]"

definition is_lower :: "char \<Rightarrow> bool" where
  "is_lower c \<longleftrightarrow> CHR ''a'' \<le> c \<and> c \<le> CHR ''z''"

definition valid_profile_name :: "string \<Rightarrow> bool" where
  "valid_profile_name value =
     (case value of
        [] \<Rightarrow> False
      | c # rest \<Rightarrow> \<not> 63 < length value \<and> is_lower c \<and> last value \<noteq> CHR ''-''
          \<and> list_all (\<lambda>b. is_lower b \<or> is_digit b \<or> b = CHR ''-'') rest)"

text \<open>
  \<open>if let Some(x) = input { check(x)?; resolved.field = x; }\<close>.
\<close>

definition override :: "'a option \<Rightarrow> ('a \<Rightarrow> 'e + unit) \<Rightarrow> ('a \<Rightarrow> 'r \<Rightarrow> 'r) \<Rightarrow> 'r \<Rightarrow> 'e + 'r" where
  "override input check upd r =
     (case input of None \<Rightarrow> Inr r | Some x \<Rightarrow> and_then (check x) (\<lambda>_. Inr (upd x r)))"

definition no_check :: "'a \<Rightarrow> 'e + unit" where
  "no_check x = Inr ()"

definition out_of_range :: "string \<Rightarrow> int \<Rightarrow> string \<Rightarrow> profile_error" where
  "out_of_range field value rng = OutOfRange field (ShownInt value) rng"

definition validate_finite_range :: "string \<Rightarrow> f64 \<Rightarrow> f64 \<Rightarrow> f64 \<Rightarrow> string \<Rightarrow> profile_error + unit" where
  "validate_finite_range field value lo hi rng = first_err
     [guard_err (\<not> is_finite value) (NotFinite field),
      guard_err (value < lo \<or> hi < value) (OutOfRange field (ShownF64 value) rng)]"

definition apply_network :: "network_override \<Rightarrow> resolved_network \<Rightarrow> profile_error + resolved_network" where
  "apply_network input r0 =
     and_then (override (no_enabled input) no_check (\<lambda>x r. r\<lparr>rn_enabled := x\<rparr>) r0) (\<lambda>r1.
     and_then (override (rso_ratio (no_rtt_spike input))
       (\<lambda>x. guard_err (\<not> (1 \<le> x \<and> x \<le> 100))
          (out_of_range ''overrides.network.rtt_spike.ratio'' (uint x) ''1..=100''))
       (\<lambda>x r. r\<lparr>rn_rtt_spike_ratio := x\<rparr>) r1) (\<lambda>r2.
     override (rso_abs_ms (no_rtt_spike input))
       (\<lambda>x. guard_err (\<not> (1 \<le> x \<and> x \<le> MAX_RTT_ABS_MS))
          (out_of_range ''overrides.network.rtt_spike.abs_ms'' (uint x) ''1..=600000''))
       (\<lambda>x r. r\<lparr>rn_rtt_spike_abs_ms := x\<rparr>) r2))"

definition apply_storage :: "storage_override \<Rightarrow> resolved_storage \<Rightarrow> profile_error + resolved_storage" where
  "apply_storage input r0 =
     and_then (override (so_enabled input) no_check (\<lambda>x r. r\<lparr>rs_enabled := x\<rparr>) r0) (\<lambda>r1.
     and_then (override (sio_warning_ms (so_slow_io input))
       (\<lambda>x. guard_err (\<not> (1 \<le> x \<and> x \<le> MAX_WARNING_MS))
          (out_of_range ''overrides.storage.slow_io.warning_ms'' (uint x) ''1..=60000''))
       (\<lambda>x r. r\<lparr>rs_slow_io_warning_ms := x\<rparr>) r1) (\<lambda>r2.
     and_then (override (sio_critical_ms (so_slow_io input))
       (\<lambda>x. guard_err (\<not> (1 \<le> x \<and> x \<le> MAX_CRITICAL_MS))
          (out_of_range ''overrides.storage.slow_io.critical_ms'' (uint x) ''1..=600000''))
       (\<lambda>x r. r\<lparr>rs_slow_io_critical_ms := x\<rparr>) r2) (\<lambda>r3.
     and_then (guard_err (rs_slow_io_critical_ms r3 < rs_slow_io_warning_ms r3)
       (ThresholdOrder ''overrides.storage.slow_io'' (ShownInt (uint (rs_slow_io_warning_ms r3)))
          (ShownInt (uint (rs_slow_io_critical_ms r3))))) (\<lambda>_. Inr r3))))"

text \<open>
  The loop of \<open>apply_container\<close>: \<open>seen\<close> is the 256-entry table, \<open>checked\<close> the output so far.
\<close>

fun check_exit_codes :: "i32 list \<Rightarrow> bool list \<Rightarrow> u8 list \<Rightarrow> profile_error + u8 list" where
  "check_exit_codes [] seen checked = Inr checked"
| "check_exit_codes (code # codes) seen checked =
     (if \<not> (0 \<le> sint code \<and> sint code \<le> 255)
      then Inl (out_of_range ''overrides.container.ignore_exit_codes'' (sint code) ''0..=255'')
      else let c = ucast code :: u8
           in if \<not> seen ! unat c
              then check_exit_codes codes (seen[unat c := True]) (checked @ [c])
              else check_exit_codes codes seen checked)"

definition apply_container ::
  "container_override \<Rightarrow> resolved_container \<Rightarrow> profile_error + resolved_container" where
  "apply_container input r0 =
     and_then (override (co_enabled input) no_check (\<lambda>x r. r\<lparr>rc_enabled := x\<rparr>) r0) (\<lambda>r1.
     case co_ignore_exit_codes input of
       None \<Rightarrow> Inr r1
     | Some codes \<Rightarrow>
         if MAX_IGNORE_EXIT_CODES < length codes
         then Inl (TooManyIgnoreExitCodes ''overrides.container.ignore_exit_codes'' (length codes))
         else and_then (check_exit_codes codes (replicate 256 False) [])
                (\<lambda>checked. Inr (r1\<lparr>rc_ignore_exit_codes := checked\<rparr>)))"

definition apply_node_pmc ::
  "node_pmc_override \<Rightarrow> resolved_node_pmc \<Rightarrow> profile_error + resolved_node_pmc" where
  "apply_node_pmc input r0 =
     and_then (override (npo_enabled input) no_check (\<lambda>x r. r\<lparr>rp_enabled := x\<rparr>) r0) (\<lambda>r1.
     and_then (override (spo_warning (npo_stall_pct input))
       (\<lambda>x. validate_finite_range ''overrides.node_pmc.stall_pct.warning'' x (Fin 0) (Fin 100)
          ''0.0..=100.0'')
       (\<lambda>x r. r\<lparr>rp_stall_pct_warning := x\<rparr>) r1) (\<lambda>r2.
     and_then (override (spo_critical (npo_stall_pct input))
       (\<lambda>x. validate_finite_range ''overrides.node_pmc.stall_pct.critical'' x (Fin 0) (Fin 100)
          ''0.0..=100.0'')
       (\<lambda>x r. r\<lparr>rp_stall_pct_critical := x\<rparr>) r2) (\<lambda>r3.
     and_then (guard_err (rp_stall_pct_critical r3 < rp_stall_pct_warning r3)
       (ThresholdOrder ''overrides.node_pmc.stall_pct'' (ShownF64 (rp_stall_pct_warning r3))
          (ShownF64 (rp_stall_pct_critical r3)))) (\<lambda>_.
     override (npo_ipc_degradation input)
       (\<lambda>x. validate_finite_range ''overrides.node_pmc.ipc_degradation'' x (Fin 0) (Fin 16)
          ''0.0..=16.0'')
       (\<lambda>x r. r\<lparr>rp_ipc_degradation := x\<rparr>) r3))))"

definition profile_validate ::
  "evidence_profile \<Rightarrow> builtin_set \<Rightarrow> profile_error + validated_profile" where
  "profile_validate profile builtins =
     and_then (validate_envelope profile) (\<lambda>_.
     case ep_base profile of
       None \<Rightarrow> Inl (MissingBase ''base'')
     | Some base_name \<Rightarrow>
         if \<not> valid_profile_name base_name then Inl (InvalidProfileName ''base'' base_name)
         else (case bt_get (bs_profiles builtins) base_name of
           None \<Rightarrow> Inl (UnknownBase ''base'' base_name (bt_keys (bs_profiles builtins)))
         | Some base \<Rightarrow>
             and_then (apply_network (po_network (ep_overrides profile)) (res_network base)) (\<lambda>n.
             and_then (apply_storage (po_storage (ep_overrides profile)) (res_storage base)) (\<lambda>s.
             and_then (apply_container (po_container (ep_overrides profile)) (res_container base)) (\<lambda>c.
             and_then (apply_node_pmc (po_node_pmc (ep_overrides profile)) (res_node_pmc base)) (\<lambda>p.
             Inr \<lparr>vp_resolved = \<lparr>res_network = n, res_storage = s, res_container = c,
                    res_node_pmc = p\<rparr>\<rparr>))))))"

section \<open>Compilation\<close>

definition compile :: "validated_profile \<Rightarrow> compiled_config" where
  "compile profile =
     (let r = vp_resolved profile; n = res_network r; s = res_storage r;
          c = res_container r; p = res_node_pmc r
      in \<lparr>comp_network =
            \<lparr>cn_enabled = rn_enabled n, cn_rtt_spike_ratio = rn_rtt_spike_ratio n,
             cn_rtt_spike_abs_us = rn_rtt_spike_abs_ms n * 1000,
             cn_rtt_min_baseline_samples = rn_rtt_min_baseline_samples n,
             cn_conn_refused_window_ns = rn_conn_refused_window_ns n,
             cn_conn_refused_min_count = rn_conn_refused_min_count n\<rparr>,
          comp_storage =
            \<lparr>cs_enabled = rs_enabled s,
             cs_slow_io_warning_ns = rs_slow_io_warning_ms s * 1000000,
             cs_slow_io_critical_ns = rs_slow_io_critical_ms s * 1000000\<rparr>,
          comp_container =
            \<lparr>cc_enabled = rc_enabled c, cc_ignore_exit_codes = map ucast (rc_ignore_exit_codes c)\<rparr>,
          comp_node_pmc =
            \<lparr>cp_enabled = rp_enabled p,
             cp_stall_warning_permille = round_as_u32 (fmul (rp_stall_pct_warning p) (Fin 10)),
             cp_stall_critical_permille = round_as_u32 (fmul (rp_stall_pct_critical p) (Fin 10)),
             cp_ipc_degradation_milli = round_as_u32 (fmul (rp_ipc_degradation p) (Fin 1000))\<rparr>\<rparr>)"

section \<open>What each step accepts, and its result\<close>

lemma no_check_simp [simp]: "no_check x = Inr ()"
  by (simp add: no_check_def)

lemma override_ok:
  "override i chk upd r = Inr r' \<longleftrightarrow>
     pred_option (\<lambda>x. chk x = Inr ()) i \<and> r' = (case i of None \<Rightarrow> r | Some x \<Rightarrow> upd x r)"
  by (cases i) (auto simp: override_def and_then_Inr)

lemma finite_range_ok:
  "validate_finite_range f x (Fin lo) (Fin hi) rng = Inr () \<longleftrightarrow> (\<exists>q. x = Fin q \<and> lo \<le> q \<and> q \<le> hi)"
  by (cases x) (auto simp: validate_finite_range_def first_err_ok)

text \<open>Each block in isolation: the overrides in range, and the merged block.\<close>

definition network_in_range :: "network_override \<Rightarrow> bool" where
  "network_in_range i \<longleftrightarrow>
     pred_option (\<lambda>x. 1 \<le> x \<and> x \<le> 100) (rso_ratio (no_rtt_spike i))
     \<and> pred_option (\<lambda>x. 1 \<le> x \<and> x \<le> 600000) (rso_abs_ms (no_rtt_spike i))"

definition merge_network :: "network_override \<Rightarrow> resolved_network \<Rightarrow> resolved_network" where
  "merge_network i r = r
     \<lparr>rn_enabled := unwrap_or (no_enabled i) (rn_enabled r),
      rn_rtt_spike_ratio := unwrap_or (rso_ratio (no_rtt_spike i)) (rn_rtt_spike_ratio r),
      rn_rtt_spike_abs_ms := unwrap_or (rso_abs_ms (no_rtt_spike i)) (rn_rtt_spike_abs_ms r)\<rparr>"

lemma apply_network_ok:
  "apply_network i r = Inr r' \<longleftrightarrow> network_in_range i \<and> r' = merge_network i r"
  by (cases "no_enabled i"; cases "rso_ratio (no_rtt_spike i)"; cases "rso_abs_ms (no_rtt_spike i)")
    (auto simp: apply_network_def override_ok and_then_Inr network_in_range_def merge_network_def
      MAX_RTT_ABS_MS_def)

definition storage_in_range :: "storage_override \<Rightarrow> bool" where
  "storage_in_range i \<longleftrightarrow>
     pred_option (\<lambda>x. 1 \<le> x \<and> x \<le> 60000) (sio_warning_ms (so_slow_io i))
     \<and> pred_option (\<lambda>x. 1 \<le> x \<and> x \<le> 600000) (sio_critical_ms (so_slow_io i))"

definition merge_storage :: "storage_override \<Rightarrow> resolved_storage \<Rightarrow> resolved_storage" where
  "merge_storage i r = r
     \<lparr>rs_enabled := unwrap_or (so_enabled i) (rs_enabled r),
      rs_slow_io_warning_ms := unwrap_or (sio_warning_ms (so_slow_io i)) (rs_slow_io_warning_ms r),
      rs_slow_io_critical_ms := unwrap_or (sio_critical_ms (so_slow_io i)) (rs_slow_io_critical_ms r)\<rparr>"

lemma apply_storage_ok:
  "apply_storage i r = Inr r' \<longleftrightarrow>
     storage_in_range i \<and> r' = merge_storage i r
     \<and> rs_slow_io_warning_ms r' \<le> rs_slow_io_critical_ms r'"
  by (cases "so_enabled i"; cases "sio_warning_ms (so_slow_io i)"; cases "sio_critical_ms (so_slow_io i)")
    (auto simp: apply_storage_def override_ok and_then_Inr storage_in_range_def merge_storage_def
      MAX_WARNING_MS_def MAX_CRITICAL_MS_def not_less)

definition node_pmc_in_range :: "node_pmc_override \<Rightarrow> bool" where
  "node_pmc_in_range i \<longleftrightarrow>
     pred_option (\<lambda>x. \<exists>q. x = Fin q \<and> 0 \<le> q \<and> q \<le> 100) (spo_warning (npo_stall_pct i))
     \<and> pred_option (\<lambda>x. \<exists>q. x = Fin q \<and> 0 \<le> q \<and> q \<le> 100) (spo_critical (npo_stall_pct i))
     \<and> pred_option (\<lambda>x. \<exists>q. x = Fin q \<and> 0 \<le> q \<and> q \<le> 16) (npo_ipc_degradation i)"

definition merge_node_pmc :: "node_pmc_override \<Rightarrow> resolved_node_pmc \<Rightarrow> resolved_node_pmc" where
  "merge_node_pmc i r = r
     \<lparr>rp_enabled := unwrap_or (npo_enabled i) (rp_enabled r),
      rp_stall_pct_warning := unwrap_or (spo_warning (npo_stall_pct i)) (rp_stall_pct_warning r),
      rp_stall_pct_critical := unwrap_or (spo_critical (npo_stall_pct i)) (rp_stall_pct_critical r),
      rp_ipc_degradation := unwrap_or (npo_ipc_degradation i) (rp_ipc_degradation r)\<rparr>"

lemma apply_node_pmc_ok:
  "apply_node_pmc i r = Inr r' \<longleftrightarrow>
     node_pmc_in_range i \<and> r' = merge_node_pmc i r
     \<and> \<not> rp_stall_pct_critical r' < rp_stall_pct_warning r'"
  by (cases "npo_enabled i"; cases "spo_warning (npo_stall_pct i)";
      cases "spo_critical (npo_stall_pct i)"; cases "npo_ipc_degradation i")
    (auto simp: apply_node_pmc_def override_ok and_then_Inr node_pmc_in_range_def
      merge_node_pmc_def finite_range_ok)

subsection \<open>Exit codes\<close>

text \<open>The reference: keep the first occurrence of each code.\<close>

definition keep_first :: "'a list \<Rightarrow> 'a list" where
  "keep_first xs = rev (remdups (rev xs))"

lemma keep_first_snoc:
  "keep_first (xs @ [x]) = (if x \<in> set xs then keep_first xs else keep_first xs @ [x])"
  by (simp add: keep_first_def)

lemma keep_first_props [simp]:
  "set (keep_first xs) = set xs" "distinct (keep_first xs)"
  by (simp_all add: keep_first_def)

lemma keep_first_length: "length (keep_first xs) \<le> length xs"
  using length_remdups_leq [of "rev xs"] by (simp add: keep_first_def)

lemma check_exit_codes_gen:
  assumes "length seen = 256" "\<And>c. seen ! unat c \<longleftrightarrow> c \<in> set pre"
  shows "check_exit_codes codes seen (keep_first pre) = Inr out \<longleftrightarrow>
     list_all (\<lambda>c. 0 \<le> sint c \<and> sint c \<le> 255) codes \<and> out = keep_first (pre @ map ucast codes)"
  using assms
proof (induction codes arbitrary: seen pre)
  case Nil
  then show ?case by auto
next
  case (Cons code codes)
  define c where "c = (ucast code :: u8)"
  have lt: "unat d < length seen" for d :: u8
    using unsigned_less [of d, where 'a = nat] Cons.prems(1) by simp
  show ?case
  proof (cases "0 \<le> sint code \<and> sint code \<le> 255")
    case ok: True
    show ?thesis
    proof (cases "c \<in> set pre")
      case True
      have inv: "seen ! unat d \<longleftrightarrow> d \<in> set (pre @ [c])" for d
        using True Cons.prems(2) by auto
      have "keep_first (pre @ [c]) = keep_first pre" using True by (simp add: keep_first_snoc)
      with Cons.IH [OF Cons.prems(1) inv] ok True show ?thesis
        by (simp add: Cons.prems(2) c_def Let_def)
    next
      case False
      have inv: "seen[unat c := True] ! unat d \<longleftrightarrow> d \<in> set (pre @ [c])" for d
        using Cons.prems(2) lt by (auto simp: nth_list_update word_unat_eq_iff)
      have "keep_first (pre @ [c]) = keep_first pre @ [c]" using False by (simp add: keep_first_snoc)
      with Cons.IH [of "seen[unat c := True]" "pre @ [c]"] inv ok False Cons.prems show ?thesis
        by (simp add: c_def Let_def)
    qed
  next
    case False
    then show ?thesis by auto
  qed
qed

lemma check_exit_codes_ok:
  "check_exit_codes codes (replicate 256 False) [] = Inr out \<longleftrightarrow>
     list_all (\<lambda>c. 0 \<le> sint c \<and> sint c \<le> 255) codes \<and> out = keep_first (map ucast codes)"
proof -
  have "replicate 256 False ! unat (c :: u8) \<longleftrightarrow> c \<in> set []" for c
    using unsigned_less [of c, where 'a = nat] by simp
  with check_exit_codes_gen [of "replicate 256 False" "[]" codes out] show ?thesis
    by (simp add: keep_first_def)
qed

definition container_in_range :: "container_override \<Rightarrow> bool" where
  "container_in_range i \<longleftrightarrow>
     pred_option (\<lambda>codes. length codes \<le> 16 \<and> list_all (\<lambda>c. 0 \<le> sint c \<and> sint c \<le> 255) codes)
       (co_ignore_exit_codes i)"

definition merge_container :: "container_override \<Rightarrow> resolved_container \<Rightarrow> resolved_container" where
  "merge_container i r = r
     \<lparr>rc_enabled := unwrap_or (co_enabled i) (rc_enabled r),
      rc_ignore_exit_codes := (case co_ignore_exit_codes i of
          None \<Rightarrow> rc_ignore_exit_codes r | Some codes \<Rightarrow> keep_first (map ucast codes))\<rparr>"

lemma apply_container_ok:
  "apply_container i r = Inr r' \<longleftrightarrow> container_in_range i \<and> r' = merge_container i r"
  by (cases "co_enabled i"; cases "co_ignore_exit_codes i")
    (auto simp: apply_container_def override_ok and_then_Inr container_in_range_def
      merge_container_def MAX_IGNORE_EXIT_CODES_def check_exit_codes_ok not_less)

section \<open>The whole validation\<close>

definition merge_profile :: "profile_overrides \<Rightarrow> resolved_profile \<Rightarrow> resolved_profile" where
  "merge_profile ov r =
     \<lparr>res_network = merge_network (po_network ov) (res_network r),
      res_storage = merge_storage (po_storage ov) (res_storage r),
      res_container = merge_container (po_container ov) (res_container r),
      res_node_pmc = merge_node_pmc (po_node_pmc ov) (res_node_pmc r)\<rparr>"

definition thresholds_ordered :: "resolved_profile \<Rightarrow> bool" where
  "thresholds_ordered r \<longleftrightarrow>
     rs_slow_io_warning_ms (res_storage r) \<le> rs_slow_io_critical_ms (res_storage r)
     \<and> \<not> rp_stall_pct_critical (res_node_pmc r) < rp_stall_pct_warning (res_node_pmc r)"

definition overrides_in_range :: "profile_overrides \<Rightarrow> bool" where
  "overrides_in_range ov \<longleftrightarrow>
     network_in_range (po_network ov) \<and> storage_in_range (po_storage ov)
     \<and> container_in_range (po_container ov) \<and> node_pmc_in_range (po_node_pmc ov)"

lemma builtins_v0_get:
  "bt_get (bs_profiles builtins_v0) name = (if name = PRODUCTION_DEFAULT then Some production_default else None)"
  by (auto simp: builtins_v0_def bt_from_def)

lemma valid_default_name: "valid_profile_name PRODUCTION_DEFAULT"
  by code_simp

lemma envelope_ok:
  "validate_envelope p = Inr () \<longleftrightarrow> ep_api_version p = Some API_VERSION \<and> ep_kind p = Some KIND"
  by (auto simp: validate_envelope_def first_err_ok)

text \<open>What a validated profile satisfies.\<close>

definition profile_ok :: "resolved_profile \<Rightarrow> bool" where
  "profile_ok r \<longleftrightarrow>
     1 \<le> rn_rtt_spike_ratio (res_network r) \<and> rn_rtt_spike_ratio (res_network r) \<le> 100
     \<and> 1 \<le> rn_rtt_spike_abs_ms (res_network r) \<and> rn_rtt_spike_abs_ms (res_network r) \<le> 600000
     \<and> 1 \<le> rs_slow_io_warning_ms (res_storage r) \<and> rs_slow_io_warning_ms (res_storage r) \<le> 60000
     \<and> rs_slow_io_critical_ms (res_storage r) \<le> 600000
     \<and> distinct (rc_ignore_exit_codes (res_container r))
     \<and> length (rc_ignore_exit_codes (res_container r)) \<le> 16
     \<and> (\<exists>w c i. rp_stall_pct_warning (res_node_pmc r) = Fin w
          \<and> rp_stall_pct_critical (res_node_pmc r) = Fin c \<and> rp_ipc_degradation (res_node_pmc r) = Fin i
          \<and> 0 \<le> w \<and> w \<le> c \<and> c \<le> 100 \<and> 0 \<le> i \<and> i \<le> 16)
     \<and> thresholds_ordered r"

lemma production_default_ok: "profile_ok production_default"
  by (simp add: profile_ok_def production_default_def thresholds_ordered_def word_le_nat_alt)

lemma merge_profile_ok:
  assumes "overrides_in_range ov" "thresholds_ordered (merge_profile ov r)" "profile_ok r"
  shows "profile_ok (merge_profile ov r)"
proof -
  have len: "length (keep_first (map ucast codes :: u8 list)) \<le> 16" if "length codes \<le> 16" for codes :: "i32 list"
    using keep_first_length [of "map ucast codes :: u8 list"] that by simp
  have net: "1 \<le> rn_rtt_spike_ratio n \<and> rn_rtt_spike_ratio n \<le> 100 \<and> 1 \<le> rn_rtt_spike_abs_ms n
      \<and> rn_rtt_spike_abs_ms n \<le> 600000" if "n = res_network (merge_profile ov r)" for n
    using assms(1,3) that
    by (cases "rso_ratio (no_rtt_spike (po_network ov))"; cases "rso_abs_ms (no_rtt_spike (po_network ov))")
      (auto simp: merge_profile_def merge_network_def overrides_in_range_def network_in_range_def profile_ok_def)
  have sto: "1 \<le> rs_slow_io_warning_ms n \<and> rs_slow_io_warning_ms n \<le> 60000 \<and> rs_slow_io_critical_ms n \<le> 600000"
    if "n = res_storage (merge_profile ov r)" for n
    using assms(1,3) that
    by (cases "sio_warning_ms (so_slow_io (po_storage ov))"; cases "sio_critical_ms (so_slow_io (po_storage ov))")
      (auto simp: merge_profile_def merge_storage_def overrides_in_range_def storage_in_range_def profile_ok_def)
  have con: "distinct (rc_ignore_exit_codes n) \<and> length (rc_ignore_exit_codes n) \<le> 16"
    if "n = res_container (merge_profile ov r)" for n
    using assms(1,3) that len
    by (cases "co_ignore_exit_codes (po_container ov)")
      (auto simp: merge_profile_def merge_container_def overrides_in_range_def container_in_range_def profile_ok_def)
  have "\<exists>w c i. rp_stall_pct_warning n = Fin w \<and> rp_stall_pct_critical n = Fin c \<and> rp_ipc_degradation n = Fin i
      \<and> 0 \<le> w \<and> w \<le> 100 \<and> 0 \<le> c \<and> c \<le> 100 \<and> 0 \<le> i \<and> i \<le> 16"
    if "n = res_node_pmc (merge_profile ov r)" for n
    using assms(1,3) that
    by (cases "spo_warning (npo_stall_pct (po_node_pmc ov))"; cases "spo_critical (npo_stall_pct (po_node_pmc ov))";
        cases "npo_ipc_degradation (po_node_pmc ov)")
      (auto simp: merge_profile_def merge_node_pmc_def overrides_in_range_def node_pmc_in_range_def profile_ok_def)
  with assms(2) have pmc: "\<exists>w c i. rp_stall_pct_warning n = Fin w \<and> rp_stall_pct_critical n = Fin c
      \<and> rp_ipc_degradation n = Fin i \<and> 0 \<le> w \<and> w \<le> c \<and> c \<le> 100 \<and> 0 \<le> i \<and> i \<le> 16"
    if "n = res_node_pmc (merge_profile ov r)" for n
    using that by (fastforce simp: thresholds_ordered_def)
  show ?thesis
    using net [OF refl] sto [OF refl] con [OF refl] pmc [OF refl] assms(2)
    unfolding profile_ok_def by blast
qed

lemma validate_ok_iff:
  "profile_validate p builtins_v0 = Inr v \<longleftrightarrow>
     ep_api_version p = Some API_VERSION \<and> ep_kind p = Some KIND \<and> ep_base p = Some PRODUCTION_DEFAULT
     \<and> overrides_in_range (ep_overrides p)
     \<and> thresholds_ordered (merge_profile (ep_overrides p) production_default)
     \<and> v = \<lparr>vp_resolved = merge_profile (ep_overrides p) production_default\<rparr>"
proof (cases "ep_base p = Some PRODUCTION_DEFAULT")
  case True
  then show ?thesis
    by (auto simp: profile_validate_def and_then_Inr envelope_ok valid_default_name builtins_v0_get
        apply_network_ok apply_storage_ok apply_container_ok apply_node_pmc_ok
        overrides_in_range_def merge_profile_def thresholds_ordered_def)
next
  case False
  then show ?thesis
    by (auto simp: profile_validate_def and_then_Inr builtins_v0_get split: option.splits if_splits)
qed

lemma validated_ok: "profile_validate p builtins_v0 = Inr v \<Longrightarrow> profile_ok (vp_resolved v)"
  using merge_profile_ok [OF _ _ production_default_ok] by (auto simp: validate_ok_iff)

section \<open>Compilation is exact\<close>

lemma u32_mult_1000: "(x :: u32) \<le> 600000 \<Longrightarrow> unat (x * 1000) = 1000 * unat x"
  by (subst unat_mult_lem [THEN iffD1]) (auto simp: word_le_nat_alt)

lemma u64_mult_million: "(x :: u64) \<le> 600000 \<Longrightarrow> unat (x * 1000000) = 1000000 * unat x"
  by (subst unat_mult_lem [THEN iffD1]) (auto simp: word_le_nat_alt)

text \<open>
  \<open>quantised k x n\<close>: the integer \<open>n\<close> is \<open>k * x\<close> up to rounding, half a unit and the error of
  one \<open>f64\<close> multiplication.
\<close>

definition quantised :: "nat \<Rightarrow> f64 \<Rightarrow> u32 \<Rightarrow> bool" where
  "quantised k x n \<longleftrightarrow>
     (\<exists>q. x = Fin q \<and> \<bar>of_nat (unat n) - of_nat k * q\<bar> \<le> 1 / 2 + 1 / 2 ^ 40)"

lemma scaled_round:
  assumes "0 \<le> q" "q * of_nat k \<le> of_nat b" "b < 2 ^ 14"
  shows "unat (round_as_u32 (fmul (Fin q) (Fin (of_nat k)))) = nat (round_away (rn (q * of_nat k)))"
    and "nat (round_away (rn (q * of_nat k))) \<le> b"
    and "quantised k (Fin q) (round_as_u32 (fmul (Fin q) (Fin (of_nat k))))"
proof -
  define y where "y = q * of_nat k"
  have y: "0 \<le> y" "y \<le> of_nat b" using assms by (simp_all add: y_def)
  have b: "b < 2 ^ 53" "b < 2 ^ 32" using assms(3) by simp_all
  note bd = fl_bounded [OF y b(1)]
  note rd = round_as_u32_bounded [OF bd(2,3) b(2)]
  show 1: "unat (round_as_u32 (fmul (Fin q) (Fin (of_nat k)))) = nat (round_away (rn (q * of_nat k)))"
    using rd(1) bd(1) by (simp add: y_def)
  show "nat (round_away (rn (q * of_nat k))) \<le> b" using rd(2) by (simp add: y_def)
  have "of_nat b < (2::rat) ^ 14" using assms(3) of_nat_less_iff [of b "2 ^ 14", where 'a = rat] by simp
  then have "y < 2 powi (13 + 1)" using y(2) by simp
  from rn_error [OF y(1) this] have "\<bar>rn y - y\<bar> \<le> 2 powi (13 - 53)" by simp
  also have "2 powi (13 - 53) = (1 / 2 ^ 40 :: rat)" by (simp add: power_int_def power_one_over)
  finally have e1: "\<bar>rn y - y\<bar> \<le> 1 / 2 ^ 40" .
  have e2: "\<bar>of_int (round_away (rn y)) - rn y\<bar> \<le> 1 / 2" by (rule round_away_error)
  have "(of_nat (nat (round_away (rn y))) :: rat) = of_int (round_away (rn y))"
    using round_away_nonneg [OF bd(2)] by simp
  with e1 e2 have "\<bar>of_nat (nat (round_away (rn y))) - y\<bar> \<le> 1 / 2 + 1 / 2 ^ 40" by linarith
  then have "\<bar>of_nat (nat (round_away (rn (q * of_nat k)))) - of_nat k * q\<bar> \<le> 1 / 2 + 1 / 2 ^ 40"
    unfolding y_def by (subst mult.commute [of "of_nat k" q])
  then show "quantised k (Fin q) (round_as_u32 (fmul (Fin q) (Fin (of_nat k))))"
    unfolding quantised_def 1 by blast
qed

lemma scaled_mono:
  assumes "0 \<le> q" "q \<le> q'" "q' * of_nat k \<le> of_nat b" "b < 2 ^ 14"
  shows "round_as_u32 (fmul (Fin q) (Fin (of_nat k))) \<le> round_as_u32 (fmul (Fin q') (Fin (of_nat k)))"
proof -
  have le: "q * of_nat k \<le> q' * of_nat k" using assms(2) by (simp add: mult_right_mono)
  have "nat (round_away (rn (q * of_nat k))) \<le> nat (round_away (rn (q' * of_nat k)))"
    by (intro nat_mono round_away_mono rn_mono le)
  with scaled_round(1) [OF assms(1) _ assms(4)] scaled_round(1) [OF _ assms(3,4)] le assms
  show ?thesis by (simp add: word_le_nat_alt)
qed

text \<open>Products of small integers are computed without rounding.\<close>

lemma round_integral:
  assumes "a * k < 2 ^ 32"
  shows "round_as_u32 (fmul (Fin (of_nat a)) (Fin (of_nat k))) = of_nat (a * k)"
proof -
  have "fmul (Fin (of_nat a)) (Fin (of_nat k)) = fl (of_nat (a * k))" by simp
  also have "\<dots> = Fin (of_nat (a * k))"
    using fl_bounded(1) [of "of_nat (a * k)" "a * k"] rn_of_nat [of "a * k"] assms by simp
  finally have "unat (round_as_u32 (fmul (Fin (of_nat a)) (Fin (of_nat k)))) = a * k"
    using round_as_u32_bounded(1) [of "of_nat (a * k)" "a * k"] assms
    by (simp del: of_nat_mult round_as_u32.simps fmul.simps)
  then show ?thesis by (metis of_nat_unat ucast_id)
qed

section \<open>Properties\<close>

text \<open>
  C17: a profile is accepted against the builtin set exactly when its envelope and base are the
  supported ones, every given override is in its range and the merged thresholds are
  ordered; the result is the default profile with each given field replaced and every other
  field untouched.
\<close>

theorem profile_validate_iff:
  "profile_validate p builtins_v0 = Inr v \<longleftrightarrow>
     ep_api_version p = Some API_VERSION \<and> ep_kind p = Some KIND \<and> ep_base p = Some PRODUCTION_DEFAULT
     \<and> overrides_in_range (ep_overrides p)
     \<and> thresholds_ordered (merge_profile (ep_overrides p) production_default)
     \<and> v = \<lparr>vp_resolved = merge_profile (ep_overrides p) production_default\<rparr>"
  by (rule validate_ok_iff)

lemma compile_facts:
  assumes "profile_validate p builtins_v0 = Inr v"
  shows "let r = vp_resolved v; c = compile v in
     unat (cn_rtt_spike_abs_us (comp_network c)) = 1000 * unat (rn_rtt_spike_abs_ms (res_network r))
     \<and> unat (cs_slow_io_warning_ns (comp_storage c)) = 1000000 * unat (rs_slow_io_warning_ms (res_storage r))
     \<and> unat (cs_slow_io_critical_ns (comp_storage c)) = 1000000 * unat (rs_slow_io_critical_ms (res_storage r))
     \<and> cs_slow_io_warning_ns (comp_storage c) \<le> cs_slow_io_critical_ns (comp_storage c)
     \<and> map sint (cc_ignore_exit_codes (comp_container c)) = map uint (rc_ignore_exit_codes (res_container r))
     \<and> quantised 10 (rp_stall_pct_warning (res_node_pmc r)) (cp_stall_warning_permille (comp_node_pmc c))
     \<and> quantised 10 (rp_stall_pct_critical (res_node_pmc r)) (cp_stall_critical_permille (comp_node_pmc c))
     \<and> quantised 1000 (rp_ipc_degradation (res_node_pmc r)) (cp_ipc_degradation_milli (comp_node_pmc c))
     \<and> cp_stall_warning_permille (comp_node_pmc c) \<le> cp_stall_critical_permille (comp_node_pmc c)
     \<and> cp_stall_critical_permille (comp_node_pmc c) \<le> 1000
     \<and> cp_ipc_degradation_milli (comp_node_pmc c) \<le> 16000"
proof -
  define r where "r = vp_resolved v"
  have ok: "profile_ok r" using validated_ok [OF assms] by (simp add: r_def)
  then obtain w c i where f: "rp_stall_pct_warning (res_node_pmc r) = Fin w"
      "rp_stall_pct_critical (res_node_pmc r) = Fin c" "rp_ipc_degradation (res_node_pmc r) = Fin i"
      "0 \<le> w" "w \<le> c" "c \<le> 100" "0 \<le> i" "i \<le> 16"
    unfolding profile_ok_def by blast
  have b: "w * of_nat 10 \<le> of_nat 1000" "c * of_nat 10 \<le> of_nat 1000" "i * of_nat 1000 \<le> of_nat 16000"
    using f by simp_all
  have lt: "(1000::nat) < 2 ^ 14" "(16000::nat) < 2 ^ 14" by simp_all
  have c0: "0 \<le> c" using f by simp
  note W = scaled_round [OF f(4) b(1) lt(1)] and C = scaled_round [OF c0 b(2) lt(1)]
    and I = scaled_round [OF f(7) b(3) lt(2)]
  have mono: "round_as_u32 (fmul (Fin w) (Fin 10)) \<le> round_as_u32 (fmul (Fin c) (Fin 10))"
    using scaled_mono [OF f(4,5) b(2) lt(1)] by simp
  have C1000: "round_as_u32 (fmul (Fin c) (Fin 10)) \<le> 1000"
    using C(1,2) by (simp add: word_le_nat_alt del: fmul.simps)
  have I16000: "round_as_u32 (fmul (Fin i) (Fin 1000)) \<le> 16000"
    using I(1,2) by (simp add: word_le_nat_alt del: fmul.simps)
  have sint8: "sint (ucast (x :: u8) :: i32) = uint x" for x
  proof -
    have lt: "uint x < 256" using unsigned_less [of x, where 'a = int] by simp
    have "0 \<le> uint x" by simp
    then have ge: "- 2147483648 \<le> uint x" by linarith
    from lt have "take_bit 32 (uint x) = uint x" by (simp add: take_bit_int_eq_self)
    with lt ge show ?thesis
      by (simp add: sint_uint unsigned_ucast_eq signed_take_bit_int_eq_self_iff)
  qed
  have sto: "rs_slow_io_warning_ms (res_storage r) \<le> 600000" "rs_slow_io_critical_ms (res_storage r) \<le> 600000"
      "rs_slow_io_warning_ms (res_storage r) \<le> rs_slow_io_critical_ms (res_storage r)"
    using ok by (auto simp: profile_ok_def thresholds_ordered_def)
  have abs: "rn_rtt_spike_abs_ms (res_network r) \<le> 600000" using ok by (auto simp: profile_ok_def)
  show ?thesis
    unfolding Let_def compile_def r_def [symmetric]
    using f W(3) C(3) I(3) mono C1000 I16000 u32_mult_1000 [OF abs] u64_mult_million [OF sto(1)]
      u64_mult_million [OF sto(2)] sto(3)
    by (simp add: sint8 word_le_nat_alt del: fmul.simps)
qed

text \<open>
  C18: compiling a validated profile never overflows and never reorders thresholds: milliseconds
  become exactly 1000 microseconds and 1000000 nanoseconds, exit codes keep their value,
  the per-mille and per-thousand integers are within rounding of the operator's numbers
  and within their ranges, and warning thresholds stay at or below critical ones.
\<close>

theorem compile_exact:
  assumes "profile_validate p builtins_v0 = Inr v"
  shows "let r = vp_resolved v; c = compile v in
     unat (cn_rtt_spike_abs_us (comp_network c)) = 1000 * unat (rn_rtt_spike_abs_ms (res_network r))
     \<and> unat (cs_slow_io_warning_ns (comp_storage c)) = 1000000 * unat (rs_slow_io_warning_ms (res_storage r))
     \<and> unat (cs_slow_io_critical_ns (comp_storage c)) = 1000000 * unat (rs_slow_io_critical_ms (res_storage r))
     \<and> cs_slow_io_warning_ns (comp_storage c) \<le> cs_slow_io_critical_ns (comp_storage c)
     \<and> map sint (cc_ignore_exit_codes (comp_container c)) = map uint (rc_ignore_exit_codes (res_container r))
     \<and> quantised 10 (rp_stall_pct_warning (res_node_pmc r)) (cp_stall_warning_permille (comp_node_pmc c))
     \<and> quantised 10 (rp_stall_pct_critical (res_node_pmc r)) (cp_stall_critical_permille (comp_node_pmc c))
     \<and> quantised 1000 (rp_ipc_degradation (res_node_pmc r)) (cp_ipc_degradation_milli (comp_node_pmc c))
     \<and> cp_stall_warning_permille (comp_node_pmc c) \<le> cp_stall_critical_permille (comp_node_pmc c)
     \<and> cp_stall_critical_permille (comp_node_pmc c) \<le> 1000
     \<and> cp_ipc_degradation_milli (comp_node_pmc c) \<le> 16000"
  by (rule compile_facts [OF assms])

text \<open>The document of the crate's own example: two storage thresholds over the default.\<close>

definition no_overrides :: profile_overrides where
  "no_overrides =
     \<lparr>po_network = \<lparr>no_enabled = None, no_rtt_spike = \<lparr>rso_ratio = None, rso_abs_ms = None\<rparr>\<rparr>,
      po_storage = \<lparr>so_enabled = None, so_slow_io = \<lparr>sio_warning_ms = None, sio_critical_ms = None\<rparr>\<rparr>,
      po_container = \<lparr>co_enabled = None, co_ignore_exit_codes = None\<rparr>,
      po_node_pmc = \<lparr>npo_enabled = None, npo_stall_pct = \<lparr>spo_warning = None, spo_critical = None\<rparr>,
        npo_ipc_degradation = None\<rparr>\<rparr>"

definition profile_document :: "profile_overrides \<Rightarrow> evidence_profile" where
  "profile_document ov =
     \<lparr>ep_api_version = Some API_VERSION, ep_kind = Some KIND, ep_base = Some PRODUCTION_DEFAULT,
      ep_overrides = ov\<rparr>"

definition example_overrides :: profile_overrides where
  "example_overrides = no_overrides
     \<lparr>po_storage := \<lparr>so_enabled = None,
        so_slow_io = \<lparr>sio_warning_ms = Some 150, sio_critical_ms = Some 400\<rparr>\<rparr>\<rparr>"

definition example_validated :: validated_profile where
  "example_validated = \<lparr>vp_resolved = merge_profile example_overrides production_default\<rparr>"

lemma example_valid:
  "profile_validate (profile_document example_overrides) builtins_v0 = Inr example_validated"
  unfolding validate_ok_iff
  by (simp add: profile_document_def example_validated_def overrides_in_range_def thresholds_ordered_def
      merge_profile_def merge_network_def merge_storage_def merge_container_def merge_node_pmc_def
      network_in_range_def storage_in_range_def container_in_range_def node_pmc_in_range_def
      example_overrides_def no_overrides_def production_default_def word_le_nat_alt)

lemma compile_exact_witness:
  "unat (cs_slow_io_warning_ns (comp_storage (compile example_validated))) = 150000000
   \<and> cp_stall_critical_permille (comp_node_pmc (compile example_validated)) \<le> 1000"
  using compile_exact [OF example_valid]
  by (simp add: Let_def example_validated_def example_overrides_def no_overrides_def
      merge_profile_def merge_storage_def production_default_def del: fmul.simps)

lemma no_overrides_merge: "merge_profile no_overrides r = r"
  by (simp add: merge_profile_def merge_network_def merge_storage_def merge_container_def
      merge_node_pmc_def no_overrides_def)

lemma default_compiles: "compile \<lparr>vp_resolved = production_default\<rparr> = cfg_config config_default_v1"
  using round_integral [of 20 10] round_integral [of 40 10] round_integral [of 1 1000]
  by (simp add: compile_def production_default_def config_default_v1_def del: fmul.simps)

text \<open>
  A profile without overrides is accepted and compiles, floating-point thresholds included,
  to the configuration that the wire protocol's built-in default carries.
\<close>

theorem default_profile_is_default_config:
  "map_sum id compile (profile_validate (profile_document no_overrides) builtins_v0)
     = Inr (cfg_config config_default_v1)"
proof -
  have "thresholds_ordered production_default" using production_default_ok by (simp add: profile_ok_def)
  moreover have "overrides_in_range no_overrides"
    by (simp add: overrides_in_range_def network_in_range_def storage_in_range_def
        container_in_range_def node_pmc_in_range_def no_overrides_def)
  ultimately have "profile_validate (profile_document no_overrides) builtins_v0
      = Inr \<lparr>vp_resolved = production_default\<rparr>"
    unfolding validate_ok_iff by (simp add: profile_document_def no_overrides_merge)
  then show ?thesis by (simp add: default_compiles)
qed

end
