(* ===== verification/Controller.thy ===== *)
theory Controller
  imports Profile Numbers
begin

text \<open>
  \<open>tapio-controller/src/lib.rs\<close>: the controller's state and every operation on it
  (registration, configuration, heartbeats, event batches, the read-only queries), loading
  a profile, and the HTTP handlers over them. A point in time is an \<open>int\<close> of nanoseconds
  since the Unix epoch and an argument of the operations that read the clock. YAML, JSON
  encoding, SHA-256 and the HTTP library's header checks are parameters.
\<close>

section \<open>State\<close>

record registered_agent =
  ra_hello :: hello_request
  ra_registered_at :: int

record stored_heartbeat =
  sh_heartbeat :: heartbeat_request
  sh_seen_at :: int

record sequence_tracking =
  trk_last_seen :: "u64 option"
  trk_gaps_total :: u64
  trk_regressions_total :: u64

record controller_state =
  ctl_config :: config_response
  ctl_started_at :: int
  ctl_agents :: "(string, registered_agent) btree"
  ctl_last_heartbeats :: "(string, stored_heartbeat) btree"
  ctl_sequences :: "(string, sequence_tracking) btree"
  ctl_accepted_events_total :: u64
  ctl_rejected_events_total :: u64
  ctl_batches_accepted_total :: u64
  ctl_batches_rejected_total :: u64

definition CONTROLLER_ID :: string where
  "CONTROLLER_ID = ''tapio-controller/default''"

definition tracking_default :: sequence_tracking where
  "tracking_default = \<lparr>trk_last_seen = None, trk_gaps_total = 0, trk_regressions_total = 0\<rparr>"

definition controller_new :: "config_response \<Rightarrow> int \<Rightarrow> controller_state" where
  "controller_new config now =
     \<lparr>ctl_config = config, ctl_started_at = now, ctl_agents = [], ctl_last_heartbeats = [],
      ctl_sequences = [], ctl_accepted_events_total = 0, ctl_rejected_events_total = 0,
      ctl_batches_accepted_total = 0, ctl_batches_rejected_total = 0\<rparr>"

section \<open>Loading the configuration\<close>

datatype ('io, 'y, 'j) config_load_error =
    ReadProfile string 'io
  | ParseProfile "string option" 'y
  | ValidateProfile "string option" profile_error
  | SerializeConfig 'j

definition DEFAULT_PROFILE_YAML :: string where
  "DEFAULT_PROFILE_YAML =
     [CHR 0x0A] @ ''apiVersion: tapio.false.systems/v0'' @ [CHR 0x0A] @ ''kind: EvidenceProfile''
     @ [CHR 0x0A] @ ''base: production-default'' @ [CHR 0x0A]"

definition map_err :: "('e \<Rightarrow> 'f) \<Rightarrow> 'e + 'a \<Rightarrow> 'f + 'a" where
  "map_err f = map_sum f id"

definition compile_profile_yaml ::
  "(string \<Rightarrow> 'y + evidence_profile) \<Rightarrow> string \<Rightarrow> string option
     \<Rightarrow> ('io, 'y, 'j) config_load_error + compiled_config" where
  "compile_profile_yaml from_yaml yaml path =
     and_then (map_err (ParseProfile path) (from_yaml yaml)) (\<lambda>profile.
     and_then (map_err (ValidateProfile path) (profile_validate profile builtins_v0)) (\<lambda>validated.
     Inr (compile validated)))"

definition load_profile ::
  "(string \<Rightarrow> 'io + string) \<Rightarrow> (string \<Rightarrow> 'y + evidence_profile) \<Rightarrow> string
     \<Rightarrow> ('io, 'y, 'j) config_load_error + compiled_config" where
  "load_profile read_to_string from_yaml path =
     and_then (map_err (ReadProfile path) (read_to_string path)) (\<lambda>content.
     compile_profile_yaml from_yaml content (Some path))"

definition production_default_config ::
  "(string \<Rightarrow> 'y + evidence_profile) \<Rightarrow> ('io, 'y, 'j) config_load_error + compiled_config" where
  "production_default_config from_yaml = compile_profile_yaml from_yaml DEFAULT_PROFILE_YAML None"

text \<open>\<open>{byte:02x}\<close>.\<close>

definition hex_digit :: "nat \<Rightarrow> char" where
  "hex_digit d = (if d < 10 then digit d else char_of (87 + d))"

definition hex02 :: "u8 \<Rightarrow> string" where
  "hex02 b = [hex_digit (unat b div 16), hex_digit (unat b mod 16)]"

definition config_hash ::
  "(compiled_config \<Rightarrow> 'j + string) \<Rightarrow> (string \<Rightarrow> u8 list) \<Rightarrow> compiled_config
     \<Rightarrow> ('io, 'y, 'j) config_load_error + string" where
  "config_hash to_vec sha256 config =
     and_then (map_err SerializeConfig (to_vec config)) (\<lambda>bytes.
     Inr (''sha256:'' @ concat (map hex02 (sha256 bytes))))"

definition config_response_from_compiled ::
  "(compiled_config \<Rightarrow> 'j + string) \<Rightarrow> (string \<Rightarrow> u8 list) \<Rightarrow> compiled_config \<Rightarrow> u32
     \<Rightarrow> ('io, 'y, 'j) config_load_error + config_response" where
  "config_response_from_compiled to_vec sha256 config generation =
     and_then (config_hash to_vec sha256 config) (\<lambda>h.
     Inr \<lparr>cfg_wire_version = WIRE_VERSION, cfg_version = dec (unat generation),
          cfg_config_hash = h, cfg_config = config,
          cfg_batching = \<lparr>bat_send_interval_ms = 1000, bat_max_batch_events = 256\<rparr>\<rparr>)"

definition default_config_response ::
  "(string \<Rightarrow> 'y + evidence_profile) \<Rightarrow> (compiled_config \<Rightarrow> 'j + string) \<Rightarrow> (string \<Rightarrow> u8 list)
     \<Rightarrow> ('io, 'y, 'j) config_load_error + config_response" where
  "default_config_response from_yaml to_vec sha256 =
     and_then (production_default_config from_yaml) (\<lambda>config.
     config_response_from_compiled to_vec sha256 config 1)"

section \<open>Operations\<close>

definition register_agent ::
  "int \<Rightarrow> controller_state \<Rightarrow> hello_request \<Rightarrow> (wire_error + hello_response) \<times> controller_state" where
  "register_agent now st hello =
     (case hello_request_validate hello of
        Inl e \<Rightarrow> (Inl e, st)
      | Inr _ \<Rightarrow>
          (Inr (hello_response_from_config CONTROLLER_ID (ctl_config st)),
           st\<lparr>ctl_agents := bt_insert (hello_agent_id hello)
                \<lparr>ra_hello = hello, ra_registered_at = now\<rparr> (ctl_agents st),
              ctl_sequences := bt_insert (hello_agent_id hello) tracking_default (ctl_sequences st)\<rparr>))"

definition config_for ::
  "controller_state \<Rightarrow> string \<Rightarrow> string \<Rightarrow> wire_error + config_response" where
  "config_for st agent_id node_name =
     (if trim agent_id = [] then Inl (MissingField ''agent_id'')
      else if trim node_name = [] then Inl (MissingField ''node_name'')
      else Inr (ctl_config st))"

definition record_heartbeat ::
  "int \<Rightarrow> controller_state \<Rightarrow> heartbeat_request \<Rightarrow> (wire_error + heartbeat_response) \<times> controller_state" where
  "record_heartbeat now st hb =
     (case heartbeat_request_validate hb of
        Inl e \<Rightarrow> (Inl e, st)
      | Inr _ \<Rightarrow>
          (Inr (heartbeat_response_accepted (cfg_version (ctl_config st))),
           st\<lparr>ctl_last_heartbeats := bt_insert (hb_agent_id hb)
                \<lparr>sh_heartbeat = hb, sh_seen_at = now\<rparr> (ctl_last_heartbeats st)\<rparr>))"

definition track_sequence :: "sequence_tracking \<Rightarrow> u64 \<Rightarrow> sequence_tracking" where
  "track_sequence t sequence =
     (case trk_last_seen t of
        None \<Rightarrow> t\<lparr>trk_last_seen := Some sequence\<rparr>
      | Some last_seen \<Rightarrow>
          if sequence = sat_add last_seen 1 then t\<lparr>trk_last_seen := Some sequence\<rparr>
          else if sequence > sat_add last_seen 1 then
            t\<lparr>trk_gaps_total := sat_add (trk_gaps_total t) (sat_sub sequence (sat_add last_seen 1)),
              trk_last_seen := Some sequence\<rparr>
          else t\<lparr>trk_regressions_total := sat_add (trk_regressions_total t) 1\<rparr>)"

definition update_sequence_tracking :: "controller_state \<Rightarrow> string \<Rightarrow> u64 \<Rightarrow> controller_state" where
  "update_sequence_tracking st agent_id sequence =
     st\<lparr>ctl_sequences := bt_insert agent_id
          (track_sequence (unwrap_or (bt_get (ctl_sequences st) agent_id) tracking_default) sequence)
          (ctl_sequences st)\<rparr>"

text \<open>
  \<open>record_event_batch\<close> takes the lock twice: once to read the limit, and once, after the
  validation, to commit the outcome.
\<close>

definition batch_limit :: "controller_state \<Rightarrow> nat" where
  "batch_limit st = unat (bat_max_batch_events (cfg_batching (ctl_config st)))"

definition commit_event_batch ::
  "nat \<Rightarrow> controller_state \<Rightarrow> event_batch_request \<Rightarrow> (wire_error + event_batch_response) \<times> controller_state" where
  "commit_event_batch limit st batch =
     (let n = word_of_nat (length (batch_events batch)) in
      case event_batch_request_validate batch limit of
        Inr _ \<Rightarrow>
          (let st' = update_sequence_tracking
                 (st\<lparr>ctl_accepted_events_total := ctl_accepted_events_total st + n,
                    ctl_batches_accepted_total := ctl_batches_accepted_total st + 1\<rparr>)
                 (batch_agent_id batch) (batch_sequence batch)
           in (Inr \<lparr>bresp_wire_version = WIRE_VERSION, bresp_accepted = n, bresp_rejected = 0,
                   bresp_next_config_version = cfg_version (ctl_config st')\<rparr>, st'))
      | Inl e \<Rightarrow>
          (Inl e,
           st\<lparr>ctl_rejected_events_total := ctl_rejected_events_total st + n,
              ctl_batches_rejected_total := ctl_batches_rejected_total st + 1\<rparr>))"

definition record_event_batch ::
  "controller_state \<Rightarrow> event_batch_request \<Rightarrow> (wire_error + event_batch_response) \<times> controller_state" where
  "record_event_batch st batch = commit_event_batch (batch_limit st) st batch"

section \<open>Queries\<close>

definition agent_count :: "controller_state \<Rightarrow> nat" where
  "agent_count st = length (ctl_agents st)"

definition last_heartbeat :: "controller_state \<Rightarrow> string \<Rightarrow> stored_heartbeat option" where
  "last_heartbeat st agent_id = bt_get (ctl_last_heartbeats st) agent_id"

text \<open>\<open>now.duration_since(t).ok()\<close>: \<open>None\<close> when \<open>t\<close> is later than \<open>now\<close>.\<close>

definition duration_since :: "int \<Rightarrow> int \<Rightarrow> int option" where
  "duration_since now t = (if t \<le> now then Some (now - t) else None)"

definition stale_agents :: "int \<Rightarrow> controller_state \<Rightarrow> int \<Rightarrow> string list" where
  "stale_agents now st max_age =
     filter (\<lambda>agent_id.
         case Option.bind (bt_get (ctl_last_heartbeats st) agent_id)
                (\<lambda>h. duration_since now (sh_seen_at h)) of
           None \<Rightarrow> True
         | Some age \<Rightarrow> age > max_age)
       (bt_keys (ctl_agents st))"

definition unconverged_agents :: "controller_state \<Rightarrow> string \<Rightarrow> string list" where
  "unconverged_agents st target_hash =
     filter (\<lambda>agent_id.
         case bt_get (ctl_last_heartbeats st) agent_id of
           None \<Rightarrow> True
         | Some stored \<Rightarrow> hb_config_hash (sh_heartbeat stored) \<noteq> target_hash)
       (bt_keys (ctl_agents st))"

definition event_totals :: "controller_state \<Rightarrow> u64 \<times> u64" where
  "event_totals st = (ctl_accepted_events_total st, ctl_rejected_events_total st)"

definition unix_seconds :: "int \<Rightarrow> u64" where
  "unix_seconds t = (case duration_since t 0 of None \<Rightarrow> 0 | Some d \<Rightarrow> word_of_int (d div 1000000000))"

definition zero_heartbeat_counters :: heartbeat_counters where
  "zero_heartbeat_counters =
     \<lparr>hc_events_total = 0, hc_malformed_events_total = 0, hc_lost_events_total = 0,
      hc_correlation_drops_total = 0, hc_sink_drops_total = 0,
      hc_controller_send_failures_total = 0\<rparr>"

definition agent_status_of :: "int \<Rightarrow> controller_state \<Rightarrow> string \<times> registered_agent \<Rightarrow> agent_status" where
  "agent_status_of now st entry =
     (let (agent_id, registered) = entry;
          heartbeat = bt_get (ctl_last_heartbeats st) agent_id;
          sequence = unwrap_or (bt_get (ctl_sequences st) agent_id) tracking_default
      in \<lparr>as_agent_id = hello_agent_id (ra_hello registered),
          as_node_name = hello_node_name (ra_hello registered),
          as_tapio_version = hello_tapio_version (ra_hello registered),
          as_registered_at_unix = unix_seconds (ra_registered_at registered),
          as_last_heartbeat_age_seconds = map_option (\<lambda>stored.
             case duration_since now (sh_seen_at stored) of
               None \<Rightarrow> 0 | Some age \<Rightarrow> word_of_int (age div 1000000000)) heartbeat,
          as_reported_config_version =
            unwrap_or (map_option (\<lambda>s. hb_config_version (sh_heartbeat s)) heartbeat) [],
          as_reported_counters =
            unwrap_or (map_option (\<lambda>s. hb_counters (sh_heartbeat s)) heartbeat) zero_heartbeat_counters,
          as_observers = unwrap_or (map_option (\<lambda>s. hb_observers (sh_heartbeat s)) heartbeat) [],
          as_sequence =
            \<lparr>sq_last_seen = trk_last_seen sequence, sq_gaps_total = trk_gaps_total sequence,
             sq_regressions_total = trk_regressions_total sequence\<rparr>\<rparr>)"

definition controller_status :: "int \<Rightarrow> controller_state \<Rightarrow> status_response" where
  "controller_status now st =
     \<lparr>st_wire_version = WIRE_VERSION, st_controller_id = CONTROLLER_ID,
      st_started_at_unix = unix_seconds (ctl_started_at st),
      st_config = \<lparr>stc_version = cfg_version (ctl_config st),
                   stc_config_hash = cfg_config_hash (ctl_config st)\<rparr>,
      st_totals =
        \<lparr>stt_accepted_events_total = ctl_accepted_events_total st,
         stt_rejected_events_total = ctl_rejected_events_total st,
         stt_batches_accepted_total = ctl_batches_accepted_total st,
         stt_batches_rejected_total = ctl_batches_rejected_total st\<rparr>,
      st_agents = map (agent_status_of now st) (ctl_agents st)\<rparr>"

section \<open>HTTP\<close>

text \<open>
  What axum hands to a handler: the decoded body, or a rejection with its status and text.
\<close>

datatype 'a payload = Decoded 'a | Rejection nat string

datatype api_error = ApiWire wire_error | MalformedJson string | PayloadTooLarge string

record error_body =
  err_code :: string
  err_message :: string

datatype api_body =
    HelloBody hello_response
  | ConfigBody config_response
  | HeartbeatBody heartbeat_response
  | EventsBody event_batch_response
  | StatusBody status_response
  | ErrorBody error_body
  | EmptyBody

record api_response =
  resp_status :: nat
  resp_etag :: "string option"
  resp_body :: api_body

definition json_payload :: "'a payload \<Rightarrow> api_error + 'a" where
  "json_payload p =
     (case p of
        Decoded value \<Rightarrow> Inr value
      | Rejection status txt \<Rightarrow> if status = 413 then Inl (PayloadTooLarge txt) else Inl (MalformedJson txt))"

fun error_envelope :: "wire_error \<Rightarrow> error_body" where
  "error_envelope (UnsupportedVersion version) =
     \<lparr>err_code = ''UNSUPPORTED_VERSION'', err_message = ''unsupported wire version '' @ version\<rparr>"
| "error_envelope (MissingField field) =
     \<lparr>err_code = ''MISSING_FIELD'', err_message = field @ '' is required''\<rparr>"
| "error_envelope (InvalidField field reason) =
     \<lparr>err_code = ''INVALID_FIELD'', err_message = field @ '': '' @ reason\<rparr>"
| "error_envelope (ReasoningField field) =
     \<lparr>err_code = ''REASONING_FIELD'', err_message = ''event facts contain reasoning field '' @ field\<rparr>"

fun wire_error_status :: "wire_error \<Rightarrow> nat" where
  "wire_error_status (UnsupportedVersion _) = 400"
| "wire_error_status (MissingField _) = 400"
| "wire_error_status (InvalidField _ _) = 400"
| "wire_error_status (ReasoningField _) = 422"

fun api_error_response :: "api_error \<Rightarrow> api_response" where
  "api_error_response (ApiWire e) =
     \<lparr>resp_status = wire_error_status e, resp_etag = None, resp_body = ErrorBody (error_envelope e)\<rparr>"
| "api_error_response (MalformedJson m) =
     \<lparr>resp_status = 400, resp_etag = None,
      resp_body = ErrorBody \<lparr>err_code = ''MALFORMED_JSON'', err_message = m\<rparr>\<rparr>"
| "api_error_response (PayloadTooLarge m) =
     \<lparr>resp_status = 413, resp_etag = None,
      resp_body = ErrorBody \<lparr>err_code = ''PAYLOAD_TOO_LARGE'', err_message = m\<rparr>\<rparr>"

definition json_ok :: "api_body \<Rightarrow> api_response" where
  "json_ok b = \<lparr>resp_status = 200, resp_etag = None, resp_body = b\<rparr>"

fun find_query :: "string \<Rightarrow> string list \<Rightarrow> string option" where
  "find_query name [] = None"
| "find_query name (pair # pairs) =
     (case split_once (CHR ''='') pair of
        None \<Rightarrow> find_query name pairs
      | Some (key, value) \<Rightarrow> if key = name then Some value else find_query name pairs)"

definition query_param :: "string option \<Rightarrow> string \<Rightarrow> string option" where
  "query_param query name =
     (case query of None \<Rightarrow> None | Some q \<Rightarrow> find_query name (split_on (CHR ''&'') q))"

definition quoted_etag :: "string \<Rightarrow> string" where
  "quoted_etag h = [CHR 0x22] @ h @ [CHR 0x22]"

definition if_none_match_matches :: "string option \<Rightarrow> string \<Rightarrow> bool" where
  "if_none_match_matches header etag =
     (case header of None \<Rightarrow> False | Some value \<Rightarrow> trim value = etag)"

text \<open>\<open>header_ok\<close> is \<open>HeaderValue::from_str(s).is_ok()\<close> of the HTTP library.\<close>

definition insert_etag :: "(string \<Rightarrow> bool) \<Rightarrow> string \<Rightarrow> api_response \<Rightarrow> api_response" where
  "insert_etag header_ok etag r = (if header_ok etag then r\<lparr>resp_etag := Some etag\<rparr> else r)"

definition finish :: "('a \<Rightarrow> api_body) \<Rightarrow> (wire_error + 'a) \<times> controller_state \<Rightarrow> api_response \<times> controller_state" where
  "finish body r =
     ((case fst r of Inl e \<Rightarrow> api_error_response (ApiWire e) | Inr x \<Rightarrow> json_ok (body x)), snd r)"

definition hello_handler ::
  "int \<Rightarrow> controller_state \<Rightarrow> hello_request payload \<Rightarrow> api_response \<times> controller_state" where
  "hello_handler now st req =
     (case json_payload req of
        Inl e \<Rightarrow> (api_error_response e, st)
      | Inr h \<Rightarrow> finish HelloBody (register_agent now st h))"

definition config_handler ::
  "(string \<Rightarrow> bool) \<Rightarrow> controller_state \<Rightarrow> string option \<Rightarrow> string option \<Rightarrow> api_response" where
  "config_handler header_ok st if_none_match query =
     (case query_param query ''agent_id'' of
        None \<Rightarrow> api_error_response (ApiWire (MissingField ''agent_id''))
      | Some agent_id \<Rightarrow>
     (case query_param query ''node_name'' of
        None \<Rightarrow> api_error_response (ApiWire (MissingField ''node_name''))
      | Some node_name \<Rightarrow>
     (case config_for st agent_id node_name of
        Inl e \<Rightarrow> api_error_response (ApiWire e)
      | Inr config \<Rightarrow>
          (let etag = quoted_etag (cfg_config_hash config)
           in if if_none_match_matches if_none_match etag
              then insert_etag header_ok etag \<lparr>resp_status = 304, resp_etag = None, resp_body = EmptyBody\<rparr>
              else insert_etag header_ok etag (json_ok (ConfigBody config))))))"

definition heartbeat_handler ::
  "int \<Rightarrow> controller_state \<Rightarrow> heartbeat_request payload \<Rightarrow> api_response \<times> controller_state" where
  "heartbeat_handler now st req =
     (case json_payload req of
        Inl e \<Rightarrow> (api_error_response e, st)
      | Inr h \<Rightarrow> finish HeartbeatBody (record_heartbeat now st h))"

definition events_handler ::
  "controller_state \<Rightarrow> event_batch_request payload \<Rightarrow> api_response \<times> controller_state" where
  "events_handler st req =
     (case json_payload req of
        Inl e \<Rightarrow> (api_error_response e, st)
      | Inr b \<Rightarrow> finish EventsBody (record_event_batch st b))"

definition status_handler :: "int \<Rightarrow> controller_state \<Rightarrow> api_response" where
  "status_handler now st = json_ok (StatusBody (controller_status now st))"

definition not_found :: api_response where
  "not_found = \<lparr>resp_status = 404, resp_etag = None,
     resp_body = ErrorBody \<lparr>err_code = ''UNKNOWN_ENDPOINT'',
       err_message = ''unknown tapio-controller endpoint''\<rparr>\<rparr>"

text \<open>One request to a route of the router, its body already read by axum.\<close>

datatype api_request =
    PostHello "hello_request payload"
  | GetConfig "string option" "string option"  \<comment> \<open>If-None-Match, query\<close>
  | PostHeartbeat "heartbeat_request payload"
  | PostEvents "event_batch_request payload"
  | GetStatus
  | OtherPath

fun route :: "(string \<Rightarrow> bool) \<Rightarrow> int \<Rightarrow> controller_state \<Rightarrow> api_request \<Rightarrow> api_response \<times> controller_state" where
  "route header_ok now st (PostHello req) = hello_handler now st req"
| "route header_ok now st (GetConfig inm q) = (config_handler header_ok st inm q, st)"
| "route header_ok now st (PostHeartbeat req) = heartbeat_handler now st req"
| "route header_ok now st (PostEvents req) = events_handler st req"
| "route header_ok now st GetStatus = (status_handler now st, st)"
| "route header_ok now st OtherPath = (not_found, st)"

text \<open>A run of the server: the requests with the time each is served at.\<close>

definition serve_one :: "(string \<Rightarrow> bool) \<Rightarrow> int \<times> api_request \<Rightarrow> controller_state \<Rightarrow> controller_state" where
  "serve_one header_ok r st = snd (route header_ok (fst r) st (snd r))"

definition serve :: "(string \<Rightarrow> bool) \<Rightarrow> controller_state \<Rightarrow> (int \<times> api_request) list \<Rightarrow> controller_state" where
  "serve header_ok st reqs = fold (serve_one header_ok) reqs st"

end
