(* ===== verification/Tracking.thy ===== *)
theory Tracking
  imports Controller
begin

text \<open>
  What the controller's per-agent sequence tracking counts: the gaps and regressions of the
  list of sequence numbers it has accepted from one agent since its last hello.
\<close>

definition track_all :: "u64 list \<Rightarrow> sequence_tracking" where
  "track_all seqs = fold (\<lambda>s t. track_sequence t s) seqs tracking_default"

text \<open>The reference: how many numbers of a list exceed everything before them.\<close>

fun new_maxima :: "u64 \<Rightarrow> u64 list \<Rightarrow> nat" where
  "new_maxima m [] = 0"
| "new_maxima m (s # ss) = (if m < s then Suc (new_maxima s ss) else new_maxima m ss)"

lemma unat_sat_add_1: "m \<noteq> - 1 \<Longrightarrow> unat (sat_add m 1) = unat m + 1"
proof -
  assume "m \<noteq> - 1"
  then have "unat m \<noteq> unat (- 1 :: u64)" by (simp only: word_unat_eq_iff not_False_eq_True)
  then have "unat m \<noteq> 18446744073709551615" by simp
  with unat_u64_le [of m] have "unat m < 18446744073709551615" by linarith
  then show ?thesis by (simp add: unat_sat_add)
qed

lemma track_sequence_cases:
  assumes "trk_last_seen t = Some m" "m \<noteq> - 1"
  shows "m < s \<Longrightarrow> track_sequence t s =
           t\<lparr>trk_gaps_total := sat_add (trk_gaps_total t) (sat_sub s (sat_add m 1)),
             trk_last_seen := Some s\<rparr>"
    and "\<not> m < s \<Longrightarrow> track_sequence t s = t\<lparr>trk_regressions_total := sat_add (trk_regressions_total t) 1\<rparr>"
proof -
  have g0: "sat_add (trk_gaps_total t) (sat_sub s (sat_add m 1)) = trk_gaps_total t" if "s = sat_add m 1"
    using that unat_u64_less [of "trk_gaps_total t"] by (simp add: word_unat_eq_iff unat_sat_add unat_sat_sub)
  note u = unat_sat_add_1 [OF assms(2)]
  show "m < s \<Longrightarrow> track_sequence t s =
           t\<lparr>trk_gaps_total := sat_add (trk_gaps_total t) (sat_sub s (sat_add m 1)),
             trk_last_seen := Some s\<rparr>"
    using assms(1) g0 u by (auto simp: track_sequence_def word_less_nat_alt word_unat_eq_iff)
  show "\<not> m < s \<Longrightarrow> track_sequence t s = t\<lparr>trk_regressions_total := sat_add (trk_regressions_total t) 1\<rparr>"
    using assms(1) u by (auto simp: track_sequence_def word_less_nat_alt word_unat_eq_iff)
qed

lemma track_fold:
  assumes "trk_last_seen t = Some m" "m \<noteq> - 1" "\<forall>s\<in>set ss. s \<noteq> - 1"
    and "unat (trk_gaps_total t) \<le> unat m"
    and "unat (trk_regressions_total t) + length ss < 2 ^ 64"
  shows "let t' = fold (\<lambda>s t. track_sequence t s) ss t; m' = fold max ss m in
     trk_last_seen t' = Some m' \<and> unat m \<le> unat m'
     \<and> unat (trk_gaps_total t') + new_maxima m ss + unat m = unat (trk_gaps_total t) + unat m'
     \<and> new_maxima m ss + unat (trk_regressions_total t') = length ss + unat (trk_regressions_total t)"
  using assms
proof (induction ss arbitrary: t m)
  case Nil
  then show ?case by simp
next
  case (Cons s ss)
  show ?case
  proof (cases "m < s")
    case True
    define t1 where "t1 = track_sequence t s"
    have t1: "t1 = t\<lparr>trk_gaps_total := sat_add (trk_gaps_total t) (sat_sub s (sat_add m 1)),
             trk_last_seen := Some s\<rparr>"
      unfolding t1_def by (rule track_sequence_cases(1) [OF Cons.prems(1,2) True])
    have ms: "unat m + 1 \<le> unat s" using True by (simp add: word_less_nat_alt)
    have g1: "unat (trk_gaps_total t1) + unat m + 1 = unat (trk_gaps_total t) + unat s"
    proof -
      have d: "unat (sat_sub s (sat_add m 1)) = unat s - (unat m + 1)"
        by (simp add: unat_sat_sub unat_sat_add_1 [OF Cons.prems(2)])
      have "unat (trk_gaps_total t) + (unat s - (unat m + 1)) \<le> unat s" using ms Cons.prems(4) by linarith
      then have "unat (trk_gaps_total t) + (unat s - (unat m + 1)) < 2 ^ 64"
        using unat_u64_less [of s] by (simp del: unat_u64_less)
      with d ms show ?thesis by (simp add: t1 unat_sat_add_exact)
    qed
    have r1: "unat (trk_regressions_total t1) = unat (trk_regressions_total t)" by (simp add: t1)
    have "let t' = fold (\<lambda>s t. track_sequence t s) ss t1; m' = fold max ss s in
     trk_last_seen t' = Some m' \<and> unat s \<le> unat m'
     \<and> unat (trk_gaps_total t') + new_maxima s ss + unat s = unat (trk_gaps_total t1) + unat m'
     \<and> new_maxima s ss + unat (trk_regressions_total t') = length ss + unat (trk_regressions_total t1)"
      using Cons.prems ms g1 by (intro Cons.IH) (auto simp: t1)
    moreover have "max s m = s" using True by (simp add: max_absorb1 less_imp_le)
    ultimately show ?thesis using True ms g1 r1 by (simp add: Let_def t1_def [symmetric])
  next
    case False
    define t1 where "t1 = track_sequence t s"
    have t1: "t1 = t\<lparr>trk_regressions_total := sat_add (trk_regressions_total t) 1\<rparr>"
      unfolding t1_def by (rule track_sequence_cases(2) [OF Cons.prems(1,2) False])
    have r1: "unat (trk_regressions_total t1) = unat (trk_regressions_total t) + 1"
      using Cons.prems(5) by (simp add: t1 unat_sat_add)
    have "let t' = fold (\<lambda>s t. track_sequence t s) ss t1; m' = fold max ss m in
     trk_last_seen t' = Some m' \<and> unat m \<le> unat m'
     \<and> unat (trk_gaps_total t') + new_maxima m ss + unat m = unat (trk_gaps_total t1) + unat m'
     \<and> new_maxima m ss + unat (trk_regressions_total t') = length ss + unat (trk_regressions_total t1)"
      using Cons.prems r1 by (intro Cons.IH) (auto simp: t1)
    moreover have "max s m = m" using False by (auto simp: max_def)
    ultimately show ?thesis using False r1 by (simp add: Let_def t1_def [symmetric]) (simp add: t1)
  qed
qed

lemma track_all_Cons:
  "track_all (s # ss) = fold (\<lambda>s t. track_sequence t s) ss (tracking_default\<lparr>trk_last_seen := Some s\<rparr>)"
  by (simp add: track_all_def track_sequence_def tracking_default_def)

lemma track_all_Nil [simp]: "track_all [] = tracking_default"
  by (simp add: track_all_def)

lemma track_all_snoc: "track_all (ss @ [s]) = track_sequence (track_all ss) s"
  by (simp add: track_all_def)

lemma track_account:
  assumes "\<forall>x\<in>set (s # ss). x \<noteq> - 1" "length ss < 2 ^ 64"
  shows "trk_last_seen (track_all (s # ss)) = Some (fold max ss s)"
    and "unat (trk_gaps_total (track_all (s # ss))) + new_maxima s ss = unat (fold max ss s) - unat s"
    and "unat (trk_regressions_total (track_all (s # ss))) + new_maxima s ss = length ss"
proof -
  have "let t' = track_all (s # ss); m' = fold max ss s in
     trk_last_seen t' = Some m' \<and> unat s \<le> unat m'
     \<and> unat (trk_gaps_total t') + new_maxima s ss + unat s = 0 + unat m'
     \<and> new_maxima s ss + unat (trk_regressions_total t') = length ss + 0"
    unfolding track_all_Cons
    using track_fold [of "tracking_default\<lparr>trk_last_seen := Some s\<rparr>" s ss] assms
    by (simp add: tracking_default_def)
  then show "trk_last_seen (track_all (s # ss)) = Some (fold max ss s)"
    and "unat (trk_gaps_total (track_all (s # ss))) + new_maxima s ss = unat (fold max ss s) - unat s"
    and "unat (trk_regressions_total (track_all (s # ss))) + new_maxima s ss = length ss"
    by (auto simp: Let_def)
qed

lemma new_maxima_increasing: "sorted_wrt (<) (s # ss) \<Longrightarrow> new_maxima s ss = length ss"
  by (induction ss arbitrary: s) auto

lemma fold_max_increasing: "sorted_wrt (<) ((s :: u64) # ss) \<Longrightarrow> fold max ss s = last (s # ss)"
  by (induction ss arbitrary: s) (auto simp: max_absorb1 less_imp_le)

text \<open>The numbers between the first and the last of an increasing list that it skips.\<close>

definition skipped :: "u64 list \<Rightarrow> nat set" where
  "skipped ss = {unat (hd ss) .. unat (last ss)} - unat ` set ss"

lemma card_skipped:
  assumes "sorted_wrt (<) (s # ss)"
  shows "card (skipped (s # ss)) + length ss = unat (last (s # ss)) - unat s"
proof -
  have inj: "inj_on unat (set (s # ss))" by (rule inj_onI) (simp add: word_unat_eq_iff)
  have le: "s \<le> last (s # ss)" using assms by (cases ss rule: rev_cases) (auto simp: sorted_wrt_append)
  have sub: "unat ` set (s # ss) \<subseteq> {unat s .. unat (last (s # ss))}"
  proof -
    have "s \<le> x \<and> x \<le> last (s # ss)" if "x \<in> set (s # ss)" for x
    proof
      show "s \<le> x" using assms that by auto
      have "sorted_wrt (\<le>) (s # ss)" using assms by (rule sorted_wrt_mono_rel [rotated]) auto
      then show "x \<le> last (s # ss)" using that
        by (cases "s # ss" rule: rev_cases) (auto simp: sorted_wrt_append)
    qed
    then show ?thesis by (force simp: word_le_nat_alt)
  qed
  have "distinct (s # ss)" using assms strict_sorted_iff by blast
  then have c: "card (unat ` set (s # ss)) = Suc (length ss)"
    using card_image [OF inj] distinct_card [of "s # ss"] by simp
  have "card (skipped (s # ss)) = card {unat s .. unat (last (s # ss))} - Suc (length ss)"
    unfolding skipped_def list.sel c [symmetric] by (rule card_Diff_subset) (use sub in auto)
  moreover have "Suc (length ss) \<le> card {unat s .. unat (last (s # ss))}"
    unfolding c [symmetric] by (rule card_mono) (use sub in auto)
  ultimately show ?thesis using le by (simp add: word_le_nat_alt)
qed

section \<open>Properties\<close>

text \<open>
  For any sequence numbers accepted from an agent (below the maximal one), the tracked
  last number is the largest seen, the gap total is the distance from the first number to
  the largest less the numbers that advanced it, and every number that did not advance it
  is one regression; neither total saturates.
\<close>

theorem tracking_accounts:
  assumes "\<forall>x\<in>set (s # ss). x \<noteq> - 1" "length ss < 2 ^ 64"
  shows "trk_last_seen (track_all (s # ss)) = Some (fold max ss s)
     \<and> unat (trk_gaps_total (track_all (s # ss))) + new_maxima s ss = unat (fold max ss s) - unat s
     \<and> unat (trk_regressions_total (track_all (s # ss))) + new_maxima s ss = length ss"
  using track_account [OF assms] by simp

lemma tracking_accounts_witness:
  "trk_gaps_total (track_all [1, 4, 2, 5]) = 2 \<and> trk_regressions_total (track_all [1, 4, 2, 5]) = 1"
  using tracking_accounts [of 1 "[4, 2, 5]"] by (simp add: word_unat_eq_iff max_def word_le_nat_alt word_less_nat_alt)

lemma gaps_of_increasing:
  assumes "sorted_wrt (<) (s # ss)" "\<forall>x\<in>set (s # ss). x \<noteq> - 1" "length ss < 2 ^ 64"
  shows "unat (trk_gaps_total (track_all (s # ss))) = card (skipped (s # ss))
     \<and> trk_regressions_total (track_all (s # ss)) = 0"
proof -
  note t = track_account [OF assms(2,3)] new_maxima_increasing [OF assms(1)]
    fold_max_increasing [OF assms(1)] card_skipped [OF assms(1)]
  then have "unat (trk_gaps_total (track_all (s # ss))) + length ss = card (skipped (s # ss)) + length ss"
    by simp
  moreover from t have "unat (trk_regressions_total (track_all (s # ss))) = 0" by simp
  ultimately show ?thesis by (simp add: unat_eq_zero)
qed

text \<open>
  When the numbers arrive in increasing order, the gap total is exactly how many numbers
  between the first and the last never arrived, and no regression is counted.
\<close>

theorem gaps_count_missing_batches:
  assumes "sorted_wrt (<) (s # ss)" "\<forall>x\<in>set (s # ss). x \<noteq> - 1" "length ss < 2 ^ 64"
  shows "unat (trk_gaps_total (track_all (s # ss))) = card (skipped (s # ss))
     \<and> trk_regressions_total (track_all (s # ss)) = 0"
  by (rule gaps_of_increasing [OF assms])

lemma gaps_count_missing_batches_witness:
  "unat (trk_gaps_total (track_all [1, 3, 7])) = card (skipped [1, 3, 7])"
  using gaps_count_missing_batches [of 1 "[3, 7]"] by simp

end
