(* ===== verification/Simulation.thy ===== *)
theory Simulation
  imports Prelude
begin

text \<open>
  The interface between a component that processes a list of inputs and an abstract account
  of it: an invariant that every step keeps, and a view of the state that evolves by a step
  of its own. Every history property of the development is an interpretation of this locale.
\<close>

locale invariant_run =
  fixes step :: "'e \<Rightarrow> 's \<Rightarrow> 's"
    and inv :: "'s \<Rightarrow> bool"
  assumes inv_step: "inv s \<Longrightarrow> inv (step e s)"
begin

lemma inv_run: "inv s \<Longrightarrow> inv (fold step es s)"
  by (induction es arbitrary: s) (auto intro: inv_step)

end

locale simulation = invariant_run step inv
  for step :: "'e \<Rightarrow> 's \<Rightarrow> 's" and inv +
  fixes view :: "'s \<Rightarrow> 'a"
    and astep :: "'e \<Rightarrow> 'a \<Rightarrow> 'a"
  assumes view_step: "inv s \<Longrightarrow> view (step e s) = astep e (view s)"
begin

lemma view_run: "inv s \<Longrightarrow> view (fold step es s) = fold astep es (view s)"
proof (induction es arbitrary: s)
  case Nil
  then show ?case by simp
next
  case (Cons e es)
  from Cons.IH [OF inv_step [OF Cons.prems]] view_step [OF Cons.prems] show ?case by simp
qed

end

end
