(* ===== verification/Server.thy ===== *)
theory Server
  imports Tracking Simulation
begin

text \<open>
  Runs of the controller: what its state and its answers are after any list of requests,
  from the requests alone. The single-request lemmas give the effect of a request on each
  field; the interpretations of \<open>invariant_run\<close> and \<open>simulation\<close> lift them to runs.
\<close>

section \<open>Which requests take effect\<close>

fun accepted_hello :: "api_request \<Rightarrow> hello_request option" where
  "accepted_hello (PostHello (Decoded h)) = (if is_ok (hello_request_validate h) then Some h else None)"
| "accepted_hello _ = None"

fun accepted_heartbeat :: "api_request \<Rightarrow> heartbeat_request option" where
  "accepted_heartbeat (PostHeartbeat (Decoded h)) =
     (if is_ok (heartbeat_request_validate h) then Some h else None)"
| "accepted_heartbeat _ = None"

fun accepted_batch :: "nat \<Rightarrow> api_request \<Rightarrow> event_batch_request option" where
  "accepted_batch n (PostEvents (Decoded b)) =
     (if is_ok (event_batch_request_validate b n) then Some b else None)"
| "accepted_batch n _ = None"

fun rejected_batch :: "nat \<Rightarrow> api_request \<Rightarrow> event_batch_request option" where
  "rejected_batch n (PostEvents (Decoded b)) =
     (if is_ok (event_batch_request_validate b n) then None else Some b)"
| "rejected_batch n _ = None"

lemmas accepted_simps = accepted_hello.simps accepted_heartbeat.simps accepted_batch.simps
  rejected_batch.simps

lemmas handler_defs = serve_one_def hello_handler_def heartbeat_handler_def events_handler_def
  register_agent_def record_heartbeat_def record_event_batch_def commit_event_batch_def
  json_payload_def finish_def update_sequence_tracking_def

text \<open>The effect of one request on each field.\<close>

lemma request_cases:
  obtains (hello) h where "r = PostHello (Decoded h)" | (beat) h where "r = PostHeartbeat (Decoded h)"
  | (batch) b where "r = PostEvents (Decoded b)"
  | (other) "accepted_hello r = None" "accepted_heartbeat r = None" "\<And>n. accepted_batch n r = None"
      "\<And>n. rejected_batch n r = None" "\<And>hok t st. snd (route hok t st r) = st"
proof (cases r)
  case (PostHello p)
  then show ?thesis
    by (cases p) (auto intro: hello other simp: hello_handler_def json_payload_def)
next
  case (PostHeartbeat p)
  then show ?thesis
    by (cases p) (auto intro: beat other simp: heartbeat_handler_def json_payload_def)
next
  case (PostEvents p)
  then show ?thesis
    by (cases p) (auto intro: batch other simp: events_handler_def json_payload_def)
qed (auto intro: other)

lemma serve_config [simp]: "ctl_config (serve_one hok tr st) = ctl_config st"
  by (cases "snd tr" rule: request_cases)
    (auto simp: handler_defs Let_def split: sum.splits)

lemma serve_started [simp]: "ctl_started_at (serve_one hok tr st) = ctl_started_at st"
  by (cases "snd tr" rule: request_cases)
    (auto simp: handler_defs Let_def split: sum.splits)

lemma serve_agents:
  "ctl_agents (serve_one hok tr st) =
     (case accepted_hello (snd tr) of
        None \<Rightarrow> ctl_agents st
      | Some h \<Rightarrow> bt_insert (hello_agent_id h) \<lparr>ra_hello = h, ra_registered_at = fst tr\<rparr> (ctl_agents st))"
  by (cases "snd tr" rule: request_cases)
    (auto simp: handler_defs Let_def split: sum.splits)

lemma serve_heartbeats:
  "ctl_last_heartbeats (serve_one hok tr st) =
     (case accepted_heartbeat (snd tr) of
        None \<Rightarrow> ctl_last_heartbeats st
      | Some h \<Rightarrow> bt_insert (hb_agent_id h) \<lparr>sh_heartbeat = h, sh_seen_at = fst tr\<rparr> (ctl_last_heartbeats st))"
  by (cases "snd tr" rule: request_cases)
    (auto simp: handler_defs Let_def split: sum.splits)

lemma serve_sequences:
  "ctl_sequences (serve_one hok tr st) =
     (case accepted_hello (snd tr) of
        Some h \<Rightarrow> bt_insert (hello_agent_id h) tracking_default (ctl_sequences st)
      | None \<Rightarrow>
     (case accepted_batch (batch_limit st) (snd tr) of
        Some b \<Rightarrow> bt_insert (batch_agent_id b)
            (track_sequence (unwrap_or (bt_get (ctl_sequences st) (batch_agent_id b)) tracking_default)
               (batch_sequence b)) (ctl_sequences st)
      | None \<Rightarrow> ctl_sequences st))"
  by (cases "snd tr" rule: request_cases)
    (auto simp: handler_defs Let_def split: sum.splits)

definition batch_size :: "event_batch_request option \<Rightarrow> nat" where
  "batch_size m = (case m of None \<Rightarrow> 0 | Some b \<Rightarrow> length (batch_events b))"

definition count_some :: "'a option \<Rightarrow> nat" where
  "count_some m = (case m of None \<Rightarrow> 0 | Some _ \<Rightarrow> 1)"

lemma serve_totals:
  "ctl_accepted_events_total (serve_one hok tr st) =
     ctl_accepted_events_total st + of_nat (batch_size (accepted_batch (batch_limit st) (snd tr)))"
  "ctl_rejected_events_total (serve_one hok tr st) =
     ctl_rejected_events_total st + of_nat (batch_size (rejected_batch (batch_limit st) (snd tr)))"
  "ctl_batches_accepted_total (serve_one hok tr st) =
     ctl_batches_accepted_total st + of_nat (count_some (accepted_batch (batch_limit st) (snd tr)))"
  "ctl_batches_rejected_total (serve_one hok tr st) =
     ctl_batches_rejected_total st + of_nat (count_some (rejected_batch (batch_limit st) (snd tr)))"
  by (cases "snd tr" rule: request_cases;
      auto simp: handler_defs Let_def batch_size_def count_some_def split: sum.splits)+

section \<open>The invariant of a run\<close>

definition server_inv :: "config_response \<Rightarrow> controller_state \<Rightarrow> bool" where
  "server_inv c st \<longleftrightarrow>
     ctl_config st = c
     \<and> bt_inv (ctl_agents st) \<and> bt_inv (ctl_last_heartbeats st) \<and> bt_inv (ctl_sequences st)
     \<and> (\<forall>a r. bt_get (ctl_agents st) a = Some r \<longrightarrow>
          hello_agent_id (ra_hello r) = a \<and> is_ok (hello_request_validate (ra_hello r)))
     \<and> (\<forall>a s. bt_get (ctl_last_heartbeats st) a = Some s \<longrightarrow>
          hb_agent_id (sh_heartbeat s) = a \<and> is_ok (heartbeat_request_validate (sh_heartbeat s)))
     \<and> (\<forall>a. bt_get (ctl_agents st) a \<noteq> None \<longrightarrow> bt_get (ctl_sequences st) a \<noteq> None)"

lemma server_inv_new [simp]: "server_inv c (controller_new c t)"
  by (simp add: server_inv_def controller_new_def bt.inv_empty)

lemma accepted_hello_valid: "accepted_hello r = Some h \<Longrightarrow> is_ok (hello_request_validate h)"
  by (cases r rule: accepted_hello.cases) (auto split: if_splits)

lemma accepted_heartbeat_valid: "accepted_heartbeat r = Some h \<Longrightarrow> is_ok (heartbeat_request_validate h)"
  by (cases r rule: accepted_heartbeat.cases) (auto split: if_splits)

lemma server_inv_step:
  assumes "server_inv c st"
  shows "server_inv c (serve_one hok tr st)"
  using assms accepted_hello_valid [of "snd tr"] accepted_heartbeat_valid [of "snd tr"]
  unfolding server_inv_def
  by (auto simp: serve_agents serve_heartbeats serve_sequences bt.get_ins bt.inv_ins
      split: option.splits if_splits)

interpretation server: invariant_run "serve_one hok" "server_inv c" for hok c
  by unfold_locales (rule server_inv_step)

lemma serve_inv: "server_inv c (serve hok (controller_new c t) reqs)"
  unfolding serve_def by (rule server.inv_run) simp

lemma serve_inv_from: "server_inv c st \<Longrightarrow> server_inv c (serve hok st reqs)"
  unfolding serve_def by (rule server.inv_run)

lemma limit_inv: "server_inv c st \<Longrightarrow> batch_limit st = unat (bat_max_batch_events (cfg_batching c))"
  by (simp add: server_inv_def batch_limit_def)

definition limit_of :: "config_response \<Rightarrow> nat" where
  "limit_of c = unat (bat_max_batch_events (cfg_batching c))"

section \<open>Registrations\<close>

text \<open>The last accepted hello of an agent, with the time it was served at.\<close>

definition hello_step ::
  "string \<Rightarrow> int \<times> api_request \<Rightarrow> (int \<times> hello_request) option \<Rightarrow> (int \<times> hello_request) option" where
  "hello_step a tr prev =
     (case accepted_hello (snd tr) of
        None \<Rightarrow> prev
      | Some h \<Rightarrow> if hello_agent_id h = a then Some (fst tr, h) else prev)"

definition last_hello :: "string \<Rightarrow> (int \<times> api_request) list \<Rightarrow> (int \<times> hello_request) option" where
  "last_hello a reqs = fold (hello_step a) reqs None"

definition agent_view :: "string \<Rightarrow> controller_state \<Rightarrow> (int \<times> hello_request) option" where
  "agent_view a st = map_option (\<lambda>r. (ra_registered_at r, ra_hello r)) (bt_get (ctl_agents st) a)"

interpretation registry: simulation "serve_one hok" "server_inv c" "agent_view a" "hello_step a"
  for hok c a
proof unfold_locales
  fix st tr
  assume "server_inv c st"
  then show "agent_view a (serve_one hok tr st) = hello_step a tr (agent_view a st)"
    by (auto simp: agent_view_def hello_step_def serve_agents server_inv_def bt.get_ins
        split: option.splits)
qed

lemma agents_of_run: "agent_view a (serve hok (controller_new c t) reqs) = last_hello a reqs"
  using registry.view_run [of c "controller_new c t" a hok reqs]
  by (simp add: serve_def last_hello_def) (simp add: agent_view_def controller_new_def)

definition registered_ids :: "(int \<times> api_request) list \<Rightarrow> string set" where
  "registered_ids reqs = {a. last_hello a reqs \<noteq> None}"

lemma hello_fold_Some:
  "fold (hello_step a) reqs m \<noteq> None \<longleftrightarrow>
     m \<noteq> None \<or> a \<in> set (map hello_agent_id (List.map_filter (\<lambda>tr. accepted_hello (snd tr)) reqs))"
  by (induction reqs arbitrary: m)
    (auto simp: hello_step_def map_filter_simps split: option.splits)

lemma registered_ids_list:
  "registered_ids reqs =
     set (map hello_agent_id (List.map_filter (\<lambda>tr. accepted_hello (snd tr)) reqs))"
  unfolding registered_ids_def last_hello_def hello_fold_Some by simp

lemma keys_of_run:
  "set (bt_keys (ctl_agents (serve hok (controller_new c t) reqs))) = registered_ids reqs"
proof -
  let ?st = "serve hok (controller_new c t) reqs"
  have "bt_inv (ctl_agents ?st)" using serve_inv by (simp add: server_inv_def)
  then have "a \<in> set (bt_keys (ctl_agents ?st)) \<longleftrightarrow> agent_view a ?st \<noteq> None" for a
    by (auto simp: bt_keys_get agent_view_def)
  then show ?thesis by (auto simp: registered_ids_def agents_of_run)
qed

section \<open>Heartbeats\<close>

definition beat_step ::
  "string \<Rightarrow> int \<times> api_request \<Rightarrow> (int \<times> heartbeat_request) option \<Rightarrow> (int \<times> heartbeat_request) option" where
  "beat_step a tr prev =
     (case accepted_heartbeat (snd tr) of
        None \<Rightarrow> prev
      | Some h \<Rightarrow> if hb_agent_id h = a then Some (fst tr, h) else prev)"

definition last_beat :: "string \<Rightarrow> (int \<times> api_request) list \<Rightarrow> (int \<times> heartbeat_request) option" where
  "last_beat a reqs = fold (beat_step a) reqs None"

definition beat_view :: "string \<Rightarrow> controller_state \<Rightarrow> (int \<times> heartbeat_request) option" where
  "beat_view a st = map_option (\<lambda>s. (sh_seen_at s, sh_heartbeat s)) (bt_get (ctl_last_heartbeats st) a)"

interpretation beats: simulation "serve_one hok" "server_inv c" "beat_view a" "beat_step a"
  for hok c a
proof unfold_locales
  fix st tr
  assume "server_inv c st"
  then show "beat_view a (serve_one hok tr st) = beat_step a tr (beat_view a st)"
    by (auto simp: beat_view_def beat_step_def serve_heartbeats server_inv_def bt.get_ins
        split: option.splits)
qed

lemma beats_of_run: "beat_view a (serve hok (controller_new c t) reqs) = last_beat a reqs"
  using beats.view_run [of c "controller_new c t" a hok reqs]
  by (simp add: serve_def last_beat_def) (simp add: beat_view_def controller_new_def)

section \<open>Sequences\<close>

text \<open>
  The sequence numbers accepted from an agent since its last hello, \<open>None\<close> before anything
  is known of it.
\<close>

definition seq_step :: "nat \<Rightarrow> string \<Rightarrow> int \<times> api_request \<Rightarrow> u64 list option \<Rightarrow> u64 list option" where
  "seq_step n a tr hist =
     (case accepted_hello (snd tr) of
        Some h \<Rightarrow> if hello_agent_id h = a then Some [] else hist
      | None \<Rightarrow>
     (case accepted_batch n (snd tr) of
        Some b \<Rightarrow> if batch_agent_id b = a then Some (unwrap_or hist [] @ [batch_sequence b]) else hist
      | None \<Rightarrow> hist))"

definition accepted_sequences :: "nat \<Rightarrow> string \<Rightarrow> (int \<times> api_request) list \<Rightarrow> u64 list option" where
  "accepted_sequences n a reqs = fold (seq_step n a) reqs None"

definition track_step ::
  "nat \<Rightarrow> string \<Rightarrow> int \<times> api_request \<Rightarrow> sequence_tracking option \<Rightarrow> sequence_tracking option" where
  "track_step n a tr m =
     (case accepted_hello (snd tr) of
        Some h \<Rightarrow> if hello_agent_id h = a then Some tracking_default else m
      | None \<Rightarrow>
     (case accepted_batch n (snd tr) of
        Some b \<Rightarrow> if batch_agent_id b = a
                  then Some (track_sequence (unwrap_or m tracking_default) (batch_sequence b)) else m
      | None \<Rightarrow> m))"

interpretation sequences: simulation "serve_one hok" "server_inv c"
    "\<lambda>st. bt_get (ctl_sequences st) a" "track_step (limit_of c) a"
  for hok c a
proof unfold_locales
  fix st tr
  assume "server_inv c st"
  then show "bt_get (ctl_sequences (serve_one hok tr st)) a
      = track_step (limit_of c) a tr (bt_get (ctl_sequences st) a)"
    by (auto simp: track_step_def serve_sequences limit_of_def limit_inv server_inv_def bt.get_ins
        split: option.splits)
qed

lemma track_history:
  "fold (track_step n a) reqs (map_option track_all h) = map_option track_all (fold (seq_step n a) reqs h)"
proof (induction reqs arbitrary: h)
  case (Cons tr reqs)
  have "track_step n a tr (map_option track_all h) = map_option track_all (seq_step n a tr h)"
    by (cases h) (auto simp: track_step_def seq_step_def track_all_snoc [symmetric]
        track_all_snoc [of "[]", simplified, symmetric] split: option.splits)
  with Cons.IH show ?case by simp
qed simp

lemma sequences_of_run:
  "bt_get (ctl_sequences (serve hok (controller_new c t) reqs)) a
     = map_option track_all (accepted_sequences (limit_of c) a reqs)"
  using sequences.view_run [where c = c and s = "controller_new c t" and a = a and hok = hok and es = reqs]
    track_history [of "limit_of c" a reqs None]
  by (simp add: serve_def accepted_sequences_def) (simp add: controller_new_def)

section \<open>Totals\<close>

definition batches :: "(api_request \<Rightarrow> event_batch_request option) \<Rightarrow> (int \<times> api_request) list
    \<Rightarrow> event_batch_request list" where
  "batches sel reqs = List.map_filter (\<lambda>tr. sel (snd tr)) reqs"

definition totals_view :: "controller_state \<Rightarrow> u64 \<times> u64 \<times> u64 \<times> u64" where
  "totals_view st = (ctl_accepted_events_total st, ctl_rejected_events_total st,
     ctl_batches_accepted_total st, ctl_batches_rejected_total st)"

definition totals_step :: "nat \<Rightarrow> int \<times> api_request \<Rightarrow> u64 \<times> u64 \<times> u64 \<times> u64 \<Rightarrow> u64 \<times> u64 \<times> u64 \<times> u64" where
  "totals_step n tr t =
     (case t of (ae, re, ba, br) \<Rightarrow>
        (ae + of_nat (batch_size (accepted_batch n (snd tr))),
         re + of_nat (batch_size (rejected_batch n (snd tr))),
         ba + of_nat (count_some (accepted_batch n (snd tr))),
         br + of_nat (count_some (rejected_batch n (snd tr)))))"

interpretation totals: simulation "serve_one hok" "server_inv c" totals_view "totals_step (limit_of c)"
  for hok c
  by unfold_locales (simp add: totals_view_def totals_step_def serve_totals limit_of_def limit_inv)

definition event_sum :: "event_batch_request list \<Rightarrow> nat" where
  "event_sum bs = sum_list (map (\<lambda>b. length (batch_events b)) bs)"

lemma totals_fold:
  "fold (totals_step n) reqs (ae, re, ba, br) =
     (ae + of_nat (event_sum (batches (accepted_batch n) reqs)),
      re + of_nat (event_sum (batches (rejected_batch n) reqs)),
      ba + of_nat (length (batches (accepted_batch n) reqs)),
      br + of_nat (length (batches (rejected_batch n) reqs)))"
proof (induction reqs arbitrary: ae re ba br)
  case Nil
  then show ?case by (simp add: batches_def event_sum_def map_filter_simps)
next
  case (Cons tr reqs)
  then show ?case
    by (simp add: totals_step_def batches_def event_sum_def map_filter_simps batch_size_def
        count_some_def algebra_simps split: option.splits)
qed

lemma totals_of_run:
  "totals_view (serve hok (controller_new c t) reqs) =
     (of_nat (event_sum (batches (accepted_batch (limit_of c)) reqs)),
      of_nat (event_sum (batches (rejected_batch (limit_of c)) reqs)),
      of_nat (length (batches (accepted_batch (limit_of c)) reqs)),
      of_nat (length (batches (rejected_batch (limit_of c)) reqs)))"
proof -
  have "totals_view (controller_new c t) = (0, 0, 0, 0)" by (simp add: totals_view_def controller_new_def)
  with totals.view_run [of c "controller_new c t" hok reqs] totals_fold [of "limit_of c" reqs 0 0 0 0]
  show ?thesis by (simp add: serve_def)
qed

section \<open>What the status endpoint reports\<close>

text \<open>The status entry of an agent, from the requests served so far.\<close>

definition expected_status :: "int \<Rightarrow> nat \<Rightarrow> (int \<times> api_request) list \<Rightarrow> string \<Rightarrow> agent_status" where
  "expected_status now n reqs a =
     (let (t, h) = the (last_hello a reqs);
          beat = last_beat a reqs;
          sq = unwrap_or (map_option track_all (accepted_sequences n a reqs)) tracking_default
      in \<lparr>as_agent_id = a, as_node_name = hello_node_name h, as_tapio_version = hello_tapio_version h,
          as_registered_at_unix = unix_seconds t,
          as_last_heartbeat_age_seconds =
            map_option (\<lambda>(s, _). if s \<le> now then word_of_int ((now - s) div 1000000000) else 0) beat,
          as_reported_config_version = (case beat of None \<Rightarrow> [] | Some (_, b) \<Rightarrow> hb_config_version b),
          as_reported_counters =
            (case beat of None \<Rightarrow> zero_heartbeat_counters | Some (_, b) \<Rightarrow> hb_counters b),
          as_observers = (case beat of None \<Rightarrow> [] | Some (_, b) \<Rightarrow> hb_observers b),
          as_sequence = \<lparr>sq_last_seen = trk_last_seen sq, sq_gaps_total = trk_gaps_total sq,
            sq_regressions_total = trk_regressions_total sq\<rparr>\<rparr>)"

lemma agent_status_of_run:
  assumes "bt_get (ctl_agents (serve hok (controller_new c t) reqs)) a = Some r"
  shows "agent_status_of now (serve hok (controller_new c t) reqs) (a, r)
    = expected_status now (limit_of c) reqs a"
proof -
  let ?st = "serve hok (controller_new c t) reqs"
  have id: "hello_agent_id (ra_hello r) = a" using assms serve_inv unfolding server_inv_def by blast
  have h: "last_hello a reqs = Some (ra_registered_at r, ra_hello r)"
    using agents_of_run [of a hok c t reqs] assms by (simp add: agent_view_def)
  have b: "map_option (\<lambda>s. (sh_seen_at s, sh_heartbeat s)) (bt_get (ctl_last_heartbeats ?st) a) = last_beat a reqs"
    using beats_of_run [of a hok c t reqs] by (simp add: beat_view_def)
  show ?thesis
    unfolding agent_status_of_def expected_status_def b [symmetric] h sequences_of_run
    by (simp add: id Let_def duration_since_def if_distrib option.map_comp comp_def
        split: option.splits)
qed

lemma bt_keys_sorted: "bt_inv m \<Longrightarrow> bt_keys m = sorted_list_of_set (set (bt_keys m))"
  unfolding bt_inv_def bt_keys_def
  by (metis sorted_list_of_set.idem_if_sorted_distinct strict_sorted_iff)

text \<open>
  C5: after any run, the status response lists exactly the agents with an accepted hello, in the
  order of their ids, each with the data of its last hello and last valid heartbeat and the
  gap and regression counts of the sequence numbers accepted since that hello.
\<close>

theorem status_reports_run:
  "st_agents (controller_status now (serve hok (controller_new c t) reqs))
     = map (expected_status now (limit_of c) reqs) (sorted_list_of_set (registered_ids reqs))"
proof -
  let ?st = "serve hok (controller_new c t) reqs"
  have inv: "bt_inv (ctl_agents ?st)" using serve_inv by (simp add: server_inv_def)
  have "agent_status_of now ?st e = expected_status now (limit_of c) reqs (fst e)"
    if "e \<in> set (ctl_agents ?st)" for e
    using that agent_status_of_run [of hok c t reqs "fst e" "snd e" now] bt.entries_get [OF inv, of "fst e" "snd e"]
    by simp
  then have "st_agents (controller_status now ?st)
      = map (expected_status now (limit_of c) reqs) (bt_keys (ctl_agents ?st))"
    by (simp add: controller_status_def bt_keys_def)
  with bt_keys_sorted [OF inv] show ?thesis by (simp add: keys_of_run)
qed

text \<open>
  C8: the four totals of the status response are, modulo two to the 64, the events and batches
  of the accepted and of the rejected batch requests of the whole run.
\<close>

theorem totals_account_run:
  "st_totals (controller_status now (serve hok (controller_new c t) reqs)) =
     \<lparr>stt_accepted_events_total = of_nat (event_sum (batches (accepted_batch (limit_of c)) reqs)),
      stt_rejected_events_total = of_nat (event_sum (batches (rejected_batch (limit_of c)) reqs)),
      stt_batches_accepted_total = of_nat (length (batches (accepted_batch (limit_of c)) reqs)),
      stt_batches_rejected_total = of_nat (length (batches (rejected_batch (limit_of c)) reqs))\<rparr>"
  using totals_of_run [of hok c t reqs] by (simp add: controller_status_def totals_view_def)

text \<open>
  An agent is reported stale exactly when it registered and its last valid heartbeat, if
  there is one, is older than the maximal age or lies in the future of the clock.
\<close>

theorem stale_agents_iff:
  "a \<in> set (stale_agents now (serve hok (controller_new c t) reqs) max_age) \<longleftrightarrow>
     a \<in> registered_ids reqs \<and>
     (case last_beat a reqs of None \<Rightarrow> True | Some (s, _) \<Rightarrow> now < s \<or> max_age < now - s)"
  unfolding stale_agents_def set_filter keys_of_run beats_of_run [of a hok c t reqs, symmetric]
  by (auto simp: beat_view_def duration_since_def split: option.splits if_splits)

text \<open>
  An agent counts as unconverged exactly when it registered and its last valid heartbeat, if
  there is one, carries another configuration hash than the target.
\<close>

theorem unconverged_agents_iff:
  "a \<in> set (unconverged_agents (serve hok (controller_new c t) reqs) target) \<longleftrightarrow>
     a \<in> registered_ids reqs \<and>
     (case last_beat a reqs of None \<Rightarrow> True | Some (_, h) \<Rightarrow> hb_config_hash h \<noteq> target)"
  unfolding unconverged_agents_def set_filter keys_of_run beats_of_run [of a hok c t reqs, symmetric]
  by (auto simp: beat_view_def split: option.splits)

section \<open>Answers\<close>

definition ok_response :: "api_response \<Rightarrow> bool" where
  "ok_response r \<longleftrightarrow> resp_status r = 200"

lemma wire_error_status_not_ok [simp]: "wire_error_status e \<noteq> 200"
  by (cases e) simp_all

lemma events_status:
  "resp_status (fst (events_handler st (Decoded b))) =
     (case event_batch_request_validate b (batch_limit st) of
        Inr _ \<Rightarrow> 200 | Inl e \<Rightarrow> wire_error_status e)"
  by (simp add: events_handler_def json_payload_def finish_def record_event_batch_def
      commit_event_batch_def Let_def json_ok_def split: sum.splits)

text \<open>
  The batch limit a hello response advertises is the limit that every later events request
  is held to, whatever is served in between.
\<close>

theorem advertised_limit_enforced:
  assumes "fst (register_agent now st h) = Inr r"
  shows "resp_status (fst (events_handler (serve hok (snd (register_agent now st h)) reqs) (Decoded b))) = 200
    \<longleftrightarrow> event_batch_request_validate b (unat (hresp_max_batch_events r)) = Inr ()"
proof -
  let ?st = "snd (register_agent now st h)"
  have "ctl_config (serve hok st' reqs) = ctl_config st'" for st'
    unfolding serve_def by (induction reqs arbitrary: st') simp_all
  moreover have "ctl_config ?st = ctl_config st" by (simp add: register_agent_def split: sum.splits)
  moreover have "hresp_max_batch_events r = bat_max_batch_events (cfg_batching (ctl_config st))"
    using assms by (auto simp: register_agent_def hello_response_from_config_def split: sum.splits)
  ultimately have "batch_limit (serve hok ?st reqs) = unat (hresp_max_batch_events r)"
    by (simp add: batch_limit_def)
  then show ?thesis by (auto simp: events_status split: sum.splits)
qed

text \<open>
  The answer to a batch is 422 exactly when its envelope is valid and the first invalid event
  has a kernel type, an observer and a reasoning key somewhere below nested objects.
\<close>

theorem reasoning_answered_422:
  "resp_status (fst (events_handler st (Decoded b))) = 422 \<longleftrightarrow>
     batch_wire_version b = WIRE_VERSION \<and> \<not> blank (batch_agent_id b) \<and> \<not> blank (batch_node_name b)
     \<and> length (batch_events b) \<le> batch_limit st
     \<and> (\<exists>pre e post ks. batch_events b = pre @ e # post
          \<and> list_all (\<lambda>x. is_ok (wire_event_validate x)) pre
          \<and> starts_with (ev_type e) ''kernel.'' \<and> \<not> blank (ev_observer e)
          \<and> key_at (ev_facts e) ks \<and> is_reasoning_key (last ks))"
proof -
  have "wire_error_status e = 422 \<longleftrightarrow> (\<exists>f. e = ReasoningField f)" for e by (cases e) simp_all
  then have "resp_status (fst (events_handler st (Decoded b))) = 422 \<longleftrightarrow>
      (\<exists>f. event_batch_request_validate b (batch_limit st) = Inl (ReasoningField f))"
    by (auto simp: events_status split: sum.splits)
  then show ?thesis
    unfolding event_batch_reasoning wire_event_reasoning reasoning_at_def list_all_iff is_ok_unit by blast
qed

lemma serve_keeps_config [simp]: "ctl_config (serve hok st reqs) = ctl_config st"
  unfolding serve_def by (induction reqs arbitrary: st) simp_all

lemma trim_quoted: "trim (quoted_etag h) = quoted_etag h"
  by (rule trim_visible_ends) (simp_all add: quoted_etag_def visible_def)

text \<open>
  An agent that repeats the ETag of the configuration it got, as If-None-Match on the same
  query, is answered 304 with the same ETag and no body, whatever was served meanwhile.
\<close>

theorem config_etag_not_modified:
  assumes "config_handler hok st inm q = r" "resp_status r = 200" "resp_etag r = Some e"
  shows "config_handler hok (serve hok st reqs) (Some e) q
    = \<lparr>resp_status = 304, resp_etag = Some e, resp_body = EmptyBody\<rparr>"
proof -
  let ?tag = "quoted_etag (cfg_config_hash (ctl_config st))"
  obtain a n where q: "query_param q ''agent_id'' = Some a" "query_param q ''node_name'' = Some n"
      and c: "config_for st a n = Inr (ctl_config st)"
    using assms(1,2) by (auto simp: config_handler_def config_for_def split: option.splits sum.splits if_splits)
  with assms have e: "e = ?tag" "hok ?tag"
    by (auto simp: config_handler_def insert_etag_def json_ok_def Let_def split: if_splits)
  have "config_for (serve hok st reqs) a n = Inr (ctl_config st)"
    using c by (simp add: config_for_def split: if_splits)
  with q e show ?thesis
    by (simp add: config_handler_def if_none_match_matches_def trim_quoted insert_etag_def Let_def)
qed

text \<open>
  The controller accepts every valid heartbeat, registered or not, and never registers the
  sender by it; so after a restart an agent that only sends heartbeats is accepted each
  time and still absent from the status.
\<close>

theorem heartbeat_needs_no_registration:
  assumes "heartbeat_request_validate hb = Inr ()"
  shows "fst (route hok now st (PostHeartbeat (Decoded hb)))
      = json_ok (HeartbeatBody \<lparr>hbresp_wire_version = WIRE_VERSION, hbresp_accepted = True,
          hbresp_next_config_version = cfg_version (ctl_config st)\<rparr>)
    \<and> map as_agent_id (st_agents (controller_status t' (snd (route hok now st (PostHeartbeat (Decoded hb))))))
      = map as_agent_id (st_agents (controller_status t' st))"
  using assms
  by (simp add: heartbeat_handler_def json_payload_def finish_def record_heartbeat_def
      heartbeat_response_accepted_def controller_status_def agent_status_of_def Let_def split_def)

text \<open>
  In every state the controller reaches, the configuration is the one it was started with,
  each registry is in strict key order, each stored hello and heartbeat is valid and filed
  under its own agent id, and every registered agent has sequence tracking.
\<close>

theorem controller_invariant: "server_inv c (serve hok (controller_new c t) reqs)"
  by (rule serve_inv)

text \<open>
  The two lock sections of an events request act as one: whatever requests are served
  between reading the limit and committing the batch, the outcome is that of processing the
  batch in one step after them.
\<close>

theorem batch_limit_read_is_stable:
  "commit_event_batch (batch_limit st) (serve hok st reqs) b = record_event_batch (serve hok st reqs) b"
  by (simp add: record_event_batch_def batch_limit_def)

section \<open>Sample requests\<close>

definition sample_hello :: hello_request where
  "sample_hello =
     \<lparr>hello_wire_version = WIRE_VERSION, hello_agent_id = ''agent-1'', hello_node_name = ''node-1'',
      hello_tapio_version = ''0.1.0'', hello_kernel_release = ''6.8.0'', hello_arch = ''x86_64'',
      hello_capabilities = [], hello_object_sizes = [], hello_map_counts = []\<rparr>"

definition sample_heartbeat :: heartbeat_request where
  "sample_heartbeat =
     \<lparr>hb_wire_version = WIRE_VERSION, hb_agent_id = ''agent-1'', hb_node_name = ''node-1'',
      hb_config_version = ''1'', hb_config_hash = ''h'', hb_uptime_seconds = 5,
      hb_observers = [(''network'', Running)], hb_counters = zero_heartbeat_counters,
      hb_degraded_reasons = []\<rparr>"

definition sample_state :: controller_state where
  "sample_state = controller_new config_default_v1 0"

lemma not_blank_letters:
  "visible c \<Longrightarrow> \<not> blank (c # s)"
  by (rule visible_not_blank [of c]) simp_all

lemma visible_letters [simp]:
  "visible (CHR ''a'')" "visible (CHR ''n'')" "visible (CHR ''0'')" "visible (CHR ''1'')"
  "visible (CHR ''6'')" "visible (CHR ''x'')" "visible (CHR ''h'')"
  by (simp_all add: visible_def)

lemma sample_hello_valid: "hello_request_validate sample_hello = Inr ()"
  by (simp add: hello_request_ok sample_hello_def not_blank_letters)

lemma sample_heartbeat_valid: "heartbeat_request_validate sample_heartbeat = Inr ()"
  by (simp add: heartbeat_request_ok sample_heartbeat_def not_blank_letters)

lemma sample_register:
  "fst (register_agent 0 sample_state sample_hello)
     = Inr (hello_response_from_config CONTROLLER_ID config_default_v1)"
  by (simp add: register_agent_def sample_hello_valid sample_state_def controller_new_def)

lemma advertised_limit_enforced_witness:
  "\<forall>b. resp_status (fst (events_handler (serve (\<lambda>_. True) (snd (register_agent 0 sample_state sample_hello)) [])
     (Decoded b))) = 200 \<longleftrightarrow> event_batch_request_validate b 256 = Inr ()"
  using advertised_limit_enforced [OF sample_register, of "\<lambda>_. True" "[]"]
  by (simp add: hello_response_from_config_def config_default_v1_def)

lemma heartbeat_needs_no_registration_witness:
  "agent_count (snd (route (\<lambda>_. True) 7 sample_state (PostHeartbeat (Decoded sample_heartbeat)))) = 0
   \<and> resp_status (fst (route (\<lambda>_. True) 7 sample_state (PostHeartbeat (Decoded sample_heartbeat)))) = 200"
  using heartbeat_needs_no_registration
    [OF sample_heartbeat_valid, of "\<lambda>_. True" 7 sample_state 8]
  by (simp add: json_ok_def controller_status_def agent_count_def sample_state_def controller_new_def
      del: route.simps)

definition sample_query :: string where
  "sample_query = ''agent_id=agent-1&node_name=node-1''"

lemma sample_config:
  "config_handler (\<lambda>_. True) sample_state None (Some sample_query) =
     \<lparr>resp_status = 200, resp_etag = Some (quoted_etag []), resp_body = ConfigBody config_default_v1\<rparr>"
proof -
  have "query_param (Some sample_query) ''agent_id'' = Some ''agent-1''"
    "query_param (Some sample_query) ''node_name'' = Some ''node-1''"
    by code_simp+
  moreover have "config_for sample_state ''agent-1'' ''node-1'' = Inr config_default_v1"
    using not_blank_letters [of "CHR ''a''"] not_blank_letters [of "CHR ''n''"]
    by (simp add: config_for_def blank_def sample_state_def controller_new_def)
  ultimately show ?thesis
    by (simp add: config_handler_def if_none_match_matches_def insert_etag_def json_ok_def
        config_default_v1_def)
qed

lemma config_etag_not_modified_witness:
  "resp_status (config_handler (\<lambda>_. True) (serve (\<lambda>_. True) sample_state [(1, GetStatus)])
     (Some (quoted_etag [])) (Some sample_query)) = 304"
  using config_etag_not_modified [OF sample_config, of "quoted_etag []" "[(1, GetStatus)]"] by simp

end
