(* ===== verification/Bytes.thy ===== *)
theory Bytes
  imports Numbers
begin

text \<open>
  Memory as the kernel programs fill it and the agent reads it: little-endian integers at
  fixed offsets of a byte buffer, UTF-8 validity of a byte slice, and the contract of a
  struct layout (\<open>byte_codec\<close>): what is decoded from an encoded struct is that struct,
  whatever follows it in the buffer.
\<close>

fun le_bytes :: "nat \<Rightarrow> nat \<Rightarrow> string" where
  "le_bytes 0 n = []"
| "le_bytes (Suc k) n = char_of (n mod 256) # le_bytes k (n div 256)"

fun le_val :: "string \<Rightarrow> nat" where
  "le_val [] = 0"
| "le_val (b # bs) = of_char b + 256 * le_val bs"

lemma length_le_bytes [simp]: "length (le_bytes k n) = k"
  by (induction k arbitrary: n) auto

lemma le_val_le_bytes [simp]: "le_val (le_bytes k n) = n mod 256 ^ k"
proof (induction k arbitrary: n)
  case (Suc k)
  have "(of_char (char_of (n mod 256) :: char) :: nat) = n mod 256" by simp
  with Suc show ?case by (simp add: mod_mult2_eq)
qed simp

text \<open>The integer fields of a struct: the bytes of a word, and the word at an offset.\<close>

definition put_le :: "'a::len word \<Rightarrow> string" where
  "put_le w = le_bytes (LENGTH('a) div 8) (unat w)"

definition slice :: "nat \<Rightarrow> nat \<Rightarrow> string \<Rightarrow> string" where
  "slice off n bs = take n (drop off bs)"

definition get_le :: "nat \<Rightarrow> string \<Rightarrow> 'a::len word" where
  "get_le off bs = word_of_nat (le_val (slice off (LENGTH('a) div 8) bs))"

lemma length_put_le [simp]: "length (put_le (w :: 'a::len word)) = LENGTH('a) div 8"
  by (simp add: put_le_def)

lemma slice_skip [simp]: "length xs \<le> off \<Longrightarrow> slice off n (xs @ ys) = slice (off - length xs) n ys"
  by (simp add: slice_def)

lemma slice_head [simp]: "length xs = n \<Longrightarrow> slice 0 n (xs @ ys) = xs"
  by (simp add: slice_def)

lemma get_le_skip [simp]: "length xs \<le> off \<Longrightarrow> get_le off (xs @ ys) = get_le (off - length xs) ys"
  by (simp add: get_le_def)

lemma get_put_le:
  assumes "LENGTH('a) = 8 * k"
  shows "get_le 0 (put_le (w :: 'a::len word) @ ys) = w"
proof -
  have "unat w < 2 ^ (8 * k)" using unsigned_less [of w, where 'a = nat] assms by simp
  then have "unat w < 256 ^ k" by (simp add: power_mult)
  with assms show ?thesis by (simp add: get_le_def put_le_def)
qed

lemma get_put_words [simp]:
  "get_le 0 (put_le (a :: u8) @ ys) = a" "get_le 0 (put_le (b :: u16) @ ys) = b"
  "get_le 0 (put_le (c :: u32) @ ys) = c" "get_le 0 (put_le (d :: u64) @ ys) = d"
  by (simp_all add: get_put_le [where k = 1] get_put_le [where k = 2] get_put_le [where k = 4]
      get_put_le [where k = 8])

text \<open>Arrays of words.\<close>

definition put_array :: "'a::len word list \<Rightarrow> string" where
  "put_array ws = concat (map put_le ws)"

fun get_array :: "nat \<Rightarrow> nat \<Rightarrow> string \<Rightarrow> 'a::len word list" where
  "get_array 0 off bs = []"
| "get_array (Suc n) off bs = (get_le off bs :: 'a word) # get_array n (off + LENGTH('a) div 8) bs"

lemma length_put_array [simp]: "length (put_array (ws :: 'a::len word list)) = length ws * (LENGTH('a) div 8)"
  by (induction ws) (simp_all add: put_array_def)

lemma get_array_skip [simp]:
  "length xs \<le> off \<Longrightarrow>
     (get_array n off (xs @ ys) :: 'a::len word list) = get_array n (off - length xs) ys"
proof (induction n arbitrary: off)
  case (Suc n)
  let ?d = "LENGTH('a) div 8"
  have "(get_array n (off + ?d) (xs @ ys) :: 'a word list) = get_array n (off + ?d - length xs) ys"
    using Suc.prems by (intro Suc.IH) simp
  also have "off + ?d - length xs = off - length xs + ?d" using Suc.prems by linarith
  finally show ?case using Suc.prems by simp
qed simp

lemma get_put_array_gen: "get_array (length ws) 0 (put_array (ws :: u32 list) @ ys) = ws"
proof (induction ws)
  case (Cons w ws)
  then show ?case by (simp add: put_array_def)
qed (simp add: put_array_def)

lemma get_put_array [simp]:
  "length ws = n \<Longrightarrow> get_array n 0 (put_array (ws :: u32 list) @ ys) = ws"
  using get_put_array_gen by auto

section \<open>The contract of a struct layout\<close>

locale byte_codec =
  fixes size :: nat
    and encode :: "'s \<Rightarrow> string"
    and decode :: "string \<Rightarrow> 's"
    and well_sized :: "'s \<Rightarrow> bool"
  assumes encode_size: "well_sized s \<Longrightarrow> length (encode s) = size"
    and decode_encode: "well_sized s \<Longrightarrow> decode (encode s @ rest) = s"
begin

text \<open>\<open>read_unaligned\<close> of the struct behind a length check.\<close>

definition read_struct :: "string \<Rightarrow> 's option" where
  "read_struct bs = (if length bs < size then None else Some (decode bs))"

lemma read_encoded: "well_sized s \<Longrightarrow> read_struct (encode s @ rest) = Some s"
  by (simp add: read_struct_def encode_size decode_encode)

lemma encode_inj: "well_sized s \<Longrightarrow> well_sized t \<Longrightarrow> encode s = encode t \<Longrightarrow> s = t"
  by (metis append_Nil2 decode_encode)

lemma read_short: "length bs < size \<Longrightarrow> read_struct bs = None"
  by (simp add: read_struct_def)

end

section \<open>UTF-8\<close>

definition in_range :: "nat \<Rightarrow> nat \<Rightarrow> char \<Rightarrow> bool" where
  "in_range lo hi c \<longleftrightarrow> lo \<le> of_char c \<and> of_char c \<le> hi"

definition is_cont :: "char \<Rightarrow> bool" where
  "is_cont = in_range 0x80 0xBF"

text \<open>\<open>std::str::from_utf8(bytes).is_ok()\<close>.\<close>

fun utf8_valid :: "string \<Rightarrow> bool" where
  "utf8_valid [] = True"
| "utf8_valid (a # s) =
     (if in_range 0 0x7F a then utf8_valid s
      else case s of
        [] \<Rightarrow> False
      | b # s1 \<Rightarrow>
          if in_range 0xC2 0xDF a then is_cont b \<and> utf8_valid s1
          else (case s1 of
            [] \<Rightarrow> False
          | c # s2 \<Rightarrow>
              if a = char_of (0xE0 :: nat) then in_range 0xA0 0xBF b \<and> is_cont c \<and> utf8_valid s2
              else if a = char_of (0xED :: nat) then in_range 0x80 0x9F b \<and> is_cont c \<and> utf8_valid s2
              else if in_range 0xE1 0xEF a then is_cont b \<and> is_cont c \<and> utf8_valid s2
              else (case s2 of
                [] \<Rightarrow> False
              | d # s3 \<Rightarrow>
                  is_cont c \<and> is_cont d \<and> utf8_valid s3 \<and>
                  (if a = char_of (0xF0 :: nat) then in_range 0x90 0xBF b
                   else if in_range 0xF1 0xF3 a then is_cont b
                   else a = char_of (0xF4 :: nat) \<and> in_range 0x80 0x8F b))))"

lemma utf8_ascii: "list_all (in_range 0 0x7F) s \<Longrightarrow> utf8_valid s"
  by (induction s) auto

text \<open>A NUL-terminated C string in a fixed array: the bytes before the first NUL.\<close>

definition c_str :: "string \<Rightarrow> string" where
  "c_str bs = (let s = takeWhile (\<lambda>b. b \<noteq> CHR 0x00) bs
               in if utf8_valid s then s else ''<invalid>'')"

lemma c_str_no_nul: "CHR 0x00 \<notin> set (c_str bs)"
  by (auto simp: c_str_def Let_def dest: set_takeWhileD)

lemma c_str_terminated:
  "CHR 0x00 \<notin> set s \<Longrightarrow> utf8_valid s \<Longrightarrow> c_str (s @ CHR 0x00 # rest) = s"
proof -
  assume "CHR 0x00 \<notin> set s" "utf8_valid s"
  moreover from this(1) have "takeWhile (\<lambda>b. b \<noteq> CHR 0x00) (s @ CHR 0x00 # rest) = s"
    by (induction s) auto
  ultimately show ?thesis unfolding c_str_def by (simp only: Let_def if_True)
qed

end
