(* ===== verification/Ebpf.thy ===== *)
theory Ebpf
  imports Bytes F64
begin

text \<open>
  \<open>tapio-common/src/ebpf.rs\<close>: the structs shared with the kernel programs, a record per
  struct, with their byte layout (the offsets of the C definitions) and the methods of the
  Rust side. \<open>comm\<close> and addresses are byte arrays, kept as strings of bytes.
\<close>

section \<open>Constants\<close>

definition AF_INET :: u16 where "AF_INET = 2"
definition AF_INET6 :: u16 where "AF_INET6 = 10"
definition NET_EVENT_STATE_CHANGE :: u8 where "NET_EVENT_STATE_CHANGE = 0"
definition NET_EVENT_RST_RECEIVED :: u8 where "NET_EVENT_RST_RECEIVED = 1"
definition NET_EVENT_RETRANSMIT :: u8 where "NET_EVENT_RETRANSMIT = 2"
definition NET_EVENT_RTT_SPIKE :: u8 where "NET_EVENT_RTT_SPIKE = 3"
definition CONTAINER_EVENT_OOM :: u32 where "CONTAINER_EVENT_OOM = 0"
definition CONTAINER_EVENT_EXIT :: u32 where "CONTAINER_EVENT_EXIT = 1"
definition TCP_ESTABLISHED :: u16 where "TCP_ESTABLISHED = 1"
definition TCP_SYN_SENT :: u16 where "TCP_SYN_SENT = 2"
definition TCP_SYN_RECV :: u16 where "TCP_SYN_RECV = 3"
definition TCP_FIN_WAIT1 :: u16 where "TCP_FIN_WAIT1 = 4"
definition TCP_FIN_WAIT2 :: u16 where "TCP_FIN_WAIT2 = 5"
definition TCP_TIME_WAIT :: u16 where "TCP_TIME_WAIT = 6"
definition TCP_CLOSE :: u16 where "TCP_CLOSE = 7"
definition TCP_CLOSE_WAIT :: u16 where "TCP_CLOSE_WAIT = 8"
definition TCP_LAST_ACK :: u16 where "TCP_LAST_ACK = 9"
definition TCP_LISTEN :: u16 where "TCP_LISTEN = 10"
definition OP_READ :: u8 where "OP_READ = 0"
definition OP_WRITE :: u8 where "OP_WRITE = 1"
definition STORAGE_SEVERITY_NORMAL :: u8 where "STORAGE_SEVERITY_NORMAL = 0"
definition STORAGE_SEVERITY_WARNING :: u8 where "STORAGE_SEVERITY_WARNING = 1"
definition STORAGE_SEVERITY_CRITICAL :: u8 where "STORAGE_SEVERITY_CRITICAL = 2"
definition TAPIO_CONFIG_ABI_VERSION :: u32 where "TAPIO_CONFIG_ABI_VERSION = 2"
definition TAPIO_F_NETWORK :: u64 where "TAPIO_F_NETWORK = push_bit 0 1"
definition TAPIO_F_STORAGE :: u64 where "TAPIO_F_STORAGE = push_bit 1 1"
definition TAPIO_F_CONTAINER :: u64 where "TAPIO_F_CONTAINER = push_bit 2 1"
definition TAPIO_F_NODE_PMC :: u64 where "TAPIO_F_NODE_PMC = push_bit 3 1"
definition TAPIO_CONFIG_MAX_IGNORE_EXIT_CODES :: nat where
  "TAPIO_CONFIG_MAX_IGNORE_EXIT_CODES = 16"

lemmas abi_constants =
  AF_INET_def AF_INET6_def NET_EVENT_STATE_CHANGE_def NET_EVENT_RST_RECEIVED_def
  NET_EVENT_RETRANSMIT_def NET_EVENT_RTT_SPIKE_def CONTAINER_EVENT_OOM_def CONTAINER_EVENT_EXIT_def
  TCP_ESTABLISHED_def TCP_SYN_SENT_def TCP_SYN_RECV_def TCP_FIN_WAIT1_def TCP_FIN_WAIT2_def
  TCP_TIME_WAIT_def TCP_CLOSE_def TCP_CLOSE_WAIT_def TCP_LAST_ACK_def TCP_LISTEN_def
  OP_READ_def OP_WRITE_def STORAGE_SEVERITY_NORMAL_def STORAGE_SEVERITY_WARNING_def
  STORAGE_SEVERITY_CRITICAL_def

lemmas flag_constants =
  TAPIO_F_NETWORK_def TAPIO_F_STORAGE_def TAPIO_F_CONTAINER_def TAPIO_F_NODE_PMC_def

section \<open>Structs\<close>

record tapio_config =
  tc_abi_version :: u32
  tc_generation :: u32
  tc_flags :: u64
  tc_slow_io_threshold_ns :: u64
  tc_io_latency_critical_ns :: u64
  tc_conn_refused_window_ns :: u64
  tc_conn_refused_min_count :: u32
  tc_rtt_spike_multiplier :: u32
  tc_rtt_spike_abs_us :: u32
  tc_rtt_min_baseline_samples :: u32
  tc_ignore_exit_count :: u32
  tc_ignore_exit_codes :: "i32 list"
  tc_pad :: u32

record network_event =
  ne_config_generation :: u32
  ne_pid :: u32
  ne_src_ip :: u32
  ne_dst_ip :: u32
  ne_src_ipv6 :: string
  ne_dst_ipv6 :: string
  ne_src_port :: u16
  ne_dst_port :: u16
  ne_family :: u16
  ne_protocol :: u8
  ne_event_type :: u8
  ne_old_state :: u16
  ne_new_state :: u16
  ne_rtt_baseline_ms :: u16
  ne_rtt_current_ms :: u16
  ne_total_retrans :: u16
  ne_snd_cwnd :: u16
  ne_comm :: string

record container_event =
  ce_config_generation :: u32
  ce_memory_limit :: u64
  ce_memory_usage :: u64
  ce_timestamp_ns :: u64
  ce_cgroup_id :: u64
  ce_event_type :: u32
  ce_pid :: u32
  ce_tid :: u32
  ce_exit_code :: i32
  ce_signal :: i32

record storage_event =
  se_config_generation :: u32
  se_pad0 :: u32
  se_timestamp_ns :: u64
  se_latency_ns :: u64
  se_cgroup_id :: u64
  se_sector :: u64
  se_dev_major :: u32
  se_dev_minor :: u32
  se_bytes :: u32
  se_pid :: u32
  se_error_code :: i32
  se_opcode :: u8
  se_severity :: u8
  se_comm :: string
  se_pad :: string

record pmc_event =
  pe_config_generation :: u32
  pe_cpu :: u32
  pe_cycles :: u64
  pe_instructions :: u64
  pe_stall_cycles :: u64
  pe_timestamp :: u64

section \<open>Layout\<close>

definition tapio_config_encode :: "tapio_config \<Rightarrow> string" where
  "tapio_config_encode s =
     put_le (tc_abi_version s) @ put_le (tc_generation s) @ put_le (tc_flags s)
     @ put_le (tc_slow_io_threshold_ns s) @ put_le (tc_io_latency_critical_ns s)
     @ put_le (tc_conn_refused_window_ns s) @ put_le (tc_conn_refused_min_count s)
     @ put_le (tc_rtt_spike_multiplier s) @ put_le (tc_rtt_spike_abs_us s)
     @ put_le (tc_rtt_min_baseline_samples s) @ put_le (tc_ignore_exit_count s)
     @ put_array (tc_ignore_exit_codes s) @ put_le (tc_pad s)"

definition tapio_config_decode :: "string \<Rightarrow> tapio_config" where
  "tapio_config_decode bs =
     \<lparr>tc_abi_version = get_le 0 bs, tc_generation = get_le 4 bs, tc_flags = get_le 8 bs,
      tc_slow_io_threshold_ns = get_le 16 bs, tc_io_latency_critical_ns = get_le 24 bs,
      tc_conn_refused_window_ns = get_le 32 bs, tc_conn_refused_min_count = get_le 40 bs,
      tc_rtt_spike_multiplier = get_le 44 bs, tc_rtt_spike_abs_us = get_le 48 bs,
      tc_rtt_min_baseline_samples = get_le 52 bs, tc_ignore_exit_count = get_le 56 bs,
      tc_ignore_exit_codes = get_array 16 60 bs, tc_pad = get_le 124 bs\<rparr>"

definition tapio_config_sized :: "tapio_config \<Rightarrow> bool" where
  "tapio_config_sized s \<longleftrightarrow> length (tc_ignore_exit_codes s) = 16"

definition network_event_encode :: "network_event \<Rightarrow> string" where
  "network_event_encode s =
     put_le (ne_config_generation s) @ put_le (ne_pid s) @ put_le (ne_src_ip s)
     @ put_le (ne_dst_ip s) @ ne_src_ipv6 s @ ne_dst_ipv6 s @ put_le (ne_src_port s)
     @ put_le (ne_dst_port s) @ put_le (ne_family s) @ put_le (ne_protocol s)
     @ put_le (ne_event_type s) @ put_le (ne_old_state s) @ put_le (ne_new_state s)
     @ put_le (ne_rtt_baseline_ms s) @ put_le (ne_rtt_current_ms s)
     @ put_le (ne_total_retrans s) @ put_le (ne_snd_cwnd s) @ ne_comm s"

definition network_event_decode :: "string \<Rightarrow> network_event" where
  "network_event_decode bs =
     \<lparr>ne_config_generation = get_le 0 bs, ne_pid = get_le 4 bs, ne_src_ip = get_le 8 bs,
      ne_dst_ip = get_le 12 bs, ne_src_ipv6 = slice 16 16 bs, ne_dst_ipv6 = slice 32 16 bs,
      ne_src_port = get_le 48 bs, ne_dst_port = get_le 50 bs, ne_family = get_le 52 bs,
      ne_protocol = get_le 54 bs, ne_event_type = get_le 55 bs, ne_old_state = get_le 56 bs,
      ne_new_state = get_le 58 bs, ne_rtt_baseline_ms = get_le 60 bs,
      ne_rtt_current_ms = get_le 62 bs, ne_total_retrans = get_le 64 bs,
      ne_snd_cwnd = get_le 66 bs, ne_comm = slice 68 16 bs\<rparr>"

definition network_event_sized :: "network_event \<Rightarrow> bool" where
  "network_event_sized s \<longleftrightarrow> length (ne_src_ipv6 s) = 16 \<and> length (ne_dst_ipv6 s) = 16 \<and> length (ne_comm s) = 16"

definition container_event_encode :: "container_event \<Rightarrow> string" where
  "container_event_encode s =
     put_le (ce_config_generation s) @ put_le (ce_memory_limit s)
     @ put_le (ce_memory_usage s) @ put_le (ce_timestamp_ns s) @ put_le (ce_cgroup_id s)
     @ put_le (ce_event_type s) @ put_le (ce_pid s) @ put_le (ce_tid s)
     @ put_le (ce_exit_code s) @ put_le (ce_signal s)"

definition container_event_decode :: "string \<Rightarrow> container_event" where
  "container_event_decode bs =
     \<lparr>ce_config_generation = get_le 0 bs, ce_memory_limit = get_le 4 bs,
      ce_memory_usage = get_le 12 bs, ce_timestamp_ns = get_le 20 bs,
      ce_cgroup_id = get_le 28 bs, ce_event_type = get_le 36 bs, ce_pid = get_le 40 bs,
      ce_tid = get_le 44 bs, ce_exit_code = get_le 48 bs, ce_signal = get_le 52 bs\<rparr>"

definition container_event_sized :: "container_event \<Rightarrow> bool" where
  "container_event_sized s \<longleftrightarrow> True"

definition storage_event_encode :: "storage_event \<Rightarrow> string" where
  "storage_event_encode s =
     put_le (se_config_generation s) @ put_le (se_pad0 s) @ put_le (se_timestamp_ns s)
     @ put_le (se_latency_ns s) @ put_le (se_cgroup_id s) @ put_le (se_sector s)
     @ put_le (se_dev_major s) @ put_le (se_dev_minor s) @ put_le (se_bytes s)
     @ put_le (se_pid s) @ put_le (se_error_code s) @ put_le (se_opcode s)
     @ put_le (se_severity s) @ se_comm s @ se_pad s"

definition storage_event_decode :: "string \<Rightarrow> storage_event" where
  "storage_event_decode bs =
     \<lparr>se_config_generation = get_le 0 bs, se_pad0 = get_le 4 bs, se_timestamp_ns = get_le 8 bs,
      se_latency_ns = get_le 16 bs, se_cgroup_id = get_le 24 bs, se_sector = get_le 32 bs,
      se_dev_major = get_le 40 bs, se_dev_minor = get_le 44 bs, se_bytes = get_le 48 bs,
      se_pid = get_le 52 bs, se_error_code = get_le 56 bs, se_opcode = get_le 60 bs,
      se_severity = get_le 61 bs, se_comm = slice 62 16 bs, se_pad = slice 78 2 bs\<rparr>"

definition storage_event_sized :: "storage_event \<Rightarrow> bool" where
  "storage_event_sized s \<longleftrightarrow> length (se_comm s) = 16 \<and> length (se_pad s) = 2"

definition pmc_event_encode :: "pmc_event \<Rightarrow> string" where
  "pmc_event_encode s =
     put_le (pe_config_generation s) @ put_le (pe_cpu s) @ put_le (pe_cycles s)
     @ put_le (pe_instructions s) @ put_le (pe_stall_cycles s) @ put_le (pe_timestamp s)"

definition pmc_event_decode :: "string \<Rightarrow> pmc_event" where
  "pmc_event_decode bs =
     \<lparr>pe_config_generation = get_le 0 bs, pe_cpu = get_le 4 bs, pe_cycles = get_le 8 bs,
      pe_instructions = get_le 16 bs, pe_stall_cycles = get_le 24 bs,
      pe_timestamp = get_le 32 bs\<rparr>"

definition pmc_event_sized :: "pmc_event \<Rightarrow> bool" where
  "pmc_event_sized s \<longleftrightarrow> True"

interpretation cfg_abi: byte_codec 128 tapio_config_encode tapio_config_decode tapio_config_sized
  by unfold_locales (auto simp: tapio_config_encode_def tapio_config_decode_def tapio_config_sized_def)

interpretation net_abi: byte_codec 84 network_event_encode network_event_decode network_event_sized
  by unfold_locales (auto simp: network_event_encode_def network_event_decode_def network_event_sized_def)

interpretation con_abi: byte_codec 56 container_event_encode container_event_decode container_event_sized
  by unfold_locales (auto simp: container_event_encode_def container_event_decode_def container_event_sized_def)

interpretation sto_abi: byte_codec 80 storage_event_encode storage_event_decode storage_event_sized
  by unfold_locales (auto simp: storage_event_encode_def storage_event_decode_def storage_event_sized_def)

interpretation pmc_abi: byte_codec 40 pmc_event_encode pmc_event_decode pmc_event_sized
  by unfold_locales (auto simp: pmc_event_encode_def pmc_event_decode_def pmc_event_sized_def)

section \<open>Methods\<close>

unbundle bit_operations_syntax

definition tapio_config_default :: tapio_config where
  "tapio_config_default =
     \<lparr>tc_abi_version = 0, tc_generation = 0, tc_flags = 0, tc_slow_io_threshold_ns = 0,
      tc_io_latency_critical_ns = 0, tc_conn_refused_window_ns = 0, tc_conn_refused_min_count = 0,
      tc_rtt_spike_multiplier = 0, tc_rtt_spike_abs_us = 0, tc_rtt_min_baseline_samples = 0,
      tc_ignore_exit_count = 0, tc_ignore_exit_codes = replicate 16 0, tc_pad = 0\<rparr>"

definition has_valid_abi :: "tapio_config \<Rightarrow> bool" where
  "has_valid_abi c \<longleftrightarrow> tc_abi_version c = TAPIO_CONFIG_ABI_VERSION"

definition observer_enabled :: "tapio_config \<Rightarrow> u64 \<Rightarrow> bool" where
  "observer_enabled c flag \<longleftrightarrow> has_valid_abi c \<and> (tc_flags c AND flag) \<noteq> 0"

definition ne_comm_str :: "network_event \<Rightarrow> string" where
  "ne_comm_str e = c_str (ne_comm e)"

definition is_ipv6 :: "network_event \<Rightarrow> bool" where
  "is_ipv6 e \<longleftrightarrow> ne_family e = AF_INET6"

definition ipv4_str :: "u32 \<Rightarrow> string" where
  "ipv4_str ip =
     dec (unat (ip AND 0xFF)) @ ''.'' @ dec (unat (drop_bit 8 ip AND 0xFF)) @ ''.''
     @ dec (unat (drop_bit 16 ip AND 0xFF)) @ ''.'' @ dec (unat (drop_bit 24 ip AND 0xFF))"

text \<open>\<open>Ipv6Addr::from(bytes).to_string()\<close> of the standard library.\<close>

fun segments :: "string \<Rightarrow> nat list" where
  "segments (a # b # s) = (256 * of_char a + of_char b) # segments s"
| "segments _ = []"

fun hex :: "nat \<Rightarrow> string" where
  "hex n = (let d = (if n mod 16 < 10 then digit (n mod 16) else char_of (87 + n mod 16))
            in if n < 16 then [d] else hex (n div 16) @ [d])"

declare hex.simps [simp del]

text \<open>The first longest run of zero segments, as start and length.\<close>

fun longest_zeroes :: "nat list \<Rightarrow> nat \<Rightarrow> nat \<times> nat \<Rightarrow> nat \<times> nat \<Rightarrow> nat \<times> nat" where
  "longest_zeroes [] i cur longest = longest"
| "longest_zeroes (s # ss) i cur longest =
     (if s = 0 then
        (let cur' = (if snd cur = 0 then i else fst cur, snd cur + 1)
         in longest_zeroes ss (i + 1) cur' (if snd cur' > snd longest then cur' else longest))
      else longest_zeroes ss (i + 1) (0, 0) longest)"

definition join_hex :: "nat list \<Rightarrow> string" where
  "join_hex ss = (case ss of [] \<Rightarrow> [] | s # t \<Rightarrow> hex s @ concat (map (\<lambda>x. '':'' @ hex x) t))"

definition format_ipv6 :: "string \<Rightarrow> string" where
  "format_ipv6 b =
     (let ss = segments b in
      if take 6 ss = [0, 0, 0, 0, 0, 0xFFFF]
      then ''::ffff:'' @ dec (of_char (b ! 12)) @ ''.'' @ dec (of_char (b ! 13)) @ ''.''
             @ dec (of_char (b ! 14)) @ ''.'' @ dec (of_char (b ! 15))
      else (let (start, len) = longest_zeroes ss 0 (0, 0) (0, 0)
            in if len > 1 then join_hex (take start ss) @ ''::'' @ join_hex (drop (start + len) ss)
               else join_hex ss))"

definition src_ipv4_str :: "network_event \<Rightarrow> string" where "src_ipv4_str e = ipv4_str (ne_src_ip e)"
definition dst_ipv4_str :: "network_event \<Rightarrow> string" where "dst_ipv4_str e = ipv4_str (ne_dst_ip e)"
definition src_ipv6_str :: "network_event \<Rightarrow> string" where "src_ipv6_str e = format_ipv6 (ne_src_ipv6 e)"
definition dst_ipv6_str :: "network_event \<Rightarrow> string" where "dst_ipv6_str e = format_ipv6 (ne_dst_ipv6 e)"

definition src_ip_str :: "network_event \<Rightarrow> string" where
  "src_ip_str e = (if is_ipv6 e then src_ipv6_str e else src_ipv4_str e)"

definition dst_ip_str :: "network_event \<Rightarrow> string" where
  "dst_ip_str e = (if is_ipv6 e then dst_ipv6_str e else dst_ipv4_str e)"

definition is_oom :: "container_event \<Rightarrow> bool" where
  "is_oom e \<longleftrightarrow> ce_event_type e = CONTAINER_EVENT_OOM"

definition is_exit :: "container_event \<Rightarrow> bool" where
  "is_exit e \<longleftrightarrow> ce_event_type e = CONTAINER_EVENT_EXIT"

definition se_comm_str :: "storage_event \<Rightarrow> string" where
  "se_comm_str e = c_str (se_comm e)"

definition latency_ms :: "storage_event \<Rightarrow> f64" where
  "latency_ms e = fdiv (f64_of_u64 (se_latency_ns e)) (Fin 1000000)"

definition has_error :: "storage_event \<Rightarrow> bool" where
  "has_error e \<longleftrightarrow> se_error_code e \<noteq> 0"

definition ipc :: "pmc_event \<Rightarrow> f64" where
  "ipc e = (if pe_cycles e = 0 then Fin 0
            else fdiv (f64_of_u64 (pe_instructions e)) (f64_of_u64 (pe_cycles e)))"

definition stall_pct :: "pmc_event \<Rightarrow> f64" where
  "stall_pct e = (if pe_cycles e = 0 then Fin 0
     else fmul (fdiv (f64_of_u64 (pe_stall_cycles e)) (f64_of_u64 (pe_cycles e))) (Fin 100))"

end
