(* ===== verification/AgentConfig.thy ===== *)
theory AgentConfig
  imports Ebpf Wire
begin

text \<open>
  \<open>tapio-agent/src/config.rs\<close>: the agent's own configuration file, and the translation of a
  compiled configuration from the controller into the struct the kernel programs read and
  the thresholds of the PMC observer. TOML parsing and file access are parameters.
\<close>

unbundle bit_operations_syntax

section \<open>The configuration file\<close>

record thresholds =
  th_stall_pct_warning :: f64
  th_stall_pct_critical :: f64
  th_ipc_degradation :: f64
  th_rtt_spike_ratio :: u64
  th_rtt_spike_abs_us :: u64
  th_io_latency_warning_ns :: u64
  th_io_latency_critical_ns :: u64

record metrics_config =
  mc_enabled :: bool
  mc_port :: u16
  mc_bind_address :: string

record otlp_config =
  oc_endpoint :: string
  oc_auth_header :: "string option"
  oc_batch_size :: u64
  oc_flush_interval_secs :: u64

record agent_config =
  ac_thresholds :: thresholds
  ac_metrics :: metrics_config
  ac_otlp :: otlp_config

definition thresholds_default :: thresholds where
  "thresholds_default =
     \<lparr>th_stall_pct_warning = Fin 20, th_stall_pct_critical = Fin 40, th_ipc_degradation = Fin 1,
      th_rtt_spike_ratio = 2, th_rtt_spike_abs_us = 500000, th_io_latency_warning_ns = 50000000,
      th_io_latency_critical_ns = 200000000\<rparr>"

definition metrics_default :: metrics_config where
  "metrics_default = \<lparr>mc_enabled = False, mc_port = 9090, mc_bind_address = ''127.0.0.1''\<rparr>"

definition otlp_default :: otlp_config where
  "otlp_default = \<lparr>oc_endpoint = ''http://localhost:4318'', oc_auth_header = None,
     oc_batch_size = 100, oc_flush_interval_secs = 5\<rparr>"

definition agent_config_default :: agent_config where
  "agent_config_default = \<lparr>ac_thresholds = thresholds_default, ac_metrics = metrics_default,
     ac_otlp = otlp_default\<rparr>"

datatype ('io, 'toml) load_error = ReadConfig 'io | ParseConfig 'toml | BadAuthHeader

definition validate_auth_header :: "string option \<Rightarrow> ('io, 'toml) load_error + unit" where
  "validate_auth_header header =
     (case header of
        None \<Rightarrow> Inr ()
      | Some value \<Rightarrow>
          if list_ex (\<lambda>c. c \<in> set [CHR 0x0D, CHR 0x0A, CHR 0x00]) value
          then Inl BadAuthHeader else Inr ())"

text \<open>\<open>file\<close> is \<open>None\<close> when the path does not exist.\<close>

definition load_agent_config ::
  "('io + string) option \<Rightarrow> (string \<Rightarrow> 'toml + agent_config) \<Rightarrow> ('io, 'toml) load_error + agent_config" where
  "load_agent_config file from_toml =
     (case file of
        None \<Rightarrow> Inr agent_config_default
      | Some content \<Rightarrow>
          and_then (map_sum ReadConfig id content) (\<lambda>txt.
          and_then (map_sum ParseConfig id (from_toml txt)) (\<lambda>config.
          and_then (validate_auth_header (oc_auth_header (ac_otlp config))) (\<lambda>_. Inr config))))"

definition u32_clamp :: "u64 \<Rightarrow> u32" where
  "u32_clamp x = ucast (min x 0xFFFFFFFF)"

definition thresholds_tapio_config :: "thresholds \<Rightarrow> tapio_config" where
  "thresholds_tapio_config t =
     \<lparr>tc_abi_version = TAPIO_CONFIG_ABI_VERSION, tc_generation = 1,
      tc_flags = TAPIO_F_NETWORK OR TAPIO_F_STORAGE OR TAPIO_F_CONTAINER OR TAPIO_F_NODE_PMC,
      tc_slow_io_threshold_ns = th_io_latency_warning_ns t,
      tc_io_latency_critical_ns = th_io_latency_critical_ns t,
      tc_conn_refused_window_ns = 0, tc_conn_refused_min_count = 0,
      tc_rtt_spike_multiplier = u32_clamp (th_rtt_spike_ratio t),
      tc_rtt_spike_abs_us = u32_clamp (th_rtt_spike_abs_us t),
      tc_rtt_min_baseline_samples = 5, tc_ignore_exit_count = 0,
      tc_ignore_exit_codes = replicate TAPIO_CONFIG_MAX_IGNORE_EXIT_CODES 0, tc_pad = 0\<rparr>"

definition agent_tapio_config :: "agent_config \<Rightarrow> tapio_config" where
  "agent_tapio_config c = thresholds_tapio_config (ac_thresholds c)"

section \<open>Compiled configurations\<close>

datatype compiled_config_error = InvalidGeneration string

text \<open>The loop over \<open>ignore_exit_codes.iter_mut().zip(codes)\<close>.\<close>

fun fill_codes :: "i32 list \<Rightarrow> i32 list \<Rightarrow> i32 list" where
  "fill_codes (slot # slots) (code # codes) = code # fill_codes slots codes"
| "fill_codes slots _ = slots"

definition set_flag :: "bool \<Rightarrow> u64 \<Rightarrow> u64 \<Rightarrow> u64" where
  "set_flag on flag flags = (if on then flags OR flag else flags)"

definition tapio_config_from_compiled ::
  "compiled_config \<Rightarrow> string \<Rightarrow> compiled_config_error + tapio_config" where
  "tapio_config_from_compiled config generation =
     (case parse_uint (2 ^ 32) generation of
        None \<Rightarrow> Inl (InvalidGeneration generation)
      | Some g \<Rightarrow>
          (let flags = set_flag (cp_enabled (comp_node_pmc config)) TAPIO_F_NODE_PMC
                 (set_flag (cc_enabled (comp_container config)) TAPIO_F_CONTAINER
                 (set_flag (cs_enabled (comp_storage config)) TAPIO_F_STORAGE
                 (set_flag (cn_enabled (comp_network config)) TAPIO_F_NETWORK 0)));
               codes = cc_ignore_exit_codes (comp_container config)
           in Inr
             \<lparr>tc_abi_version = TAPIO_CONFIG_ABI_VERSION, tc_generation = word_of_nat g,
              tc_flags = flags,
              tc_slow_io_threshold_ns = cs_slow_io_warning_ns (comp_storage config),
              tc_io_latency_critical_ns = cs_slow_io_critical_ns (comp_storage config),
              tc_conn_refused_window_ns = cn_conn_refused_window_ns (comp_network config),
              tc_conn_refused_min_count = cn_conn_refused_min_count (comp_network config),
              tc_rtt_spike_multiplier = cn_rtt_spike_ratio (comp_network config),
              tc_rtt_spike_abs_us = cn_rtt_spike_abs_us (comp_network config),
              tc_rtt_min_baseline_samples = cn_rtt_min_baseline_samples (comp_network config),
              tc_ignore_exit_count = word_of_nat (min (length codes) TAPIO_CONFIG_MAX_IGNORE_EXIT_CODES),
              tc_ignore_exit_codes =
                fill_codes (replicate TAPIO_CONFIG_MAX_IGNORE_EXIT_CODES 0) codes,
              tc_pad = 0\<rparr>))"

text \<open>\<open>PmcThresholds\<close> of \<open>observer/node_pmc.rs\<close>.\<close>

record pmc_thresholds =
  pt_stall_pct_warning :: f64
  pt_stall_pct_critical :: f64
  pt_ipc_degradation :: f64

definition pmc_thresholds_from_compiled :: "compiled_config \<Rightarrow> pmc_thresholds" where
  "pmc_thresholds_from_compiled config =
     \<lparr>pt_stall_pct_warning = fdiv (f64_of_u32 (cp_stall_warning_permille (comp_node_pmc config))) (Fin 10),
      pt_stall_pct_critical = fdiv (f64_of_u32 (cp_stall_critical_permille (comp_node_pmc config))) (Fin 10),
      pt_ipc_degradation = fdiv (f64_of_u32 (cp_ipc_degradation_milli (comp_node_pmc config))) (Fin 1000)\<rparr>"

section \<open>Lemmas\<close>

lemma fill_codes_eq: "fill_codes slots codes = take (length slots) codes @ drop (length codes) slots"
  by (induction slots codes rule: fill_codes.induct) auto

lemma fill_codes_length [simp]: "length (fill_codes slots codes) = length slots"
  by (simp add: fill_codes_eq)

lemma flag_bit: "k < 64 \<Longrightarrow> (x :: u64) AND push_bit k 1 \<noteq> 0 \<longleftrightarrow> bit x k"
  by (simp only: push_bit_of_1 and_exp_eq_0_iff_not_bit not_not)

lemma bit_set_flag: "j < 64 \<Longrightarrow> bit (set_flag on (push_bit j 1) x) k \<longleftrightarrow> bit x k \<or> on \<and> j = k"
  by (auto simp: set_flag_def bit_or_iff push_bit_of_1 bit_exp_iff)

lemma flag_bits:
  assumes "flags = set_flag p TAPIO_F_NODE_PMC (set_flag c TAPIO_F_CONTAINER
      (set_flag s TAPIO_F_STORAGE (set_flag n TAPIO_F_NETWORK 0)))"
  shows "flags AND TAPIO_F_NETWORK \<noteq> 0 \<longleftrightarrow> n" "flags AND TAPIO_F_STORAGE \<noteq> 0 \<longleftrightarrow> s"
    "flags AND TAPIO_F_CONTAINER \<noteq> 0 \<longleftrightarrow> c" "flags AND TAPIO_F_NODE_PMC \<noteq> 0 \<longleftrightarrow> p"
  unfolding assms flag_constants by (simp_all only: flag_bit bit_set_flag) auto

lemma from_compiled_ok:
  assumes "tapio_config_from_compiled config gen = Inr t"
  shows "tc_abi_version t = TAPIO_CONFIG_ABI_VERSION"
    and "parse_uint (2 ^ 32) gen = Some (unat (tc_generation t))"
    and "tc_ignore_exit_codes t = fill_codes (replicate 16 0) (cc_ignore_exit_codes (comp_container config))"
    and "unat (tc_ignore_exit_count t) = min (length (cc_ignore_exit_codes (comp_container config))) 16"
    and "tapio_config_sized t"
proof -
  from assms obtain g where g: "parse_uint (2 ^ 32) gen = Some g"
    by (auto simp: tapio_config_from_compiled_def split: option.splits)
  then have lt: "g < 2 ^ 32" by (rule parse_uint_bound)
  note t = assms [unfolded tapio_config_from_compiled_def g Let_def, simplified, symmetric]
  show "tc_abi_version t = TAPIO_CONFIG_ABI_VERSION" by (simp add: t)
  show "parse_uint (2 ^ 32) gen = Some (unat (tc_generation t))"
    using g lt by (simp add: t unsigned_of_nat take_bit_nat_eq_self)
  show c: "tc_ignore_exit_codes t = fill_codes (replicate 16 0) (cc_ignore_exit_codes (comp_container config))"
    by (simp add: t TAPIO_CONFIG_MAX_IGNORE_EXIT_CODES_def)
  show "unat (tc_ignore_exit_count t) = min (length (cc_ignore_exit_codes (comp_container config))) 16"
    by (simp add: t TAPIO_CONFIG_MAX_IGNORE_EXIT_CODES_def unsigned_of_nat take_bit_nat_eq_self)
  show "tapio_config_sized t" by (simp add: tapio_config_sized_def c)
qed

section \<open>Properties\<close>

lemma translation_facts:
  assumes "tapio_config_from_compiled config gen = Inr t"
  shows "parse_uint (2 ^ 32) gen = Some (unat (tc_generation t))
     \<and> (observer_enabled t TAPIO_F_NETWORK \<longleftrightarrow> cn_enabled (comp_network config))
     \<and> (observer_enabled t TAPIO_F_STORAGE \<longleftrightarrow> cs_enabled (comp_storage config))
     \<and> (observer_enabled t TAPIO_F_CONTAINER \<longleftrightarrow> cc_enabled (comp_container config))
     \<and> (observer_enabled t TAPIO_F_NODE_PMC \<longleftrightarrow> cp_enabled (comp_node_pmc config))
     \<and> take (unat (tc_ignore_exit_count t)) (tc_ignore_exit_codes t)
         = take 16 (cc_ignore_exit_codes (comp_container config))
     \<and> drop (unat (tc_ignore_exit_count t)) (tc_ignore_exit_codes t)
         = replicate (16 - unat (tc_ignore_exit_count t)) 0
     \<and> cfg_abi.read_struct (tapio_config_encode t @ rest) = Some t"
proof -
  note ok = from_compiled_ok [OF assms]
  define codes where "codes = cc_ignore_exit_codes (comp_container config)"
  have fl: "tc_flags t = set_flag (cp_enabled (comp_node_pmc config)) TAPIO_F_NODE_PMC
                 (set_flag (cc_enabled (comp_container config)) TAPIO_F_CONTAINER
                 (set_flag (cs_enabled (comp_storage config)) TAPIO_F_STORAGE
                 (set_flag (cn_enabled (comp_network config)) TAPIO_F_NETWORK 0)))"
    using assms by (auto simp: tapio_config_from_compiled_def Let_def split: option.splits)
  have en: "observer_enabled t f \<longleftrightarrow> tc_flags t AND f \<noteq> 0" for f
    using ok(1) by (simp add: observer_enabled_def has_valid_abi_def)
  have codes_eq: "tc_ignore_exit_codes t = take 16 codes @ replicate (16 - length codes) 0"
    using ok(3) by (simp add: fill_codes_eq codes_def)
  have "take (unat (tc_ignore_exit_count t)) (tc_ignore_exit_codes t) = take 16 codes"
    "drop (unat (tc_ignore_exit_count t)) (tc_ignore_exit_codes t)
       = replicate (16 - unat (tc_ignore_exit_count t)) 0"
    unfolding codes_eq ok(4) by (auto simp: codes_def min_def)
  then show ?thesis
    using ok(2) flag_bits [OF fl] cfg_abi.read_encoded [OF ok(5), of rest]
    unfolding en codes_def by blast
qed

text \<open>
  A translated configuration carries the generation number of the version string, enables in
  the kernel exactly the observers the controller enabled, and exposes through its count and
  array exactly the first sixteen ignored exit codes, with zeroes behind them; the kernel
  reads back the same struct from the bytes the agent writes.
\<close>

theorem translated_config_faithful:
  assumes "tapio_config_from_compiled config gen = Inr t"
  shows "parse_uint (2 ^ 32) gen = Some (unat (tc_generation t))
     \<and> (observer_enabled t TAPIO_F_NETWORK \<longleftrightarrow> cn_enabled (comp_network config))
     \<and> (observer_enabled t TAPIO_F_STORAGE \<longleftrightarrow> cs_enabled (comp_storage config))
     \<and> (observer_enabled t TAPIO_F_CONTAINER \<longleftrightarrow> cc_enabled (comp_container config))
     \<and> (observer_enabled t TAPIO_F_NODE_PMC \<longleftrightarrow> cp_enabled (comp_node_pmc config))
     \<and> take (unat (tc_ignore_exit_count t)) (tc_ignore_exit_codes t)
         = take 16 (cc_ignore_exit_codes (comp_container config))
     \<and> drop (unat (tc_ignore_exit_count t)) (tc_ignore_exit_codes t)
         = replicate (16 - unat (tc_ignore_exit_count t)) 0
     \<and> cfg_abi.read_struct (tapio_config_encode t @ rest) = Some t"
  by (rule translation_facts [OF assms])

lemma translated_config_faithful_witness:
  "case tapio_config_from_compiled (cfg_config config_default_v1) ''1'' of
     Inl _ \<Rightarrow> False | Inr t \<Rightarrow> observer_enabled t TAPIO_F_NODE_PMC"
proof -
  have "dec 1 = ''1''" by code_simp
  moreover have "parse_uint (2 ^ 32) (dec 1) = Some 1" by (rule parse_uint_dec) simp
  ultimately have "parse_uint (2 ^ 32) ''1'' = Some 1" by (simp only:)
  then obtain t where t: "tapio_config_from_compiled (cfg_config config_default_v1) ''1'' = Inr t"
    by (simp add: tapio_config_from_compiled_def Let_def)
  with translated_config_faithful [OF t] show ?thesis by (simp add: config_default_v1_def)
qed

text \<open>
  The all-zero configuration that the kernel map holds before the first write enables no
  observer, whatever flag is asked for.
\<close>

theorem zero_config_is_inert: "\<not> observer_enabled tapio_config_default flag"
  by (simp add: observer_enabled_def has_valid_abi_def tapio_config_default_def TAPIO_CONFIG_ABI_VERSION_def)

text \<open>
  The standalone configuration written from the agent's own file enables all four observers
  and never wraps an oversized round-trip threshold: values above 32 bits are clamped.
\<close>

theorem standalone_config_clamps:
  "observer_enabled (agent_tapio_config c) TAPIO_F_NETWORK
   \<and> observer_enabled (agent_tapio_config c) TAPIO_F_STORAGE
   \<and> observer_enabled (agent_tapio_config c) TAPIO_F_CONTAINER
   \<and> observer_enabled (agent_tapio_config c) TAPIO_F_NODE_PMC
   \<and> unat (tc_rtt_spike_multiplier (agent_tapio_config c))
       = min (unat (th_rtt_spike_ratio (ac_thresholds c))) (2 ^ 32 - 1)
   \<and> unat (tc_rtt_spike_abs_us (agent_tapio_config c))
       = min (unat (th_rtt_spike_abs_us (ac_thresholds c))) (2 ^ 32 - 1)"
proof -
  have clamp: "unat (u32_clamp x) = min (unat x) (2 ^ 32 - 1)" for x
  proof (cases "x \<le> 0xFFFFFFFF")
    case True
    then have le: "unat x \<le> 4294967295" by (simp add: word_le_nat_alt)
    with True show ?thesis by (simp add: u32_clamp_def unsigned_ucast_eq take_bit_nat_eq_self min_absorb1)
  next
    case False
    then have "4294967295 < unat x" by (simp add: word_less_nat_alt word_le_nat_alt)
    with False show ?thesis by (simp add: u32_clamp_def min_def)
  qed
  show ?thesis
    by (simp add: agent_tapio_config_def thresholds_tapio_config_def observer_enabled_def
        has_valid_abi_def flag_constants clamp)
qed

end
