(* ===== verification/Carriers.thy ===== *)
theory Carriers
  imports Ebpf Simulation
begin

text \<open>
  \<open>tapio-agent/src/observer/mod.rs\<close>: the registry of the kernel maps that carry the runtime
  configuration. The lock protects the registry only; the map writes happen after it is
  released. So there are two models: the operations run to completion one after another,
  and their lock sections and writes as separate steps of concurrent threads. A map is a
  file descriptor; which writes the kernel accepts is a parameter.
\<close>

record config_carrier =
  cr_observer :: string
  cr_map_fd :: nat

record carrier_state =
  crs_carriers :: "config_carrier list"
  crs_current :: "tapio_config option"
  crs_maps :: "nat \<Rightarrow> tapio_config option"  \<comment> \<open>the contents of the kernel maps\<close>

definition bpf_map_update ::
  "(nat \<Rightarrow> bool) \<Rightarrow> nat \<Rightarrow> tapio_config \<Rightarrow> carrier_state \<Rightarrow> bool \<times> carrier_state" where
  "bpf_map_update accepts fd config st =
     (if accepts fd then (True, st\<lparr>crs_maps := (crs_maps st)(fd \<mapsto> config)\<rparr>) else (False, st))"

section \<open>Operations one at a time\<close>

definition carrier_register ::
  "(nat \<Rightarrow> bool) \<Rightarrow> string \<Rightarrow> nat \<Rightarrow> carrier_state \<Rightarrow> carrier_state" where
  "carrier_register accepts obs map_fd st =
     (let st1 = st\<lparr>crs_carriers := crs_carriers st @ [\<lparr>cr_observer = obs, cr_map_fd = map_fd\<rparr>]\<rparr>
      in case crs_current st1 of
           None \<Rightarrow> st1
         | Some config \<Rightarrow> snd (bpf_map_update accepts map_fd config st1))"

fun write_all ::
  "(nat \<Rightarrow> bool) \<Rightarrow> tapio_config \<Rightarrow> config_carrier list \<Rightarrow> carrier_state \<Rightarrow> string list \<times> carrier_state" where
  "write_all accepts config [] st = ([], st)"
| "write_all accepts config (c # cs) st =
     (let (ok, st1) = bpf_map_update accepts (cr_map_fd c) config st;
          (failed, st2) = write_all accepts config cs st1
      in (if ok then failed else cr_observer c # failed, st2))"

definition carrier_update_all ::
  "(nat \<Rightarrow> bool) \<Rightarrow> tapio_config \<Rightarrow> carrier_state \<Rightarrow> string list \<times> carrier_state" where
  "carrier_update_all accepts config st =
     (let st1 = st\<lparr>crs_current := Some config\<rparr>
      in write_all accepts config (crs_carriers st1) st1)"

text \<open>\<open>map_fd\<close> is \<open>None\<close> when the program has no \<open>tapio_config\<close> map.\<close>

definition init_and_register_tapio_config ::
  "(nat \<Rightarrow> bool) \<Rightarrow> string \<Rightarrow> nat option \<Rightarrow> tapio_config \<Rightarrow> carrier_state \<Rightarrow> bool \<times> carrier_state" where
  "init_and_register_tapio_config accepts obs map_fd config st =
     (case map_fd of
        None \<Rightarrow> (False, st)
      | Some fd \<Rightarrow>
          (let (ok, st1) = bpf_map_update accepts fd config st
           in if ok then (True, carrier_register accepts obs fd st1) else (False, st1)))"

definition carriers_empty :: carrier_state where
  "carriers_empty = \<lparr>crs_carriers = [], crs_current = None, crs_maps = (\<lambda>_. None)\<rparr>"

datatype carrier_op = StartObserver string "nat option" tapio_config | Publish tapio_config

fun carrier_exec :: "(nat \<Rightarrow> bool) \<Rightarrow> carrier_op \<Rightarrow> carrier_state \<Rightarrow> carrier_state" where
  "carrier_exec accepts (StartObserver obs fd config) st =
     snd (init_and_register_tapio_config accepts obs fd config st)"
| "carrier_exec accepts (Publish config) st = snd (carrier_update_all accepts config st)"

lemma write_all_maps:
  "crs_maps (snd (write_all accepts config cs st)) =
     (\<lambda>fd. if fd \<in> cr_map_fd ` set cs \<and> accepts fd then Some config else crs_maps st fd)"
  "crs_carriers (snd (write_all accepts config cs st)) = crs_carriers st"
  "crs_current (snd (write_all accepts config cs st)) = crs_current st"
  "fst (write_all accepts config cs st) = map cr_observer (filter (\<lambda>c. \<not> accepts (cr_map_fd c)) cs)"
  by (induction cs arbitrary: st)
    (auto simp: bpf_map_update_def Let_def split_def fun_eq_iff)

text \<open>Every registered carrier that accepts writes holds the published configuration.\<close>

definition converged :: "(nat \<Rightarrow> bool) \<Rightarrow> carrier_state \<Rightarrow> bool" where
  "converged accepts st \<longleftrightarrow>
     list_all (\<lambda>c. accepts (cr_map_fd c) \<longrightarrow>
         (case crs_current st of None \<Rightarrow> crs_maps st (cr_map_fd c) \<noteq> None
          | Some config \<Rightarrow> crs_maps st (cr_map_fd c) = Some config))
       (crs_carriers st)"

text \<open>Descriptors are not reused while an observer holds its map.\<close>

definition fresh_op :: "carrier_op \<Rightarrow> carrier_state \<Rightarrow> bool" where
  "fresh_op op st =
     (case op of
        StartObserver _ (Some fd) _ \<Rightarrow> fd \<notin> cr_map_fd ` set (crs_carriers st)
      | _ \<Rightarrow> True)"

lemma converged_step:
  assumes "converged accepts st" "fresh_op op st"
  shows "converged accepts (carrier_exec accepts op st)"
proof (cases op)
  case (Publish config)
  then show ?thesis
    by (auto simp: carrier_update_all_def converged_def write_all_maps list_all_iff)
next
  case (StartObserver obs mfd config)
  show ?thesis
  proof (cases mfd)
    case None
    then show ?thesis using assms StartObserver by (simp add: init_and_register_tapio_config_def)
  next
    case (Some fd)
    then have "fd \<notin> cr_map_fd ` set (crs_carriers st)"
      using assms(2) StartObserver by (simp add: fresh_op_def)
    then show ?thesis
      using assms(1) Some StartObserver
      by (cases "crs_current st"; cases "accepts fd")
        (auto simp: init_and_register_tapio_config_def carrier_register_def bpf_map_update_def
          converged_def list_all_iff)
  qed
qed

fun fresh_ops :: "(nat \<Rightarrow> bool) \<Rightarrow> carrier_op list \<Rightarrow> carrier_state \<Rightarrow> bool" where
  "fresh_ops accepts [] st = True"
| "fresh_ops accepts (op # ops) st = (fresh_op op st \<and> fresh_ops accepts ops (carrier_exec accepts op st))"

lemma converged_run:
  "converged accepts st \<Longrightarrow> fresh_ops accepts ops st \<Longrightarrow> converged accepts (fold (carrier_exec accepts) ops st)"
  by (induction ops arbitrary: st) (simp_all add: converged_step)

section \<open>Threads\<close>

text \<open>
  A state with the writes that threads have still to make: each thread is the list of its
  remaining writes, in order.
\<close>

record thread_state = carrier_state +
  ths_pending :: "(nat \<times> tapio_config) list list"
  ths_known :: "tapio_config list"  \<comment> \<open>every configuration passed in so far\<close>

inductive thread_step :: "thread_state \<Rightarrow> thread_state \<Rightarrow> bool" where
  init_map: "thread_step st (st\<lparr>crs_maps := (crs_maps st)(fd \<mapsto> config), ths_known := config # ths_known st\<rparr>)"
| lock_register:
    "thread_step st
       (st\<lparr>crs_carriers := crs_carriers st @ [\<lparr>cr_observer = obs, cr_map_fd = fd\<rparr>],
          ths_pending := ths_pending st @ [case crs_current st of None \<Rightarrow> [] | Some c \<Rightarrow> [(fd, c)]]\<rparr>)"
| lock_update:
    "thread_step st
       (st\<lparr>crs_current := Some config, ths_known := config # ths_known st,
          ths_pending := ths_pending st @ [map (\<lambda>c. (cr_map_fd c, config)) (crs_carriers st)]\<rparr>)"
| map_write:
    "i < length (ths_pending st) \<Longrightarrow> ths_pending st ! i = (fd, c) # ws \<Longrightarrow>
     thread_step st (st\<lparr>crs_maps := (crs_maps st)(fd \<mapsto> c), ths_pending := (ths_pending st)[i := ws]\<rparr>)"

inductive thread_reach :: "thread_state \<Rightarrow> thread_state \<Rightarrow> bool" for st0 where
  start: "thread_reach st0 st0"
| step: "thread_reach st0 st \<Longrightarrow> thread_step st st' \<Longrightarrow> thread_reach st0 st'"

definition threads_empty :: thread_state where
  "threads_empty = \<lparr>crs_carriers = [], crs_current = None, crs_maps = (\<lambda>_. None),
     ths_pending = [], ths_known = []\<rparr>"

text \<open>What a map can hold at any time.\<close>

definition known_inv :: "thread_state \<Rightarrow> bool" where
  "known_inv st \<longleftrightarrow>
     ran (crs_maps st) \<subseteq> set (ths_known st)
     \<and> set_option (crs_current st) \<subseteq> set (ths_known st)
     \<and> (\<forall>ws\<in>set (ths_pending st). \<forall>w\<in>set ws. snd w \<in> set (ths_known st))"

lemma known_step: "thread_step st st' \<Longrightarrow> known_inv st \<Longrightarrow> known_inv st'"
proof (induction rule: thread_step.induct)
  case (init_map st fd config)
  then show ?case by (auto simp: known_inv_def ran_def split: if_splits)
next
  case (lock_register st obs fd)
  then show ?case by (fastforce simp: known_inv_def split: option.splits)
next
  case (lock_update st config)
  then show ?case by (auto simp: known_inv_def)
next
  case (map_write i st fd c ws)
  then have mem: "(fd, c) # ws \<in> set (ths_pending st)" by (metis nth_mem)
  then have "c \<in> set (ths_known st)" "\<forall>w\<in>set ws. snd w \<in> set (ths_known st)"
    using map_write(3) unfolding known_inv_def by force+
  moreover have "\<forall>w\<in>set ws'. snd w \<in> set (ths_known st)" if "ws' \<in> set ((ths_pending st)[i := ws])" for ws'
  proof -
    from that set_update_subset_insert [of "ths_pending st" i ws] have "ws' = ws \<or> ws' \<in> set (ths_pending st)"
      by auto
    with calculation(2) map_write(3) show ?thesis unfolding known_inv_def by blast
  qed
  moreover have "ran ((crs_maps st)(fd \<mapsto> c)) \<subseteq> insert c (ran (crs_maps st))"
    by (auto simp: ran_def)
  ultimately show ?case using map_write(3) unfolding known_inv_def by auto
qed

lemma known_reach: "thread_reach threads_empty st \<Longrightarrow> known_inv st"
proof (induction rule: thread_reach.induct)
  case start
  then show ?case by (simp add: threads_empty_def known_inv_def)
next
  case (step st st')
  then show ?case by (blast intro: known_step)
qed

text \<open>All threads have made their writes.\<close>

definition quiescent :: "thread_state \<Rightarrow> bool" where
  "quiescent st \<longleftrightarrow> list_all (\<lambda>ws. ws = []) (ths_pending st)"

section \<open>Properties\<close>


definition generation_config :: "u32 \<Rightarrow> tapio_config" where
  "generation_config g = tapio_config_default\<lparr>tc_abi_version := TAPIO_CONFIG_ABI_VERSION, tc_generation := g\<rparr>"


text \<open>
  In every interleaving of the lock sections and the writes, a kernel map holds nothing but a
  configuration that was passed in by some thread.
\<close>

theorem maps_hold_known_configs:
  assumes "thread_reach threads_empty st" "crs_maps st fd = Some c"
  shows "c \<in> set (ths_known st)"
  using known_reach [OF assms(1)] assms(2) by (auto simp: known_inv_def ran_def)

lemma maps_hold_known_configs_witness:
  "generation_config 1 \<in> set (ths_known (threads_empty
     \<lparr>crs_maps := [3 \<mapsto> generation_config 1], ths_known := [generation_config 1]\<rparr>))"
proof -
  have "thread_reach threads_empty (threads_empty
      \<lparr>crs_maps := [3 \<mapsto> generation_config 1], ths_known := [generation_config 1]\<rparr>)"
    using thread_reach.step [OF thread_reach.start init_map [where st = threads_empty and fd = 3 and config = "generation_config 1"]]
    by (simp add: threads_empty_def)
  from maps_hold_known_configs [OF this, of 3 "generation_config 1"] show ?thesis by simp
qed

text \<open>
  An observer that registers while a newer configuration is published can end up with the older
  one for good: for any two configurations there is an interleaving after which all writes
  are done, the newer one is current, and the map of the late observer holds the older one.
\<close>

theorem late_register_race:
  "\<exists>st. thread_reach threads_empty st \<and> quiescent st \<and> crs_current st = Some newer
     \<and> \<lparr>cr_observer = obs, cr_map_fd = fd\<rparr> \<in> set (crs_carriers st) \<and> crs_maps st fd = Some older"
proof -
  let ?c = "\<lparr>cr_observer = obs, cr_map_fd = fd\<rparr>"
  let ?s1 = "threads_empty\<lparr>crs_current := Some older, ths_known := [older], ths_pending := [[]]\<rparr>"
  let ?s2 = "?s1\<lparr>crs_carriers := [?c], ths_pending := [[], [(fd, older)]]\<rparr>"
  let ?s3 = "?s2\<lparr>crs_current := Some newer, ths_known := [newer, older],
      ths_pending := [[], [(fd, older)], [(fd, newer)]]\<rparr>"
  let ?s4 = "?s3\<lparr>crs_maps := (\<lambda>_. None)(fd \<mapsto> newer), ths_pending := [[], [(fd, older)], []]\<rparr>"
  let ?s5 = "?s4\<lparr>crs_maps := ((\<lambda>_. None)(fd \<mapsto> newer))(fd \<mapsto> older), ths_pending := [[], [], []]\<rparr>"
  have a1: "thread_step threads_empty ?s1"
    using lock_update [of threads_empty older] by (simp add: threads_empty_def)
  have a2: "thread_step ?s1 ?s2"
    using lock_register [of ?s1 fd obs] by (simp add: threads_empty_def)
  have a3: "thread_step ?s2 ?s3"
    using lock_update [of ?s2 newer] by (simp add: threads_empty_def)
  have a4: "thread_step ?s3 ?s4"
    using map_write [of 2 ?s3 fd newer "[]"] by (simp add: threads_empty_def)
  have a5: "thread_step ?s4 ?s5"
    using map_write [of 1 ?s4 fd older "[]"] by (simp add: threads_empty_def)
  note reach = thread_reach.step [OF thread_reach.step [OF thread_reach.step [OF thread_reach.step
    [OF thread_reach.step [OF thread_reach.start a1] a2] a3] a4] a5]
  moreover have "quiescent ?s5" by (simp add: quiescent_def)
  ultimately show ?thesis by (intro exI [of _ ?s5]) simp
qed

end
