(* ===== verification/Metrics.thy ===== *)
theory Metrics
  imports Btree Numbers Bytes
begin

text \<open>
  \<open>tapio-agent/src/metrics.rs\<close>: the agent's labelled counters, their text exposition and the
  loop that answers scrapes. Counters wrap at 64 bits, as the release build computes.
\<close>

record counter_vec =
  cv_name :: string
  cv_help :: string
  cv_labels :: "string list"
  cv_values :: "(string list, u64) btree"

record tapio_metrics =
  m_events_total :: counter_vec
  m_anomalies_total :: counter_vec
  m_lost_events_total :: counter_vec
  m_malformed_events_total :: counter_vec
  m_correlation_drops_total :: counter_vec
  m_drain_cap_total :: counter_vec
  m_sink_writes_total :: counter_vec
  m_sink_drops_total :: counter_vec
  m_controller_send_failures_total :: counter_vec
  m_config_fetch_total :: counter_vec

definition counter_vec_new :: "string \<Rightarrow> string \<Rightarrow> string list \<Rightarrow> counter_vec" where
  "counter_vec_new name help labels =
     \<lparr>cv_name = name, cv_help = help, cv_labels = labels, cv_values = []\<rparr>"

definition metrics_new :: tapio_metrics where
  "metrics_new =
     \<lparr>m_events_total = counter_vec_new ''tapio_events_total''
        ''Total events drained from ring buffer'' [''observer''],
      m_anomalies_total = counter_vec_new ''tapio_anomalies_total''
        ''Total anomalies detected and emitted'' [''observer'', ''anomaly_type''],
      m_lost_events_total = counter_vec_new ''tapio_lost_events_total''
        ''Ring buffer reserve failures in eBPF (events dropped)'' [''observer''],
      m_malformed_events_total = counter_vec_new ''tapio_malformed_events_total''
        ''Malformed or truncated eBPF records dropped by userspace'' [''observer''],
      m_correlation_drops_total = counter_vec_new ''tapio_correlation_drops_total''
        ''Events intentionally dropped because kernel correlation was ambiguous'' [''observer'', ''reason''],
      m_drain_cap_total = counter_vec_new ''tapio_drain_cap_total''
        ''Times ring buffer drain hit the per-tick cap'' [''observer''],
      m_sink_writes_total = counter_vec_new ''tapio_sink_writes_total''
        ''Total sink write attempts by result'' [''sink'', ''result''],
      m_sink_drops_total = counter_vec_new ''tapio_sink_drops_total''
        ''Total sink events dropped by sink and reason'' [''sink'', ''reason''],
      m_controller_send_failures_total = counter_vec_new ''tapio_controller_send_failures_total''
        ''Controller send failures by request kind'' [''kind''],
      m_config_fetch_total = counter_vec_new ''tapio_config_fetch_total''
        ''Controller config poll attempts by result'' [''result'']\<rparr>"

section \<open>Counters\<close>

definition cv_value :: "counter_vec \<Rightarrow> string list \<Rightarrow> u64" where
  "cv_value cv label_values = unwrap_or (bt_get (cv_values cv) label_values) 0"

definition inc_by :: "string list \<Rightarrow> u64 \<Rightarrow> counter_vec \<Rightarrow> counter_vec" where
  "inc_by label_values n cv =
     cv\<lparr>cv_values := bt_insert label_values (cv_value cv label_values + n) (cv_values cv)\<rparr>"

definition inc :: "string list \<Rightarrow> counter_vec \<Rightarrow> counter_vec" where
  "inc label_values cv = inc_by label_values 1 cv"

definition cv_sum :: "counter_vec \<Rightarrow> u64" where
  "cv_sum cv = sum_list (map snd (cv_values cv))"

definition cv_inv :: "counter_vec \<Rightarrow> bool" where
  "cv_inv cv \<longleftrightarrow> bt_inv (cv_values cv)"

lemma inc_value: "cv_inv cv \<Longrightarrow> cv_value (inc_by ls n cv) ms = cv_value cv ms + (if ms = ls then n else 0)"
  by (auto simp: cv_value_def inc_by_def cv_inv_def bt.get_ins)

lemma inc_inv [simp]: "cv_inv cv \<Longrightarrow> cv_inv (inc_by ls n cv)"
  by (simp add: cv_inv_def inc_by_def bt.inv_ins)

lemma bt_insert_sum:
  "bt_inv m \<Longrightarrow> sum_list (map snd (bt_insert k (unwrap_or (bt_get m k) 0 + n) m)) = sum_list (map snd m) + (n :: u64)"
proof (induction m)
  case (Cons kv m)
  obtain a b where kv: "kv = (a, b)" by force
  have inv: "bt_inv m" "\<And>x. x \<in> fst ` set m \<Longrightarrow> a < x" using Cons.prems by (auto simp: bt_inv_def kv)
  have "bt_get ((a, b) # m) k = None" if "k < a"
  proof -
    have "k \<notin> fst ` set m" using inv(2) [of k] that by (meson less_asym)
    with that show ?thesis by (simp add: map_of_eq_None_iff)
  qed
  then show ?case using Cons.IH inv(1) by (auto simp: kv algebra_simps)
qed simp

lemma inc_sum: "cv_inv cv \<Longrightarrow> cv_sum (inc_by ls n cv) = cv_sum cv + n"
  by (simp add: cv_sum_def inc_by_def cv_value_def cv_inv_def bt_insert_sum)

lemma counter_vec_new_facts [simp]:
  "cv_inv (counter_vec_new a b c)" "cv_sum (counter_vec_new a b c) = 0" "cv_value (counter_vec_new a b c) ls = 0"
  by (simp_all add: counter_vec_new_def cv_inv_def cv_sum_def cv_value_def bt.inv_empty)

definition metrics_inv :: "tapio_metrics \<Rightarrow> bool" where
  "metrics_inv m \<longleftrightarrow> cv_inv (m_events_total m) \<and> cv_inv (m_anomalies_total m)
     \<and> cv_inv (m_lost_events_total m) \<and> cv_inv (m_malformed_events_total m)
     \<and> cv_inv (m_correlation_drops_total m) \<and> cv_inv (m_drain_cap_total m)
     \<and> cv_inv (m_sink_writes_total m) \<and> cv_inv (m_sink_drops_total m)
     \<and> cv_inv (m_controller_send_failures_total m) \<and> cv_inv (m_config_fetch_total m)"

lemma metrics_inv_new [simp]: "metrics_inv metrics_new"
  by (simp add: metrics_inv_def metrics_new_def)

section \<open>Exposition\<close>

definition NL :: char where "NL = CHR 0x0A"
definition QUOTE :: char where "QUOTE = CHR 0x22"
definition BACKSLASH :: char where "BACKSLASH = CHR 0x5C"

fun push_escaped_label :: "string \<Rightarrow> string" where
  "push_escaped_label [] = []"
| "push_escaped_label (ch # s) =
     (if ch = BACKSLASH then [BACKSLASH, BACKSLASH]
      else if ch = QUOTE then [BACKSLASH, QUOTE]
      else if ch = NL then [BACKSLASH, CHR ''n'']
      else [ch]) @ push_escaped_label s"

definition encode_labels :: "string list \<Rightarrow> string list \<Rightarrow> string" where
  "encode_labels labels label_values =
     concat (map (\<lambda>(idx, label, value). (if idx > (0::nat) then '','' else []) @ label @ ''='' @ [QUOTE]
         @ push_escaped_label value @ [QUOTE])
       (zip [0..<length labels] (zip labels label_values)))"

definition cv_encode :: "counter_vec \<Rightarrow> string" where
  "cv_encode cv =
     ''# HELP '' @ cv_name cv @ '' '' @ cv_help cv @ [NL] @ ''# TYPE '' @ cv_name cv @ '' counter'' @ [NL]
     @ concat (map (\<lambda>(label_values, value).
         cv_name cv
         @ (if cv_labels cv \<noteq> [] then ''{'' @ encode_labels (cv_labels cv) label_values @ ''}'' else [])
         @ '' '' @ dec (unat value) @ [NL]) (cv_values cv))"

definition metrics_encode :: "tapio_metrics \<Rightarrow> string" where
  "metrics_encode m = concat (map cv_encode
     [m_events_total m, m_anomalies_total m, m_lost_events_total m, m_malformed_events_total m,
      m_correlation_drops_total m, m_drain_cap_total m, m_sink_writes_total m, m_sink_drops_total m,
      m_controller_send_failures_total m, m_config_fetch_total m])"

text \<open>Unescaping as a scraper does it; an escaped value is read back and ends at the closing quote.\<close>

fun read_label :: "string \<Rightarrow> (string \<times> string) option" where
  "read_label [] = None"
| "read_label (c # s) =
     (if c = QUOTE then Some ([], s)
      else if c = NL then None
      else if c = BACKSLASH then
        (case s of
           [] \<Rightarrow> None
         | d # t \<Rightarrow> map_option (\<lambda>(v, r). ((if d = CHR ''n'' then NL else d) # v, r)) (read_label t))
      else map_option (\<lambda>(v, r). (c # v, r)) (read_label s))"

lemma escape_chars: "BACKSLASH \<noteq> QUOTE" "NL \<noteq> QUOTE" "BACKSLASH \<noteq> NL" "QUOTE \<noteq> BACKSLASH"
    "BACKSLASH \<noteq> CHR ''n''" "QUOTE \<noteq> CHR ''n''" "NL \<noteq> BACKSLASH" "QUOTE \<noteq> NL"
  by (simp_all add: BACKSLASH_def QUOTE_def NL_def)

lemma read_escaped: "read_label (push_escaped_label v @ QUOTE # rest) = Some (v, rest)"
  by (induction v) (auto simp: escape_chars)

section \<open>The scrape loop\<close>

text \<open>\<open>s.lines().next().unwrap_or_default()\<close>.\<close>

definition first_line :: "string \<Rightarrow> string" where
  "first_line s = (case str_lines s of [] \<Rightarrow> [] | l # _ \<Rightarrow> l)"

definition scrape_response :: "tapio_metrics \<Rightarrow> string \<Rightarrow> string" where
  "scrape_response m request =
     (let crlf = [CHR 0x0D, NL];
          line = first_line (if utf8_valid request then request else [])
      in if \<not> starts_with line ''GET /metrics ''
         then ''HTTP/1.1 404 Not Found'' @ crlf @ ''Content-Length: 9'' @ crlf @ ''Connection: close'' @ crlf
                @ crlf @ ''not found''
         else (let body = metrics_encode m
               in ''HTTP/1.1 200 OK'' @ crlf @ ''Content-Type: text/plain; version=0.0.4'' @ crlf
                  @ ''Content-Length: '' @ dec (length body) @ crlf @ ''Connection: close'' @ crlf
                  @ crlf @ body))"

text \<open>
  What one round of the loop meets: nothing to accept, an accept error, or a connection with
  the result of the read and whether the write succeeds. The metrics are those at that time.
\<close>

datatype 'io accept = WouldBlock | AcceptError 'io | Connection "'io + string" "'io option"

fun serve_blocking :: "(bool \<times> tapio_metrics \<times> 'io accept) list \<Rightarrow> string list \<times> ('io + unit)" where
  "serve_blocking [] = ([], Inr ())"
| "serve_blocking ((shutdown, m, a) # rounds) =
     (if shutdown then ([], Inr ())
      else case a of
        WouldBlock \<Rightarrow> serve_blocking rounds
      | AcceptError e \<Rightarrow> ([], Inl e)
      | Connection (Inl e) _ \<Rightarrow> ([], Inl e)
      | Connection (Inr request) (Some e) \<Rightarrow> ([], Inl e)
      | Connection (Inr request) None \<Rightarrow>
          (let (out, r) = serve_blocking rounds in (scrape_response m request # out, r)))"

section \<open>Properties\<close>

text \<open>
  Incrementing a counter changes the value of its own label set by the increment and no other
  value, and the sum over all label sets by the increment, modulo two to the 64.
\<close>

theorem counter_increment:
  assumes "cv_inv cv"
  shows "cv_value (inc_by ls n cv) ms = cv_value cv ms + (if ms = ls then n else 0)
     \<and> cv_sum (inc_by ls n cv) = cv_sum cv + n \<and> cv_inv (inc_by ls n cv)"
  using assms by (simp add: inc_value inc_sum)

lemma counter_increment_witness:
  "cv_sum (inc_by [''b''] 2 (inc_by [''a''] 1 (counter_vec_new ''x'' ''y'' [''l'']))) = 3"
  using counter_increment [of "inc_by [''a''] 1 (counter_vec_new ''x'' ''y'' [''l''])" "[''b'']" 2 "[]"]
  by (simp add: inc_sum)

text \<open>
  A label value in the exposition is read back unchanged by a reader of the Prometheus text
  format, and never runs over its closing quote, whatever bytes it has.
\<close>

theorem label_escape_roundtrip: "read_label (push_escaped_label v @ QUOTE # rest) = Some (v, rest)"
  by (rule read_escaped)

text \<open>
  One connection whose read or write fails, such as a client that stays silent until the read
  timeout, ends the metrics endpoint: no later scrape is answered.
\<close>

theorem failed_connection_ends_endpoint:
  "serve_blocking ((False, m, Connection (Inl e) w) # rounds) = ([], Inl e)
   \<and> serve_blocking ((False, m, Connection (Inr request) (Some f)) # rounds) = ([], Inl f)"
  by simp

end
