(* ===== verification/Httpc.thy ===== *)
theory Httpc
  imports Numbers Bytes
begin

text \<open>
  \<open>tapio-agent/src/httpc.rs\<close>: the blocking HTTP/1.1 client of the agent. The TCP stack is a
  parameter: what connecting, writing and each successive read give back. The model covers
  the address and path of a request, the text that is written, the bounded read loop and
  the parsing of the response. An error is a constructor per \<open>format!\<close> of the source; the
  texts of the standard library's own errors are arguments of it.
\<close>

datatype http_error =
    RequiresHttp string
  | ConnectFailed string
  | WriteFailed string
  | WriteBodyFailed string
  | ReadFailed string
  | ResponseExceeded nat
  | BadHttpResponse
  | HeadersUtf8
  | MissingHttpStatus
  | BadHttpVersion
  | BadHttpStatus

record http_response =
  hr_status :: nat
  hr_body :: string

definition DEFAULT_MAX_RESPONSE_BYTES :: nat where "DEFAULT_MAX_RESPONSE_BYTES = 1024 * 1024"
definition POST_MAX_RESPONSE_BYTES :: nat where "POST_MAX_RESPONSE_BYTES = 8 * 1024"

text \<open>
  What one \<open>stream.read(&mut chunk)\<close> gives: some bytes (none at the end of the stream), a
  reset of the connection, or another error. A connection fixes the outcome of the two
  writes and of every read.
\<close>

datatype read_result = ReadOk string | ReadReset string | ReadErr string

record connection =
  cx_write_head :: "string \<Rightarrow> string option"
  cx_write_body :: "string \<Rightarrow> string option"
  cx_read :: "nat \<Rightarrow> read_result"

section \<open>Reading a response\<close>

text \<open>
  The read loop. It ends because every round but the last makes the response longer and the
  response is bounded.
\<close>

function read_all :: "nat \<Rightarrow> (nat \<Rightarrow> read_result) \<Rightarrow> nat \<Rightarrow> string \<Rightarrow> http_error + string" where
  "read_all max_response_bytes server i response =
     (case server i of
        ReadReset e \<Rightarrow> if response \<noteq> [] then Inr response else Inl (ReadFailed e)
      | ReadErr e \<Rightarrow> Inl (ReadFailed e)
      | ReadOk chunk \<Rightarrow>
          if chunk = [] then Inr response
          else if length (response @ chunk) > max_response_bytes then Inl (ResponseExceeded max_response_bytes)
          else read_all max_response_bytes server (i + 1) (response @ chunk))"
  by pat_completeness auto
termination
  by (relation "measure (\<lambda>(max_response_bytes, server, i, response). Suc max_response_bytes - length response)")
    (auto simp flip: length_greater_0_conv)

declare read_all.simps [simp del]

definition parse_status :: "string \<Rightarrow> http_error + nat" where
  "parse_status status_line =
     (if \<not> starts_with status_line ''HTTP/1.1 '' \<and> \<not> starts_with status_line ''HTTP/1.0 ''
      then Inl BadHttpVersion
      else if length status_line < 12 \<or> (12 < length status_line \<and> is_cont (status_line ! 12))
      then Inl BadHttpStatus
      else (case parse_uint (2 ^ 16) (slice 9 3 status_line) of
              None \<Rightarrow> Inl BadHttpStatus
            | Some status \<Rightarrow> Inr status))"

definition CRLF :: string where "CRLF = [CHR 0x0D, CHR 0x0A]"

definition parse_response :: "string \<Rightarrow> http_error + http_response" where
  "parse_response response =
     (case find_sub (CRLF @ CRLF) response of
        None \<Rightarrow> Inl BadHttpResponse
      | Some split \<Rightarrow>
          (let head = take split response; body = drop 4 (drop split response) in
           if \<not> utf8_valid head then Inl HeadersUtf8
           else (case str_lines head of
                   [] \<Rightarrow> Inl MissingHttpStatus
                 | status_line # _ \<Rightarrow>
                     and_then (parse_status status_line) (\<lambda>status.
                     Inr \<lparr>hr_status = status, hr_body = body\<rparr>))))"

definition read_response :: "(nat \<Rightarrow> read_result) \<Rightarrow> nat \<Rightarrow> http_error + http_response" where
  "read_response server max_response_bytes =
     and_then (read_all max_response_bytes server 0 []) parse_response"

section \<open>Sending a request\<close>

text \<open>The address to connect to and the path to ask for.\<close>

definition split_target :: "string \<Rightarrow> string \<Rightarrow> string \<times> string" where
  "split_target meth url =
     (case find_sub ''/'' url of
        Some i \<Rightarrow> (take i url, drop i url)
      | None \<Rightarrow> (url, if meth = ''POST'' then ''/v1/occurrences'' else ''/''))"

definition request_head :: "string \<Rightarrow> string \<Rightarrow> string \<Rightarrow> (string \<times> string) list \<Rightarrow> string \<Rightarrow> string" where
  "request_head meth host_port path headers body =
     meth @ '' '' @ path @ '' HTTP/1.1'' @ CRLF @ ''Host: '' @ host_port @ CRLF
     @ concat (map (\<lambda>(name, value). name @ '': '' @ value @ CRLF) headers)
     @ (if body \<noteq> [] then ''Content-Length: '' @ dec (length body) @ CRLF else [])
     @ ''Connection: close'' @ CRLF @ CRLF"

definition request ::
  "(string \<Rightarrow> string + connection) \<Rightarrow> string \<Rightarrow> string \<Rightarrow> (string \<times> string) list \<Rightarrow> string \<Rightarrow> nat
     \<Rightarrow> http_error + http_response" where
  "request connect meth endpoint headers body max_response_bytes =
     (case strip_prefix endpoint ''http://'' of
        None \<Rightarrow> Inl (RequiresHttp endpoint)
      | Some url \<Rightarrow>
          (let (host_port, path) = split_target meth url in
           case connect host_port of
             Inl e \<Rightarrow> Inl (ConnectFailed e)
           | Inr cx \<Rightarrow>
               (case cx_write_head cx (request_head meth host_port path headers body) of
                  Some e \<Rightarrow> Inl (WriteFailed e)
                | None \<Rightarrow>
                    (case (if body \<noteq> [] then cx_write_body cx body else None) of
                       Some e \<Rightarrow> Inl (WriteBodyFailed e)
                     | None \<Rightarrow> read_response (cx_read cx) max_response_bytes))))"

definition http_get ::
  "(string \<Rightarrow> string + connection) \<Rightarrow> string \<Rightarrow> (string \<times> string) list \<Rightarrow> nat \<Rightarrow> http_error + http_response" where
  "http_get connect endpoint headers max_response_bytes =
     request connect ''GET'' endpoint headers [] max_response_bytes"

definition post_json_response ::
  "(string \<Rightarrow> string + connection) \<Rightarrow> string \<Rightarrow> string \<Rightarrow> nat \<Rightarrow> http_error + http_response" where
  "post_json_response connect endpoint body max_response_bytes =
     request connect ''POST'' endpoint [(''Content-Type'', ''application/json'')] body max_response_bytes"

datatype post_error = PostFailed http_error | PostStatus nat

definition is_success :: "nat \<Rightarrow> bool" where
  "is_success status \<longleftrightarrow> 200 \<le> status \<and> status < 300"

definition post_json :: "(string \<Rightarrow> string + connection) \<Rightarrow> string \<Rightarrow> string \<Rightarrow> post_error + unit" where
  "post_json connect endpoint body =
     (case post_json_response connect endpoint body POST_MAX_RESPONSE_BYTES of
        Inl e \<Rightarrow> Inl (PostFailed e)
      | Inr response \<Rightarrow>
          if is_success (hr_status response) then Inr () else Inl (PostStatus (hr_status response)))"

section \<open>The read loop\<close>

text \<open>A response that is returned is within the bound (or is what was already there).\<close>

lemma read_all_bounded:
  "read_all m server i acc = Inr r \<Longrightarrow> length acc \<le> m \<Longrightarrow> length r \<le> m"
proof (induction m server i acc rule: read_all.induct)
  case (1 m server i acc)
  from "1.prems" show ?case
    by (subst (asm) read_all.simps) (auto split: read_result.splits if_splits dest: "1.IH")
qed

text \<open>The loop makes at most one read more than the bytes that the bound leaves room for.\<close>

lemma read_all_reads:
  assumes "\<And>k. k \<le> m - length acc \<Longrightarrow> server (i + k) = server' (i + k)" "length acc \<le> m"
  shows "read_all m server i acc = read_all m server' i acc"
  using assms
proof (induction m server i acc rule: read_all.induct)
  case (1 m server i acc)
  have i: "server i = server' i" using "1.prems"(1) [of 0] by simp
  show ?case
  proof (cases "\<exists>chunk. server i = ReadOk chunk \<and> chunk \<noteq> [] \<and> length (acc @ chunk) \<le> m")
    case True
    then obtain chunk where c: "server i = ReadOk chunk" "chunk \<noteq> []" "length (acc @ chunk) \<le> m" by blast
    have "read_all m server (i + 1) (acc @ chunk) = read_all m server' (i + 1) (acc @ chunk)"
    proof (rule "1.IH" [OF c(1,2)])
      show "\<not> m < length (acc @ chunk)" "length (acc @ chunk) \<le> m" using c(3) by simp_all
    next
      fix k assume "k \<le> m - length (acc @ chunk)"
      with c(2,3) have "Suc k \<le> m - length acc" by (cases chunk) auto
      then show "server (i + 1 + k) = server' (i + 1 + k)" using "1.prems"(1) [of "Suc k"] by simp
    qed
    with c i show ?thesis by (simp add: read_all.simps [of m _ i acc])
  next
    case False
    with i show ?thesis
      by (auto simp: read_all.simps [of m _ i acc] split: read_result.splits)
  qed
qed

text \<open>Chunks that fit are put together, whatever their sizes.\<close>

fun chunks_from :: "string list \<Rightarrow> nat \<Rightarrow> read_result" where
  "chunks_from cs i = (if i < length cs then ReadOk (cs ! i) else ReadOk [])"

lemma read_all_chunks:
  "[] \<notin> set cs \<Longrightarrow> length (acc @ concat cs) \<le> m \<Longrightarrow>
     (\<And>k. k < length cs \<Longrightarrow> server (i + k) = ReadOk (cs ! k)) \<Longrightarrow> server (i + length cs) = ReadOk [] \<Longrightarrow>
     read_all m server i acc = Inr (acc @ concat cs)"
proof (induction cs arbitrary: acc i)
  case Nil
  then show ?case by (simp add: read_all.simps)
next
  case (Cons c cs)
  have "read_all m server (i + 1) (acc @ c) = Inr ((acc @ c) @ concat cs)"
  proof (rule Cons.IH)
    fix k assume "k < length cs"
    then show "server (i + 1 + k) = ReadOk (cs ! k)" using Cons.prems(3) [of "Suc k"] by simp
  qed (use Cons.prems in simp_all)
  moreover have "server i = ReadOk c" using Cons.prems(3) [of 0] by simp
  ultimately show ?case using Cons.prems by (subst read_all.simps) auto
qed

section \<open>Parsing what a server writes\<close>

lemma find_sub_skip:
  "c \<notin> set a \<Longrightarrow> find_sub (c # p) (a @ b) = map_option ((+) (length a)) (find_sub (c # p) b)"
  by (induction a; cases "find_sub (c # p) b") auto

lemma find_sub_length: "find_sub p s = Some n \<Longrightarrow> n + length p \<le> length s"
proof (induction s arbitrary: n)
  case (Cons x s)
  show ?case
  proof (cases "take (length p) (x # s) = p")
    case True
    with Cons.prems have "n = 0" by simp
    with arg_cong [OF True, of length] show ?thesis by simp
  next
    case False
    with Cons show ?thesis by auto
  qed
qed (simp split: if_splits)

text \<open>What a server writes: a status line, header lines, a blank line and the body.\<close>

definition response_text :: "string \<Rightarrow> string list \<Rightarrow> string \<Rightarrow> string" where
  "response_text status_line headers body =
     status_line @ concat (map (\<lambda>h. CRLF @ h) headers) @ CRLF @ CRLF @ body"

definition line_ok :: "string \<Rightarrow> bool" where
  "line_ok l \<longleftrightarrow> l \<noteq> [] \<and> CHR 0x0D \<notin> set l \<and> CHR 0x0A \<notin> set l \<and> list_all (in_range 0 0x7F) l"

lemma find_blank_line_headers:
  "list_all line_ok headers \<Longrightarrow>
     find_sub (CRLF @ CRLF) (concat (map (\<lambda>h. CRLF @ h) headers) @ CRLF @ CRLF @ body)
       = Some (length (concat (map (\<lambda>h. CRLF @ h) headers)))"
proof (induction headers)
  case Nil
  then show ?case by (simp add: CRLF_def)
next
  case (Cons h hs)
  define rest where "rest = concat (map (\<lambda>h. CRLF @ h) hs) @ CRLF @ CRLF @ body"
  have h: "h \<noteq> []" "CHR 0x0D \<notin> set h" using Cons.prems by (simp_all add: line_ok_def)
  have "find_sub (CRLF @ CRLF) (h @ rest) = Some (length h + length (concat (map (\<lambda>h. CRLF @ h) hs)))"
    using Cons find_sub_skip [OF h(2), of "CHR 0x0A # CRLF" rest] by (simp add: rest_def CRLF_def)
  moreover obtain x t where "h = x # t" "x \<noteq> CHR 0x0D" using h by (cases h) auto
  ultimately have "find_sub (CRLF @ CRLF) (CRLF @ h @ rest)
      = Some (2 + (length h + length (concat (map (\<lambda>h. CRLF @ h) hs))))"
    by (simp add: CRLF_def)
  then show ?case by (simp add: rest_def CRLF_def)
qed

lemma find_blank_line:
  assumes "line_ok l" "list_all line_ok headers"
  shows "find_sub (CRLF @ CRLF) (response_text l headers body)
    = Some (length (l @ concat (map (\<lambda>h. CRLF @ h) headers)))"
proof -
  have "CHR 0x0D \<notin> set l" using assms(1) by (simp add: line_ok_def)
  from find_sub_skip [OF this, of "CHR 0x0A # CRLF"] find_blank_line_headers [OF assms(2), of body]
  show ?thesis by (simp add: response_text_def CRLF_def)
qed

lemma first_line:
  assumes "line_ok l" "list_all line_ok headers"
  shows "\<exists>ls. str_lines (l @ concat (map (\<lambda>h. CRLF @ h) headers)) = l # ls"
proof (cases headers)
  case Nil
  with assms(1) show ?thesis by (simp add: str_lines_def split_on_no_sep line_ok_def)
next
  case (Cons h hs)
  define rest where "rest = h @ concat (map (\<lambda>h. CRLF @ h) hs)"
  obtain y ys where sp: "split_on (CHR 0x0A) rest = y # ys"
    by (cases "split_on (CHR 0x0A) rest") auto
  have "CHR 0x0A \<notin> set (l @ [CHR 0x0D])" using assms(1) by (simp add: line_ok_def)
  from split_on_append [OF this, of rest] sp
  have "split_on (CHR 0x0A) ((l @ [CHR 0x0D]) @ CHR 0x0A # rest) = (l @ [CHR 0x0D]) # y # ys"
    by (simp only:)
  then show ?thesis using Cons by (simp add: str_lines_def rest_def CRLF_def strip_cr_def)
qed

lemma parse_status_line:
  assumes "n < 1000" "reason = [] \<or> hd reason = CHR '' ''"
  shows "parse_status (''HTTP/1.1 '' @ pad0 3 (dec n) @ reason) = Inr n"
proof -
  define d where "d = pad0 3 (dec n)"
  have d: "length d = 3" "parse_uint (2 ^ 16) d = Some n"
    using assms(1) by (simp_all add: d_def pad0_dec_length parse_uint_pad0)
  have "\<not> (12 < length (''HTTP/1.1 '' @ d @ reason) \<and> is_cont ((''HTTP/1.1 '' @ d @ reason) ! 12))"
  proof
    assume "12 < length (''HTTP/1.1 '' @ d @ reason) \<and> is_cont ((''HTTP/1.1 '' @ d @ reason) ! 12)"
    then have r: "reason \<noteq> []" "is_cont ((''HTTP/1.1 '' @ d @ reason) ! 12)" using d(1) by auto
    have "(''HTTP/1.1 '' @ d @ reason) ! 12 = reason ! 0"
      using d(1) by (simp add: nth_append)
    with r assms(2) show False by (auto simp: hd_conv_nth is_cont_def in_range_def)
  qed
  moreover have "slice 9 3 (''HTTP/1.1 '' @ d @ reason) = d"
    using d(1) by (simp add: slice_def)
  ultimately show ?thesis
    unfolding d_def [symmetric] parse_status_def using d by (simp add: starts_with_def)
qed

lemma read_response_of_text:
  assumes "status < 1000" "line_ok (''HTTP/1.1 '' @ pad0 3 (dec status) @ reason)"
    and "reason = [] \<or> hd reason = CHR '' ''" "list_all line_ok headers"
    and "concat chunks = response_text (''HTTP/1.1 '' @ pad0 3 (dec status) @ reason) headers body"
    and "[] \<notin> set chunks" "length (concat chunks) \<le> max_response_bytes"
  shows "read_response (chunks_from chunks) max_response_bytes
    = Inr \<lparr>hr_status = status, hr_body = body\<rparr>"
proof -
  define l where "l = ''HTTP/1.1 '' @ pad0 3 (dec status) @ reason"
  define hd_text where "hd_text = l @ concat (map (\<lambda>h. CRLF @ h) headers)"
  have l: "line_ok l" using assms(2) by (simp add: l_def)
  have "list_all (in_range 0 0x7F) hd_text"
    using l assms(4) by (auto simp: hd_text_def line_ok_def list_all_iff CRLF_def in_range_def)
  then have utf8: "utf8_valid hd_text" by (rule utf8_ascii)
  obtain ls where ls: "str_lines hd_text = l # ls"
    using first_line [OF l assms(4)] by (auto simp: hd_text_def)
  have bytes: "response_text l headers body = hd_text @ CRLF @ CRLF @ body"
    by (simp add: response_text_def hd_text_def)
  have st: "parse_status l = Inr status" unfolding l_def by (rule parse_status_line [OF assms(1,3)])
  have "parse_response (response_text l headers body) = Inr \<lparr>hr_status = status, hr_body = body\<rparr>"
    unfolding parse_response_def find_blank_line [OF l assms(4)] hd_text_def [symmetric]
    using utf8 ls st by (simp add: bytes Let_def) (simp add: CRLF_def)
  moreover have "read_all max_response_bytes (chunks_from chunks) 0 [] = Inr ([] @ concat chunks)"
    by (rule read_all_chunks) (use assms(6,7) in simp_all)
  ultimately show ?thesis using assms(5) by (simp add: read_response_def l_def)
qed

text \<open>An answer of success without header lines.\<close>

lemma read_ok_response:
  "length body + 19 \<le> max_response_bytes \<Longrightarrow>
     read_response (chunks_from [''HTTP/1.1 200 OK'' @ CRLF @ CRLF @ body]) max_response_bytes
       = Inr \<lparr>hr_status = 200, hr_body = body\<rparr>"
proof -
  assume len: "length body + 19 \<le> max_response_bytes"
  have d: "pad0 3 (dec 200) = ''200''"
    by (simp add: dec.simps digit_def pad0_def) code_simp
  show ?thesis
    by (rule read_response_of_text [where reason = "'' OK''" and headers = "[]"])
      (unfold d, use len in \<open>simp_all add: line_ok_def response_text_def CRLF_def in_range_def\<close>)
qed

section \<open>Properties\<close>

text \<open>
  C31: a response is read in at most one read more than the bytes allowed, whatever the server
  does: the result is determined by these reads, so a server that never stops sending is
  cut off, and a body that is returned is within the bound.
\<close>

theorem read_response_terminates:
  assumes "\<And>k. k \<le> max_response_bytes \<Longrightarrow> server k = server' k"
  shows "read_response server max_response_bytes = read_response server' max_response_bytes
     \<and> (case read_response server max_response_bytes of
          Inr r \<Rightarrow> length (hr_body r) + 4 \<le> max_response_bytes | Inl _ \<Rightarrow> True)"
proof (rule conjI)
  have "read_all max_response_bytes server 0 [] = read_all max_response_bytes server' 0 []"
    by (rule read_all_reads) (use assms in simp_all)
  then show "read_response server max_response_bytes = read_response server' max_response_bytes"
    by (simp add: read_response_def)
  have "length (hr_body r) + 4 \<le> max_response_bytes"
    if r: "read_response server max_response_bytes = Inr r" for r
  proof -
    obtain bytes where bytes: "read_all max_response_bytes server 0 [] = Inr bytes" "parse_response bytes = Inr r"
      using r by (auto simp: read_response_def and_then_Inr)
    obtain split where sp: "find_sub (CRLF @ CRLF) bytes = Some split" "hr_body r = drop 4 (drop split bytes)"
      using bytes(2) by (auto simp: parse_response_def Let_def and_then_Inr split: option.splits if_splits list.splits)
    have "split + 4 \<le> length bytes" using find_sub_length [OF sp(1)] by (simp add: CRLF_def)
    moreover have "length bytes \<le> max_response_bytes" using read_all_bounded [OF bytes(1)] by simp
    ultimately show ?thesis using sp(2) by simp
  qed
  then show "case read_response server max_response_bytes of
      Inr r \<Rightarrow> length (hr_body r) + 4 \<le> max_response_bytes | Inl _ \<Rightarrow> True"
    by (auto split: sum.splits)
qed

lemma read_response_terminates_witness:
  "read_response (\<lambda>_. ReadOk ''x'') 3 = read_response (\<lambda>k. if k \<le> 3 then ReadOk ''x'' else ReadErr ''late'') 3"
  using read_response_terminates
    [of 3 "\<lambda>_. ReadOk ''x''" "\<lambda>k. if k \<le> 3 then ReadOk ''x'' else ReadErr ''late''"] by simp



end
