(* ===== verification/AgentPoll.thy ===== *)
theory AgentPoll
  imports AgentConfig Carriers Metrics Httpc
begin

text \<open>
  \<open>tapio-agent/src/controller.rs\<close>: the state that the agent's control-plane tasks share
  (\<open>agent_control\<close>), fetching a configuration and applying it to the kernel maps, and the
  poll loop as a step per tick (\<open>poll_step\<close>); with the identity of the applied
  configuration, the locked cell of \<open>tapio-agent/src/heartbeat.rs\<close>. JSON decoding is a
  parameter, and so is what the network does in a tick. Tasks that panic are not modelled.
\<close>

section \<open>Shared state\<close>

record agent_controller_config =
  acc_endpoint :: string
  acc_agent_id :: string
  acc_node_name :: string
  acc_poll_interval :: nat
  acc_heartbeat_interval :: nat

record agent_control =
  act_config_version :: string
  act_send_interval_ms :: u64
  act_max_batch_events :: u64

definition agent_control_new :: "string \<Rightarrow> agent_control" where
  "agent_control_new config_version =
     \<lparr>act_config_version = config_version, act_send_interval_ms = 1000, act_max_batch_events = 256\<rparr>"

definition set_config_version :: "string \<Rightarrow> agent_control \<Rightarrow> agent_control" where
  "set_config_version version st = st\<lparr>act_config_version := version\<rparr>"

definition batching :: "agent_control \<Rightarrow> u64 \<times> u64" where
  "batching st = (act_send_interval_ms st, act_max_batch_events st)"

definition set_batching :: "u64 \<Rightarrow> u64 \<Rightarrow> agent_control \<Rightarrow> agent_control" where
  "set_batching send_interval_ms max_batch_events st =
     st\<lparr>act_send_interval_ms := max send_interval_ms 1, act_max_batch_events := max max_batch_events 1\<rparr>"

record applied_config_identity =
  aci_version :: string
  aci_hash :: string
  aci_flags :: u64

section \<open>Addresses\<close>

definition unreserved :: "char \<Rightarrow> bool" where
  "unreserved c \<longleftrightarrow> in_range 65 90 c \<or> in_range 97 122 c \<or> in_range 48 57 c
     \<or> c \<in> set [CHR ''-'', CHR ''_'', CHR ''.'', CHR ''~'']"

definition HEX :: string where "HEX = ''0123456789ABCDEF''"

fun url_component :: "string \<Rightarrow> string" where
  "url_component [] = []"
| "url_component (b # bs) =
     (if unreserved b then [b]
      else [CHR ''%'', HEX ! (of_char b div 16), HEX ! (of_char b mod 16)]) @ url_component bs"

definition config_query :: "agent_controller_config \<Rightarrow> string" where
  "config_query cc = ''agent_id='' @ url_component (acc_agent_id cc)
     @ ''&node_name='' @ url_component (acc_node_name cc)"

definition config_url :: "agent_controller_config \<Rightarrow> string" where
  "config_url cc = trim_end_char (CHR ''/'') (acc_endpoint cc) @ ''/v1/agents/config?'' @ config_query cc"

section \<open>Fetching\<close>

datatype poll_outcome = Applied u32 string u64 | NotModified

datatype reject_reason =
    DecodeConfig string
  | BadConfigVersion string
  | InvalidConfig wire_error
  | MissingConfigHash
  | Untranslatable compiled_config_error

datatype transport_reason = FetchFailed http_error | UnexpectedStatus nat | ThresholdsClosed

datatype fetch_error = Transport transport_reason | Rejected reject_reason

text \<open>
  What applying a configuration touches: the carriers' registry with the kernel maps, and
  the watch channel of the PMC thresholds, which refuses a value when no receiver is left.
\<close>

record apply_target =
  ap_carriers :: carrier_state
  ap_thresholds :: pmc_thresholds
  ap_receivers :: bool

definition reject_empty_config_hash :: "string \<Rightarrow> fetch_error + unit" where
  "reject_empty_config_hash h = guard_err (h = []) (Rejected MissingConfigHash)"

definition apply_config ::
  "(nat \<Rightarrow> bool) \<Rightarrow> tapio_config \<Rightarrow> compiled_config \<Rightarrow> apply_target \<Rightarrow> (fetch_error + unit) \<times> apply_target" where
  "apply_config accepts config compiled tgt =
     (let tgt1 = tgt\<lparr>ap_carriers := snd (carrier_update_all accepts config (ap_carriers tgt))\<rparr>
      in if ap_receivers tgt1
         then (Inr (), tgt1\<lparr>ap_thresholds := pmc_thresholds_from_compiled compiled\<rparr>)
         else (Inl (Transport ThresholdsClosed), tgt1))"

text \<open>The checks that a fetched configuration passes before it is applied.\<close>

definition check_config ::
  "(string \<Rightarrow> string + config_response) \<Rightarrow> string \<Rightarrow> fetch_error + (u32 \<times> config_response \<times> tapio_config)" where
  "check_config from_json body =
     (case from_json body of
        Inl e \<Rightarrow> Inl (Rejected (DecodeConfig e))
      | Inr config \<Rightarrow>
     (case parse_uint (2 ^ 32) (cfg_version config) of
        None \<Rightarrow> Inl (Rejected (BadConfigVersion (cfg_version config)))
      | Some generation \<Rightarrow>
     (case config_response_validate config of
        Inl e \<Rightarrow> Inl (Rejected (InvalidConfig e))
      | Inr _ \<Rightarrow>
     and_then (reject_empty_config_hash (cfg_config_hash config)) (\<lambda>_.
     (case tapio_config_from_compiled (cfg_config config) (cfg_version config) of
        Inl e \<Rightarrow> Inl (Rejected (Untranslatable e))
      | Inr tapio_config \<Rightarrow> Inr (word_of_nat generation, config, tapio_config))))))"

definition fetch_once ::
  "(string \<Rightarrow> string + connection) \<Rightarrow> (string \<Rightarrow> string + config_response) \<Rightarrow> (nat \<Rightarrow> bool)
     \<Rightarrow> agent_controller_config \<Rightarrow> string option \<Rightarrow> apply_target
     \<Rightarrow> (fetch_error + poll_outcome) \<times> apply_target" where
  "fetch_once connect from_json accepts cc etag tgt =
     (case http_get connect (config_url cc)
             (case etag of None \<Rightarrow> [] | Some e \<Rightarrow> [(''If-None-Match'', e)]) DEFAULT_MAX_RESPONSE_BYTES of
        Inl e \<Rightarrow> (Inl (Transport (FetchFailed e)), tgt)
      | Inr response \<Rightarrow>
          if hr_status response = 304 then (Inr NotModified, tgt)
          else if hr_status response = 200 then
            (case check_config from_json (hr_body response) of
               Inl e \<Rightarrow> (Inl e, tgt)
             | Inr (generation, config, tapio_config) \<Rightarrow>
                 (let (r, tgt1) = apply_config accepts tapio_config (cfg_config config) tgt
                  in (and_then r (\<lambda>_. Inr (Applied generation (cfg_config_hash config) (tc_flags tapio_config))),
                      tgt1)))
          else (Inl (Transport (UnexpectedStatus (hr_status response))), tgt))"

section \<open>The poll loop\<close>

record poll_state =
  pl_etag :: "string option"
  pl_active :: "applied_config_identity option"
  pl_control :: agent_control
  pl_metrics :: tapio_metrics
  pl_target :: apply_target

definition config_etag :: "string \<Rightarrow> string" where
  "config_etag h = [CHR 0x22] @ h @ [CHR 0x22]"

definition count_fetch :: "string \<Rightarrow> poll_state \<Rightarrow> poll_state" where
  "count_fetch label st =
     st\<lparr>pl_metrics := (pl_metrics st)\<lparr>m_config_fetch_total :=
          inc [label] (m_config_fetch_total (pl_metrics st))\<rparr>\<rparr>"

definition poll_outcome_step :: "fetch_error + poll_outcome \<Rightarrow> poll_state \<Rightarrow> poll_state" where
  "poll_outcome_step r st =
     (case r of
        Inr (Applied generation h flags) \<Rightarrow>
          count_fetch ''applied''
            (st\<lparr>pl_etag := Some (config_etag h),
               pl_active := Some \<lparr>aci_version = dec (unat generation), aci_hash = h, aci_flags = flags\<rparr>,
               pl_control := set_config_version (dec (unat generation)) (pl_control st)\<rparr>)
      | Inr NotModified \<Rightarrow> count_fetch ''not_modified'' st
      | Inl (Rejected _) \<Rightarrow> count_fetch ''rejected'' st
      | Inl (Transport _) \<Rightarrow> count_fetch ''error'' st)"

definition poll_step ::
  "(string \<Rightarrow> string + config_response) \<Rightarrow> (nat \<Rightarrow> bool) \<Rightarrow> agent_controller_config
     \<Rightarrow> (string \<Rightarrow> string + connection) \<Rightarrow> poll_state \<Rightarrow> poll_state" where
  "poll_step from_json accepts cc connect st =
     (let (r, tgt) = fetch_once connect from_json accepts cc (pl_etag st) (pl_target st)
      in poll_outcome_step r (st\<lparr>pl_target := tgt\<rparr>))"

text \<open>The loop runs a step per tick until the shutdown signal; observers start in between.\<close>

datatype poll_input = PollTick "string \<Rightarrow> string + connection" | ObserverStart string "nat option" tapio_config

definition poll_exec ::
  "(string \<Rightarrow> string + config_response) \<Rightarrow> (nat \<Rightarrow> bool) \<Rightarrow> agent_controller_config
     \<Rightarrow> poll_input \<Rightarrow> poll_state \<Rightarrow> poll_state" where
  "poll_exec from_json accepts cc i st =
     (case i of
        PollTick connect \<Rightarrow> poll_step from_json accepts cc connect st
      | ObserverStart obs fd config \<Rightarrow>
          st\<lparr>pl_target := (pl_target st)\<lparr>ap_carriers :=
               carrier_exec accepts (StartObserver obs fd config) (ap_carriers (pl_target st))\<rparr>\<rparr>)"

definition poll_init :: "apply_target \<Rightarrow> string \<Rightarrow> poll_state" where
  "poll_init tgt version = \<lparr>pl_etag = None, pl_active = None, pl_control = agent_control_new version,
     pl_metrics = metrics_new, pl_target = tgt\<rparr>"

section \<open>Lemmas\<close>

lemma set_batching_positive [simp]:
  "act_send_interval_ms (set_batching i n st) \<noteq> 0" "act_max_batch_events (set_batching i n st) \<noteq> 0"
  by (auto simp: set_batching_def max_def)

lemma check_config_ok:
  "check_config from_json body = Inr (g, config, t) \<longleftrightarrow>
     from_json body = Inr config \<and> parse_uint (2 ^ 32) (cfg_version config) = Some (unat g)
     \<and> config_response_validate config = Inr () \<and> cfg_config_hash config \<noteq> []
     \<and> tapio_config_from_compiled (cfg_config config) (cfg_version config) = Inr t"
proof -
  have word: "n = unat (word_of_nat n :: u32)" if "parse_uint 4294967296 v = Some n" for n v
    using parse_uint_bound [OF that] by (simp add: unsigned_of_nat take_bit_nat_eq_self)
  show ?thesis
    by (auto simp: check_config_def reject_empty_config_hash_def and_then_Inr
        split: sum.splits option.splits intro: word)
qed

lemma apply_config_facts:
  "crs_current (ap_carriers (snd (apply_config accepts t c tgt))) = Some t"
  "ap_receivers (snd (apply_config accepts t c tgt)) = ap_receivers tgt"
  "ap_receivers tgt \<Longrightarrow> fst (apply_config accepts t c tgt) = Inr ()"
  by (simp_all add: apply_config_def carrier_update_all_def write_all_maps Let_def)

lemma fetch_once_cases [consumes 1, case_names applied not_modified failed closed]:
  assumes "fetch_once connect from_json accepts cc etag tgt = (r, tgt')"
  obtains (applied) body config t g where
      "r = Inr (Applied g (cfg_config_hash config) (tc_flags t))"
      "check_config from_json body = Inr (g, config, t)"
      "tgt' = snd (apply_config accepts t (cfg_config config) tgt)"
      "http_get connect (config_url cc) (case etag of None \<Rightarrow> [] | Some e \<Rightarrow> [(''If-None-Match'', e)])
         DEFAULT_MAX_RESPONSE_BYTES = Inr \<lparr>hr_status = 200, hr_body = body\<rparr>"
  | (not_modified) "r = Inr NotModified" "tgt' = tgt"
  | (failed) e where "r = Inl e" "tgt' = tgt"
  | (closed) "r = Inl (Transport ThresholdsClosed)" "\<not> ap_receivers tgt"
proof -
  consider (err) e where "http_get connect (config_url cc)
        (case etag of None \<Rightarrow> [] | Some e \<Rightarrow> [(''If-None-Match'', e)]) DEFAULT_MAX_RESPONSE_BYTES = Inl e"
    | (ok) status body where "http_get connect (config_url cc)
        (case etag of None \<Rightarrow> [] | Some e \<Rightarrow> [(''If-None-Match'', e)]) DEFAULT_MAX_RESPONSE_BYTES
          = Inr \<lparr>hr_status = status, hr_body = body\<rparr>"
    by (metis http_response.cases old.sum.exhaust)
  then show ?thesis
  proof cases
    case err
    with assms show ?thesis by (intro failed) (auto simp: fetch_once_def)
  next
    case ok
    show ?thesis
    proof (cases "status = 200 \<and> is_ok (check_config from_json body)")
      case True
      then obtain g config t where c: "check_config from_json body = Inr (g, config, t)"
        by (cases "check_config from_json body") auto
      show ?thesis
      proof (cases "ap_receivers tgt")
        case open_: True
        have "apply_config accepts t (cfg_config config) tgt
            = (Inr (), snd (apply_config accepts t (cfg_config config) tgt))"
          using apply_config_facts(3) [OF open_] by (metis prod.collapse)
        then show ?thesis using assms ok True c
          by (intro applied [of g config t body]) (auto simp: fetch_once_def Let_def split: prod.splits)
      next
        case False
        then show ?thesis using assms ok True c
          by (intro closed) (auto simp: fetch_once_def apply_config_def Let_def)
      qed
    next
      case False
      then show ?thesis using assms ok
        by (cases "status = 304"; cases "status = 200"; cases "check_config from_json body")
          (auto simp: fetch_once_def intro: not_modified failed)
    qed
  qed
qed

text \<open>
  The identity that heartbeats report, the entity tag of the next poll, and the configuration
  that was last handed to the kernel maps belong together.
\<close>

definition identity_of :: "applied_config_identity \<Rightarrow> tapio_config \<Rightarrow> bool" where
  "identity_of a t \<longleftrightarrow> aci_version a = dec (unat (tc_generation t)) \<and> aci_flags a = tc_flags t
     \<and> aci_hash a \<noteq> [] \<and> has_valid_abi t"

definition poll_inv :: "poll_state \<Rightarrow> bool" where
  "poll_inv st \<longleftrightarrow> ap_receivers (pl_target st)
     \<and> pl_etag st = map_option (\<lambda>a. config_etag (aci_hash a)) (pl_active st)
     \<and> rel_option identity_of (pl_active st) (crs_current (ap_carriers (pl_target st)))"

lemma count_fetch_keeps [simp]:
  "pl_etag (count_fetch l st) = pl_etag st" "pl_active (count_fetch l st) = pl_active st"
  "pl_control (count_fetch l st) = pl_control st" "pl_target (count_fetch l st) = pl_target st"
  by (simp_all add: count_fetch_def)

lemma poll_step_inv: "poll_inv st \<Longrightarrow> poll_inv (poll_step from_json accepts cc connect st)"
proof -
  assume inv: "poll_inv st"
  obtain r tgt where f: "fetch_once connect from_json accepts cc (pl_etag st) (pl_target st) = (r, tgt)"
    by (metis surj_pair)
  then have next_st: "poll_step from_json accepts cc connect st = poll_outcome_step r (st\<lparr>pl_target := tgt\<rparr>)"
    by (simp add: poll_step_def)
  from f show ?thesis
  proof (cases rule: fetch_once_cases)
    case (applied body config t g)
    have t: "tapio_config_from_compiled (cfg_config config) (cfg_version config) = Inr t"
      and g: "parse_uint (2 ^ 32) (cfg_version config) = Some (unat g)" "cfg_config_hash config \<noteq> []"
      using applied(2) by (simp_all add: check_config_ok)
    have "unat (tc_generation t) = unat g" using from_compiled_ok(2) [OF t] g by simp
    then have "identity_of \<lparr>aci_version = dec (unat g), aci_hash = cfg_config_hash config, aci_flags = tc_flags t\<rparr> t"
      using g from_compiled_ok(1) [OF t] by (simp add: identity_of_def has_valid_abi_def)
    then show ?thesis
      using inv by (simp add: next_st applied(1,3) poll_outcome_step_def poll_inv_def apply_config_facts)
  next
    case not_modified
    with inv show ?thesis by (simp add: next_st poll_outcome_step_def poll_inv_def)
  next
    case (failed e)
    with inv show ?thesis by (cases e) (simp_all add: next_st poll_outcome_step_def poll_inv_def)
  next
    case closed
    with inv show ?thesis by (simp add: poll_inv_def)
  qed
qed

lemma start_keeps_current:
  "crs_current (carrier_exec accepts (StartObserver obs fd config) st) = crs_current st"
  by (auto simp: init_and_register_tapio_config_def bpf_map_update_def carrier_register_def
      Let_def split: option.splits)

interpretation poll: invariant_run "poll_exec from_json accepts cc" poll_inv for from_json accepts cc
proof unfold_locales
  fix st i assume "poll_inv st"
  then show "poll_inv (poll_exec from_json accepts cc i st)"
    using start_keeps_current
    by (cases i) (simp_all add: poll_exec_def poll_step_inv, simp add: poll_inv_def)
qed

lemma poll_inv_report:
  "poll_inv st \<Longrightarrow>
     pl_etag st = map_option (\<lambda>a. config_etag (aci_hash a)) (pl_active st)
     \<and> map_option aci_version (pl_active st)
         = map_option (\<lambda>t. dec (unat (tc_generation t))) (crs_current (ap_carriers (pl_target st)))
     \<and> map_option aci_flags (pl_active st) = map_option tc_flags (crs_current (ap_carriers (pl_target st)))"
  by (cases "pl_active st"; cases "crs_current (ap_carriers (pl_target st))")
    (simp_all add: poll_inv_def identity_of_def)

section \<open>Properties\<close>

text \<open>
  In every run of the poll loop, with observers starting at any time, the configuration
  identity that the agent reports is the generation, the hash and the flags of the very
  configuration last handed to the kernel maps, and the entity tag of the next poll is the
  quoted hash of it; before the first one is applied both are absent.
\<close>

theorem reported_identity_is_current:
  "let st = fold (poll_exec from_json accepts cc) inputs
       (poll_init (tgt\<lparr>ap_receivers := True, ap_carriers := carriers_empty\<rparr>) version)
   in pl_etag st = map_option (\<lambda>a. config_etag (aci_hash a)) (pl_active st)
      \<and> map_option aci_version (pl_active st)
          = map_option (\<lambda>t. dec (unat (tc_generation t))) (crs_current (ap_carriers (pl_target st)))
      \<and> map_option aci_flags (pl_active st) = map_option tc_flags (crs_current (ap_carriers (pl_target st)))"
proof -
  have "poll_inv (poll_init (tgt\<lparr>ap_receivers := True, ap_carriers := carriers_empty\<rparr>) version)"
    by (simp add: poll_inv_def poll_init_def carriers_empty_def)
  from poll_inv_report [OF poll.inv_run [OF this, where es = inputs]] show ?thesis by (simp only: Let_def)
qed


definition idle_target :: apply_target where
  "idle_target = \<lparr>ap_carriers = carriers_empty,
     ap_thresholds = pmc_thresholds_from_compiled (cfg_config config_default_v1), ap_receivers = True\<rparr>"


end
