(* ===== verification/Backoff.thy ===== *)
theory Backoff
  imports Prelude
begin

text \<open>
  The delay between retries that three parts of the agent share: it starts at a first value,
  doubles after every failure and is capped. The locale is the contract of such a delay;
  the registration loop, the controller sink and the HTTP sink interpret it on their own
  constants.
\<close>

locale backoff =
  fixes initial cap :: nat
    and next_delay :: "nat \<Rightarrow> nat"
  assumes initial_pos: "0 < initial"
    and initial_cap: "initial \<le> cap"
    and next_delay: "next_delay d = min (d * 2) cap"
begin

lemma delay_after: "(next_delay ^^ n) initial = min (initial * 2 ^ n) cap"
  by (induction n) (auto simp: initial_cap next_delay min_def)

lemma delay_bounds: "0 < (next_delay ^^ n) initial" "(next_delay ^^ n) initial \<le> cap"
  using initial_pos initial_cap by (simp_all add: delay_after)

lemma delay_grows: "(next_delay ^^ n) initial \<le> (next_delay ^^ Suc n) initial"
  unfolding delay_after by (intro min.mono) simp_all

lemma total_delay: "sum_list (map (\<lambda>k. (next_delay ^^ k) initial) [0..<n]) \<le> n * cap"
  using sum_list_mono [of "[0..<n]" "\<lambda>k. (next_delay ^^ k) initial" "\<lambda>_. cap"] delay_bounds(2)
  by (simp add: sum_list_const_mult sum_list_triv)

lemma delay_run: "map (\<lambda>k. (next_delay ^^ k) d) [0..<Suc n] = d # map (\<lambda>k. (next_delay ^^ k) (next_delay d)) [0..<n]"
  by (simp add: upt_conv_Cons map_Suc_upt [symmetric] comp_def funpow_swap1 del: upt_Suc)

end

end
