(* ===== verification/Registration.thy ===== *)
theory Registration
  imports AgentPoll Backoff
begin

text \<open>
  \<open>tapio-agent/src/heartbeat.rs\<close> and \<open>tapio-agent/src/registration.rs\<close>: what a heartbeat says
  of the agent, one hello and one heartbeat exchange with the controller, and the
  registration loop as a state machine over the completions it waits for. The clock, the
  file system, JSON and the network are parameters.
\<close>

section \<open>Heartbeats\<close>

definition OBSERVERS :: "(string \<times> u64) list" where
  "OBSERVERS = [(''network'', TAPIO_F_NETWORK), (''storage'', TAPIO_F_STORAGE),
     (''container'', TAPIO_F_CONTAINER), (''node'', TAPIO_F_NODE_PMC)]"

record heartbeat_snapshot =
  hs_agent_id :: string
  hs_node_name :: string
  hs_uptime_seconds :: u64
  hs_observers :: "(string, observer_status) btree"
  hs_counters :: heartbeat_counters
  hs_controller_mode :: bool
  hs_active_config :: "applied_config_identity option"

definition build_heartbeat :: "heartbeat_snapshot \<Rightarrow> heartbeat_request" where
  "build_heartbeat s =
     (let active_config = hs_active_config s;
          degraded_reasons = (if hs_controller_mode s \<and> active_config = None then [Unconfigured] else []);
          (config_version, config_hash) =
            (case active_config of Some c \<Rightarrow> (aci_version c, aci_hash c) | None \<Rightarrow> (''0'', []))
      in \<lparr>hb_wire_version = WIRE_VERSION, hb_agent_id = hs_agent_id s, hb_node_name = hs_node_name s,
          hb_config_version = config_version, hb_config_hash = config_hash,
          hb_uptime_seconds = hs_uptime_seconds s, hb_observers = hs_observers s,
          hb_counters = hs_counters s, hb_degraded_reasons = degraded_reasons\<rparr>)"

definition observer_statuses :: "applied_config_identity option \<Rightarrow> (string, observer_status) btree" where
  "observer_statuses active_config =
     bt_from (map (\<lambda>(obs, flag).
         (obs, case active_config of
                 Some config \<Rightarrow> if aci_flags config AND flag \<noteq> 0 then Running else Disabled
               | None \<Rightarrow> Disabled)) OBSERVERS)"

definition build_heartbeat_request ::
  "agent_controller_config \<Rightarrow> tapio_metrics \<Rightarrow> applied_config_identity option \<Rightarrow> u64 \<Rightarrow> heartbeat_request" where
  "build_heartbeat_request cc metrics applied uptime = build_heartbeat
     \<lparr>hs_agent_id = acc_agent_id cc, hs_node_name = acc_node_name cc, hs_uptime_seconds = uptime,
      hs_observers = observer_statuses applied,
      hs_counters =
        \<lparr>hc_events_total = cv_sum (m_events_total metrics),
         hc_malformed_events_total = cv_sum (m_malformed_events_total metrics),
         hc_lost_events_total = cv_sum (m_lost_events_total metrics),
         hc_correlation_drops_total = cv_sum (m_correlation_drops_total metrics),
         hc_sink_drops_total = cv_sum (m_sink_drops_total metrics),
         hc_controller_send_failures_total = cv_sum (m_controller_send_failures_total metrics)\<rparr>,
      hs_controller_mode = True, hs_active_config = applied\<rparr>"

section \<open>Hello\<close>

text \<open>\<open>read\<close> is \<open>read_to_string(path).ok()\<close>.\<close>

definition kernel_release_from :: "(string \<Rightarrow> string option) \<Rightarrow> string \<Rightarrow> string" where
  "kernel_release_from read path =
     (case map_option trim (read path) of
        Some value \<Rightarrow> if value \<noteq> [] then value else ''unknown''
      | None \<Rightarrow> ''unknown'')"

definition kernel_release :: "(string \<Rightarrow> string option) \<Rightarrow> string" where
  "kernel_release read = kernel_release_from read ''/proc/sys/kernel/osrelease''"

definition build_hello_request :: "string \<Rightarrow> string \<Rightarrow> agent_controller_config \<Rightarrow> string \<Rightarrow> hello_request" where
  "build_hello_request pkg_version arch cc release =
     \<lparr>hello_wire_version = WIRE_VERSION, hello_agent_id = acc_agent_id cc,
      hello_node_name = acc_node_name cc, hello_tapio_version = pkg_version,
      hello_kernel_release = release, hello_arch = arch,
      hello_capabilities = [], hello_object_sizes = [], hello_map_counts = []\<rparr>"

definition hello_url :: "agent_controller_config \<Rightarrow> string" where
  "hello_url cc = trim_end_char (CHR ''/'') (acc_endpoint cc) @ ''/v1/agents/hello''"

definition heartbeat_url :: "agent_controller_config \<Rightarrow> string" where
  "heartbeat_url cc = trim_end_char (CHR ''/'') (acc_endpoint cc) @ ''/v1/agents/heartbeat''"

section \<open>One exchange\<close>

datatype exchange_error =
    InvalidRequest wire_error
  | EncodeRequest string
  | ExchangeHttp http_error
  | ExchangeStatus nat
  | DecodeResponse string
  | InvalidResponse wire_error

text \<open>
  The steps that \<open>hello_once\<close> and \<open>heartbeat_once\<close> both take: validate, encode, post, check
  the status, decode, validate.
\<close>

definition exchange ::
  "(string \<Rightarrow> string + connection) \<Rightarrow> string \<Rightarrow> nat
     \<Rightarrow> ('q \<Rightarrow> wire_error + unit) \<Rightarrow> ('q \<Rightarrow> string + string)
     \<Rightarrow> (string \<Rightarrow> string + 'r) \<Rightarrow> ('r \<Rightarrow> wire_error + unit) \<Rightarrow> 'q \<Rightarrow> exchange_error + 'r" where
  "exchange connect url max_bytes validate to_json from_json check req =
     and_then (map_sum InvalidRequest id (validate req)) (\<lambda>_.
     and_then (map_sum EncodeRequest id (to_json req)) (\<lambda>body.
     and_then (map_sum ExchangeHttp id (post_json_response connect url body max_bytes)) (\<lambda>response.
     if \<not> is_success (hr_status response) then Inl (ExchangeStatus (hr_status response))
     else
       and_then (map_sum DecodeResponse id (from_json (hr_body response))) (\<lambda>r.
       and_then (map_sum InvalidResponse id (check r)) (\<lambda>_. Inr r)))))"

definition MAX_HELLO_RESPONSE_BYTES :: nat where "MAX_HELLO_RESPONSE_BYTES = 16 * 1024"
definition MAX_HEARTBEAT_RESPONSE_BYTES :: nat where "MAX_HEARTBEAT_RESPONSE_BYTES = 16 * 1024"

definition hello_once ::
  "(string \<Rightarrow> string + connection) \<Rightarrow> (hello_request \<Rightarrow> string + string) \<Rightarrow> (string \<Rightarrow> string + hello_response)
     \<Rightarrow> (string \<Rightarrow> string option) \<Rightarrow> string \<Rightarrow> string \<Rightarrow> agent_controller_config
     \<Rightarrow> exchange_error + hello_response" where
  "hello_once connect to_json from_json read pkg_version arch cc =
     exchange connect (hello_url cc) MAX_HELLO_RESPONSE_BYTES hello_request_validate to_json
       from_json hello_response_validate (build_hello_request pkg_version arch cc (kernel_release read))"

definition heartbeat_once ::
  "(string \<Rightarrow> string + connection) \<Rightarrow> (heartbeat_request \<Rightarrow> string + string)
     \<Rightarrow> (string \<Rightarrow> string + heartbeat_response) \<Rightarrow> agent_controller_config \<Rightarrow> tapio_metrics
     \<Rightarrow> applied_config_identity option \<Rightarrow> u64 \<Rightarrow> exchange_error + heartbeat_response" where
  "heartbeat_once connect to_json from_json cc metrics applied uptime =
     exchange connect (heartbeat_url cc) MAX_HEARTBEAT_RESPONSE_BYTES heartbeat_request_validate to_json
       from_json heartbeat_response_validate (build_heartbeat_request cc metrics applied uptime)"

section \<open>The registration loop\<close>

text \<open>Durations in seconds.\<close>

definition INITIAL_HELLO_BACKOFF :: nat where "INITIAL_HELLO_BACKOFF = 1"
definition MAX_HELLO_BACKOFF :: nat where "MAX_HELLO_BACKOFF = 60"

definition next_hello_backoff :: "nat \<Rightarrow> nat" where
  "next_hello_backoff delay = min (delay * 2) MAX_HELLO_BACKOFF"

datatype heartbeat_decision = ContinueBeating | ReRegister

definition count_send_failure :: "string \<Rightarrow> tapio_metrics \<Rightarrow> tapio_metrics" where
  "count_send_failure kind m = m\<lparr>m_controller_send_failures_total :=
     inc [kind] (m_controller_send_failures_total m)\<rparr>"

definition classify_heartbeat_result ::
  "exchange_error + heartbeat_response \<Rightarrow> tapio_metrics \<Rightarrow> heartbeat_decision \<times> tapio_metrics" where
  "classify_heartbeat_result r m =
     (case r of
        Inr response \<Rightarrow>
          if hbresp_accepted response then (ContinueBeating, m)
          else (ReRegister, count_send_failure ''heartbeat'' m)
      | Inl _ \<Rightarrow> (ContinueBeating, count_send_failure ''heartbeat'' m))"

text \<open>
  Where the loop waits: for a hello to complete, for the delay after a failed one, or in the
  heartbeat loop. \<open>rg_slept\<close> records the delays, latest last.
\<close>

datatype reg_phase = Helloing nat | Delaying nat | Beating | Stopped

record reg_state =
  rg_phase :: reg_phase
  rg_control :: agent_control
  rg_metrics :: tapio_metrics
  rg_slept :: "nat list"

datatype reg_input =
    ShutdownSignal
  | HelloDone "exchange_error + hello_response"
  | DelayDone
  | BeatDone "exchange_error + heartbeat_response"

definition hello_done :: "nat \<Rightarrow> exchange_error + hello_response \<Rightarrow> reg_state \<Rightarrow> reg_state" where
  "hello_done delay r st =
     (case r of
        Inr response \<Rightarrow>
          if hresp_accepted response then
            st\<lparr>rg_control := set_config_version (hresp_config_version response)
                 (set_batching (hresp_send_interval_ms response) (hresp_max_batch_events response)
                   (rg_control st)),
               rg_phase := Beating\<rparr>
          else st\<lparr>rg_metrics := count_send_failure ''hello'' (rg_metrics st), rg_phase := Delaying delay\<rparr>
      | Inl _ \<Rightarrow>
          st\<lparr>rg_metrics := count_send_failure ''hello'' (rg_metrics st), rg_phase := Delaying delay\<rparr>)"

fun reg_step :: "reg_input \<Rightarrow> reg_state \<Rightarrow> reg_state" where
  "reg_step ShutdownSignal st = st\<lparr>rg_phase := Stopped\<rparr>"
| "reg_step (HelloDone r) st =
     (case rg_phase st of Helloing delay \<Rightarrow> hello_done delay r st | _ \<Rightarrow> st)"
| "reg_step DelayDone st =
     (case rg_phase st of
        Delaying delay \<Rightarrow>
          st\<lparr>rg_slept := rg_slept st @ [delay], rg_phase := Helloing (next_hello_backoff delay)\<rparr>
      | _ \<Rightarrow> st)"
| "reg_step (BeatDone r) st =
     (case rg_phase st of
        Beating \<Rightarrow>
          (let (decision, m) = classify_heartbeat_result r (rg_metrics st)
           in st\<lparr>rg_metrics := m,
                 rg_phase := (if decision = ReRegister then Helloing INITIAL_HELLO_BACKOFF else Beating)\<rparr>)
      | _ \<Rightarrow> st)"

definition reg_init :: "agent_control \<Rightarrow> tapio_metrics \<Rightarrow> reg_state" where
  "reg_init control m =
     \<lparr>rg_phase = Helloing INITIAL_HELLO_BACKOFF, rg_control = control, rg_metrics = m, rg_slept = []\<rparr>"

section \<open>Lemmas\<close>

interpretation hello_delay: backoff INITIAL_HELLO_BACKOFF MAX_HELLO_BACKOFF next_hello_backoff
  by unfold_locales (simp_all add: INITIAL_HELLO_BACKOFF_def MAX_HELLO_BACKOFF_def next_hello_backoff_def)

lemma exchange_ok:
  "exchange connect url max_bytes validate to_json from_json check req = Inr r \<longleftrightarrow>
     (\<exists>body response. validate req = Inr () \<and> to_json req = Inr body
        \<and> post_json_response connect url body max_bytes = Inr response \<and> is_success (hr_status response)
        \<and> from_json (hr_body response) = Inr r \<and> check r = Inr ())"
  by (auto simp: exchange_def and_then_Inr map_sum_Inr split: if_splits)

lemma build_heartbeat_fields:
  "hb_observers (build_heartbeat_request cc m applied up) = observer_statuses applied"
  "hb_config_hash (build_heartbeat_request cc m applied up)
     = (case applied of Some a \<Rightarrow> aci_hash a | None \<Rightarrow> [])"
  "hb_config_version (build_heartbeat_request cc m applied up)
     = (case applied of Some a \<Rightarrow> aci_version a | None \<Rightarrow> ''0'')"
  "hb_agent_id (build_heartbeat_request cc m applied up) = acc_agent_id cc"
  "hb_node_name (build_heartbeat_request cc m applied up) = acc_node_name cc"
  "hb_wire_version (build_heartbeat_request cc m applied up) = WIRE_VERSION"
  "hb_degraded_reasons (build_heartbeat_request cc m applied up)
     = (if applied = None then [Unconfigured] else [])"
  by (auto simp: build_heartbeat_request_def build_heartbeat_def Let_def split: option.splits)

lemma observer_statuses_get:
  "bt_get (observer_statuses applied) obs =
     map_option (\<lambda>flag. case applied of
         Some a \<Rightarrow> if aci_flags a AND flag \<noteq> 0 then Running else Disabled | None \<Rightarrow> Disabled)
       (map_of OBSERVERS obs)"
  unfolding observer_statuses_def bt_from_get OBSERVERS_def by (simp split: option.splits)

lemma observer_statuses_not_Nil [simp]: "observer_statuses applied \<noteq> []"
proof
  assume "observer_statuses applied = []"
  then have "bt_get (observer_statuses applied) ''node'' = None" by simp
  then show False unfolding observer_statuses_get by (simp add: OBSERVERS_def)
qed

lemma build_heartbeat_valid:
  "heartbeat_request_validate (build_heartbeat_request cc m applied up) = Inr () \<longleftrightarrow>
     \<not> blank (acc_agent_id cc) \<and> \<not> blank (acc_node_name cc)
     \<and> (case applied of Some a \<Rightarrow> \<not> blank (aci_version a) | None \<Rightarrow> True)"
proof -
  have "\<not> blank ''0''" using dec_not_blank [of 0] by (simp add: dec_small digit_0)
  then show ?thesis
    by (auto simp: heartbeat_request_ok build_heartbeat_fields split: option.splits)
qed

text \<open>What the loop keeps: usable batching limits and delays within the cap.\<close>

definition delay_ok :: "nat \<Rightarrow> bool" where
  "delay_ok d \<longleftrightarrow> 0 < d \<and> d \<le> MAX_HELLO_BACKOFF"

definition reg_inv :: "reg_state \<Rightarrow> bool" where
  "reg_inv st \<longleftrightarrow> act_send_interval_ms (rg_control st) \<noteq> 0 \<and> act_max_batch_events (rg_control st) \<noteq> 0
     \<and> list_all delay_ok (rg_slept st)
     \<and> (case rg_phase st of Helloing d \<Rightarrow> delay_ok d | Delaying d \<Rightarrow> delay_ok d | _ \<Rightarrow> True)"

lemma delay_ok_next [simp]: "delay_ok d \<Longrightarrow> delay_ok (next_hello_backoff d)" "delay_ok INITIAL_HELLO_BACKOFF"
  by (auto simp: delay_ok_def next_hello_backoff_def INITIAL_HELLO_BACKOFF_def MAX_HELLO_BACKOFF_def)

lemma set_config_version_keeps [simp]:
  "act_send_interval_ms (set_config_version v st) = act_send_interval_ms st"
  "act_max_batch_events (set_config_version v st) = act_max_batch_events st"
  by (simp_all add: set_config_version_def)

interpretation registration: invariant_run reg_step reg_inv
proof
  fix st i assume "reg_inv st"
  then show "reg_inv (reg_step i st)"
    by (cases i; cases "rg_phase st")
      (auto simp: reg_inv_def hello_done_def Let_def split_def split: sum.splits)
qed

text \<open>A rejected or failed hello, the delay after it, and a series of them.\<close>

definition hello_failed :: "exchange_error + hello_response \<Rightarrow> bool" where
  "hello_failed r = (case r of Inl _ \<Rightarrow> True | Inr response \<Rightarrow> \<not> hresp_accepted response)"

definition failed_hellos :: "(exchange_error + hello_response) list \<Rightarrow> reg_input list" where
  "failed_hellos rs = concat (map (\<lambda>r. [HelloDone r, DelayDone]) rs)"

lemma failed_hello_step:
  "hello_failed r \<Longrightarrow> rg_phase st = Helloing d \<Longrightarrow>
     reg_step DelayDone (reg_step (HelloDone r) st)
       = st\<lparr>rg_metrics := count_send_failure ''hello'' (rg_metrics st), rg_slept := rg_slept st @ [d],
            rg_phase := Helloing (next_hello_backoff d)\<rparr>"
  by (cases r) (simp_all add: hello_done_def hello_failed_def)

lemma failed_hellos_run:
  "list_all hello_failed rs \<Longrightarrow> rg_phase st = Helloing d \<Longrightarrow>
     fold reg_step (failed_hellos rs) st
       = st\<lparr>rg_metrics := (count_send_failure ''hello'' ^^ length rs) (rg_metrics st),
            rg_slept := rg_slept st @ map (\<lambda>k. (next_hello_backoff ^^ k) d) [0..<length rs],
            rg_phase := Helloing ((next_hello_backoff ^^ length rs) d)\<rparr>"
proof (induction rs arbitrary: st d)
  case Nil
  then show ?case by (simp add: failed_hellos_def)
next
  case (Cons r rs)
  then show ?case
    using failed_hello_step [of r st d]
    by (simp add: failed_hellos_def hello_delay.delay_run funpow_swap1 del: reg_step.simps upt_Suc)
qed

lemma count_failures:
  "cv_inv (m_controller_send_failures_total m) \<Longrightarrow>
     cv_value (m_controller_send_failures_total ((count_send_failure kind ^^ n) m)) [kind]
       = cv_value (m_controller_send_failures_total m) [kind] + of_nat n
     \<and> cv_inv (m_controller_send_failures_total ((count_send_failure kind ^^ n) m))"
  by (induction n) (simp_all add: count_send_failure_def inc_def inc_value inc_inv)

section \<open>Properties\<close>

text \<open>
  The n-th consecutive hello that fails or is refused is followed by a delay of two to the n
  seconds, at most sixty; each one is counted, and the agent's batching limits and
  configuration version stay as they are until one is accepted.
\<close>

theorem hello_backoff:
  assumes "list_all hello_failed rs"
  shows "let st = fold reg_step (failed_hellos rs) (reg_init control metrics_new) in
     rg_slept st = map (\<lambda>k. min (2 ^ k) 60) [0..<length rs]
     \<and> rg_phase st = Helloing (min (2 ^ length rs) 60) \<and> rg_control st = control
     \<and> cv_value (m_controller_send_failures_total (rg_metrics st)) [''hello''] = of_nat (length rs)"
proof -
  have "rg_phase (reg_init control metrics_new) = Helloing INITIAL_HELLO_BACKOFF" by (simp add: reg_init_def)
  note run = failed_hellos_run [OF assms this]
  have delay: "(next_hello_backoff ^^ k) INITIAL_HELLO_BACKOFF = min (2 ^ k) 60" for k
    unfolding hello_delay.delay_after by (simp add: INITIAL_HELLO_BACKOFF_def MAX_HELLO_BACKOFF_def)
  show ?thesis
    unfolding Let_def run delay
    using count_failures [of metrics_new "length rs" "''hello''"]
    by (simp add: reg_init_def metrics_new_def counter_vec_new_facts)
qed

lemma hello_backoff_witness:
  "rg_slept (fold reg_step (failed_hellos (replicate 7 (Inl (ExchangeStatus 503))))
      (reg_init (agent_control_new ''0'') metrics_new)) = [1, 2, 4, 8, 16, 32, 60]"
  using hello_backoff [of "replicate 7 (Inl (ExchangeStatus 503))" "agent_control_new ''0''"]
  by (simp add: hello_failed_def Let_def upt_conv_Cons list_all_iff)

text \<open>
  In every run of the registration loop, whatever the controller answers, the batching limits
  of the agent are never zero and no delay before a hello is longer than a minute.
\<close>

theorem registration_invariant:
  "let st = fold reg_step inputs (reg_init (agent_control_new version) m) in
     act_send_interval_ms (rg_control st) \<noteq> 0 \<and> act_max_batch_events (rg_control st) \<noteq> 0
     \<and> list_all (\<lambda>d. 0 < d \<and> d \<le> 60) (rg_slept st)"
proof -
  have "reg_inv (reg_init (agent_control_new version) m)"
    by (simp add: reg_inv_def reg_init_def agent_control_new_def)
  from registration.inv_run [OF this, of inputs] show ?thesis
    by (simp add: reg_inv_def Let_def delay_ok_def [abs_def] MAX_HELLO_BACKOFF_def)
qed

text \<open>
  A heartbeat reports the version and hash of the applied configuration, every one of the four
  observers as running exactly when its flag is set in it, and degraded exactly when none is
  applied; it passes the controller's validation if and only if the agent's id, its node
  name and that version are not blank.
\<close>

theorem heartbeat_reports_applied:
  "let hb = build_heartbeat_request cc metrics applied uptime in
     (heartbeat_request_validate hb = Inr () \<longleftrightarrow>
        \<not> blank (acc_agent_id cc) \<and> \<not> blank (acc_node_name cc)
        \<and> \<not> blank (case applied of Some a \<Rightarrow> aci_version a | None \<Rightarrow> ''0''))
     \<and> hb_config_hash hb = (case applied of Some a \<Rightarrow> aci_hash a | None \<Rightarrow> [])
     \<and> (hb_degraded_reasons hb = [] \<longleftrightarrow> applied \<noteq> None)
     \<and> bt_get (hb_observers hb) obs =
         map_option (\<lambda>flag. case applied of
             Some a \<Rightarrow> if aci_flags a AND flag \<noteq> 0 then Running else Disabled | None \<Rightarrow> Disabled)
           (map_of [(''network'', TAPIO_F_NETWORK), (''storage'', TAPIO_F_STORAGE),
              (''container'', TAPIO_F_CONTAINER), (''node'', TAPIO_F_NODE_PMC)] obs)"
proof -
  have "\<not> blank ''0''" using dec_not_blank [of 0] by (simp add: dec_small digit_0)
  then show ?thesis
    unfolding Let_def build_heartbeat_valid build_heartbeat_fields observer_statuses_get OBSERVERS_def
    by (cases applied) simp_all
qed

end
