(* ===== verification/Civil.thy ===== *)
theory Civil
  imports Prelude
begin

text \<open>
  The calendar arithmetic of the agent: \<open>civil_from_days\<close> (\<open>tapio-common/src/occurrence.rs\<close>),
  its inverse \<open>days_from_civil\<close> (\<open>tapio-agent/src/sink/controller.rs\<close>), and the Gregorian
  calendar as the reference. The day counts that reach \<open>civil_from_days\<close> come from \<open>u64\<close>
  nanoseconds, far from the bounds of \<open>i64\<close>; \<open>days_from_civil\<close> gets parsed numbers, so the
  wrap-around of \<open>i64\<close> is written out there.
\<close>

definition civil_from_days :: "int \<Rightarrow> int \<times> int \<times> int" where
  "civil_from_days days_since_unix_epoch =
     (let z = days_since_unix_epoch + 719468;
          era = tdiv (if z \<ge> 0 then z else z - 146096) 146097;
          doe = z - era * 146097;
          yoe = tdiv (doe - tdiv doe 1460 + tdiv doe 36524 - tdiv doe 146096) 365;
          year = yoe + era * 400;
          doy = doe - (365 * yoe + tdiv yoe 4 - tdiv yoe 100);
          mp = tdiv (5 * doy + 2) 153;
          day = doy - tdiv (153 * mp + 2) 5 + 1;
          month = mp + (if mp < 10 then 3 else - 9)
      in (if month \<le> 2 then year + 1 else year, month, day))"

definition days_from_civil :: "int \<Rightarrow> int \<Rightarrow> int \<Rightarrow> int" where
  "days_from_civil year0 month0 day =
     (let year = w64 (year0 - (if month0 \<le> 2 then 1 else 0));
          era = tdiv (if year \<ge> 0 then year else w64 (year - 399)) 400;
          yoe = w64 (year - w64 (era * 400));
          month = w64 (month0 + (if month0 > 2 then - 3 else 9));
          doy = w64 (w64 (tdiv (w64 (w64 (153 * month) + 2)) 5 + day) - 1);
          doe = w64 (w64 (w64 (w64 (yoe * 365) + tdiv yoe 4) - tdiv yoe 100) + doy)
      in w64 (w64 (w64 (era * 146097) + doe) - 719468))"

section \<open>The calendar\<close>

definition is_leap :: "int \<Rightarrow> bool" where
  "is_leap y \<longleftrightarrow> 4 dvd y \<and> (\<not> 100 dvd y \<or> 400 dvd y)"

definition month_length :: "int \<Rightarrow> int \<Rightarrow> int" where
  "month_length y m =
     (if m = 2 then (if is_leap y then 29 else 28) else if m \<in> {4, 6, 9, 11} then 30 else 31)"

definition next_date :: "int \<times> int \<times> int \<Rightarrow> int \<times> int \<times> int" where
  "next_date d =
     (case d of (y, m, k) \<Rightarrow>
        if k < month_length y m then (y, m, k + 1) else if m < 12 then (y, m + 1, 1) else (y + 1, 1, 1))"

section \<open>Years of an era\<close>

text \<open>The first day of year \<open>y\<close> of a 400-year era that starts on the first of March.\<close>

definition year_start :: "int \<Rightarrow> int" where
  "year_start y = 365 * y + y div 4 - y div 100"

definition year_formula :: "int \<Rightarrow> int" where
  "year_formula doe = doe - doe div 1460 + doe div 36524 - doe div 146096"

definition year_end :: "int \<Rightarrow> int" where
  "year_end y = (if y = 399 then 146096 else year_start (y + 1) - 1)"

lemma div_succ: "0 < k \<Longrightarrow> x div k \<le> (x + 1) div k \<and> (x + 1) div k \<le> x div k + 1" for x k :: int
proof -
  assume k: "0 < k"
  have "x div k \<le> (x + 1) div k" by (rule zdiv_mono1) (use k in simp_all)
  moreover have "(x + 1) div k \<le> (x + k) div k" by (rule zdiv_mono1) (use k in simp_all)
  moreover have "(x + k) div k = x div k + 1" by (subst div_add_self2) (use k in simp_all)
  ultimately show ?thesis by simp
qed

lemma year_formula_step: "0 \<le> x \<Longrightarrow> x < 146096 \<Longrightarrow> year_formula x \<le> year_formula (x + 1)"
proof (cases "x = 146095")
  case True
  then show ?thesis by (simp add: year_formula_def)
next
  case False
  assume "0 \<le> x" "x < 146096"
  with False have "x div 146096 = 0" "(x + 1) div 146096 = 0" by simp_all
  moreover note div_succ [of 1460 x] div_succ [of 36524 x]
  ultimately show ?thesis by (simp add: year_formula_def)
qed

lemma year_formula_mono:
  assumes "0 \<le> x" "x \<le> y" "y \<le> 146096"
  shows "year_formula x \<le> year_formula y"
  using assms(2,3)
proof (induction rule: int_ge_induct)
  case base
  then show ?case by simp
next
  case (step i)
  with assms(1) year_formula_step [of i] show ?case by simp
qed

lemma years_table:
  "list_all (\<lambda>y. 365 * y \<le> year_formula (year_start y) \<and> year_formula (year_end y) < 365 * (y + 1)
     \<and> year_start y \<le> year_end y \<and> year_end y \<le> year_start y + 365) [0..399]"
  by code_simp

lemma year_bounds:
  assumes "0 \<le> y" "y < 400"
  shows "365 * y \<le> year_formula (year_start y)" "year_formula (year_end y) < 365 * (y + 1)"
    "year_start y \<le> year_end y" "year_end y \<le> year_start y + 365"
  using years_table assms unfolding list_all_iff by auto

lemma year_start_mono: "x \<le> y \<Longrightarrow> year_start x \<le> year_start y" if "0 \<le> x"
proof -
  assume le: "x \<le> y"
  then show ?thesis
  proof (induction rule: int_ge_induct)
    case (step i)
    have "i div 4 \<le> (i + 1) div 4" "(i + 1) div 100 \<le> i div 100 + 1" using div_succ by simp_all
    with step.IH show ?case by (simp add: year_start_def)
  qed simp
qed

text \<open>The formula finds the year that a day of the era falls in.\<close>

lemma year_found:
  assumes "0 \<le> y" "y < 400" "year_start y \<le> doe" "doe \<le> year_end y"
  shows "year_formula doe div 365 = y"
proof -
  have s0: "0 \<le> year_start y" using year_start_mono [of 0 y] assms(1) by (simp add: year_start_def)
  have e: "year_end y \<le> 146096"
  proof (cases "y = 399")
    case False
    then have "year_start (y + 1) \<le> year_start 399" using assms by (intro year_start_mono) simp_all
    with False show ?thesis by (simp add: year_end_def) (simp add: year_start_def)
  qed (simp add: year_end_def)
  have "365 * y \<le> year_formula doe"
    using year_bounds(1) [OF assms(1,2)] year_formula_mono [OF s0 assms(3)] assms(4) e by simp
  moreover have "year_formula doe < 365 * (y + 1)"
    using year_bounds(2) [OF assms(1,2)] year_formula_mono [of doe "year_end y"] assms s0 e by simp
  ultimately show ?thesis by (simp add: int_div_pos_eq [of _ 365 y "year_formula doe - 365 * y"])
qed

lemma year_exists:
  assumes "0 \<le> doe" "doe \<le> 146096"
  shows "\<exists>y. 0 \<le> y \<and> y < 400 \<and> year_start y \<le> doe \<and> doe \<le> year_end y"
proof -
  define ys where "ys = {y. 0 \<le> y \<and> y < 400 \<and> year_start y \<le> doe}"
  have "finite ys" by (rule finite_subset [of _ "{0..399}"]) (auto simp: ys_def)
  moreover have "0 \<in> ys" using assms by (simp add: ys_def year_start_def)
  ultimately have m: "Max ys \<in> ys" "\<And>y. y \<in> ys \<Longrightarrow> y \<le> Max ys" by (auto intro: Max_in)
  let ?y = "Max ys"
  have "doe \<le> year_end ?y"
  proof (cases "?y = 399")
    case True
    then show ?thesis using assms by (simp add: year_end_def)
  next
    case False
    with m(1) have "0 \<le> ?y + 1" "?y + 1 < 400" by (auto simp: ys_def)
    with m(2) [of "?y + 1"] have "\<not> year_start (?y + 1) \<le> doe" by (auto simp: ys_def)
    with False show ?thesis by (simp add: year_end_def)
  qed
  with m(1) show ?thesis by (auto simp: ys_def)
qed

section \<open>Days of a year\<close>

text \<open>Month and day of the day \<open>doy\<close> of a year that starts on the first of March.\<close>

definition march_index :: "int \<Rightarrow> int" where
  "march_index doy = (5 * doy + 2) div 153"

definition month_day :: "int \<Rightarrow> int \<times> int" where
  "month_day doy =
     (let mp = march_index doy
      in (mp + (if mp < 10 then 3 else - 9), doy - (153 * mp + 2) div 5 + 1))"

definition date_of :: "int \<Rightarrow> int \<Rightarrow> int \<times> int \<times> int" where
  "date_of y doy = (let (m, d) = month_day doy in (if m \<le> 2 then y + 1 else y, m, d))"

lemma days_table:
  "list_all (\<lambda>doy. case (month_day doy, month_day (doy + 1)) of ((m, d), (m', d')) \<Rightarrow>
     if d < month_length 2000 m then m' = m \<and> d' = d + 1
     else m \<noteq> 2 \<and> m' = (if m = 12 then 1 else m + 1) \<and> d' = 1) [0..364]"
  by code_simp

lemma months_table:
  "list_all (\<lambda>doy. case month_day doy of (m, d) \<Rightarrow>
     0 \<le> march_index doy \<and> march_index doy \<le> 11 \<and> 1 \<le> m \<and> m \<le> 12 \<and> 1 \<le> d \<and> d \<le> 31
     \<and> (m = 2 \<longrightarrow> d = doy - 336) \<and> (doy = 364 \<longrightarrow> m = 2) \<and> (doy = 365 \<longrightarrow> m = 2)) [0..365]"
  by code_simp

lemma leap_table:
  "list_all (\<lambda>y. year_end y - year_start y = (if is_leap (y + 1) then 365 else 364)) [0..399]"
  by code_simp

lemma is_leap_period: "is_leap (y + 400 * k) = is_leap y"
proof -
  have "(4::int) dvd 400 * k" "(100::int) dvd 400 * k" "(400::int) dvd 400 * k"
    by (auto intro: dvd_mult2)
  then show ?thesis unfolding is_leap_def by (simp only: dvd_add_left_iff)
qed

lemma year_length:
  "0 \<le> y \<Longrightarrow> y < 400 \<Longrightarrow> year_end y - year_start y = (if is_leap (y + 1) then 365 else 364)"
  using leap_table unfolding list_all_iff by auto

lemma month_day_facts:
  assumes "0 \<le> doy" "doy \<le> 365" "month_day doy = (m, d)"
  shows "0 \<le> march_index doy" "march_index doy \<le> 11" "1 \<le> m" "m \<le> 12" "1 \<le> d" "d \<le> 31"
    "m = 2 \<Longrightarrow> d = doy - 336" "364 \<le> doy \<Longrightarrow> m = 2"
proof -
  from assms have "doy \<in> set [0..365]" by simp
  with months_table assms(3) have *: "0 \<le> march_index doy \<and> march_index doy \<le> 11 \<and> 1 \<le> m \<and> m \<le> 12
      \<and> 1 \<le> d \<and> d \<le> 31 \<and> (m = 2 \<longrightarrow> d = doy - 336) \<and> (doy = 364 \<longrightarrow> m = 2) \<and> (doy = 365 \<longrightarrow> m = 2)"
    unfolding list_all_iff by fastforce
  then show "0 \<le> march_index doy" "march_index doy \<le> 11" "1 \<le> m" "m \<le> 12" "1 \<le> d" "d \<le> 31"
    "m = 2 \<Longrightarrow> d = doy - 336" by blast+
  assume "364 \<le> doy"
  with assms(2) have "doy = 364 \<or> doy = 365" by arith
  with * show "m = 2" by blast
qed

lemma month_day_step:
  assumes "0 \<le> doy" "doy \<le> 364" "month_day doy = (m, d)"
  shows "month_day (doy + 1) =
     (if d < month_length 2000 m then (m, d + 1) else (if m = 12 then 1 else m + 1, 1))"
    and "\<not> d < month_length 2000 m \<Longrightarrow> m \<noteq> 2"
proof -
  from assms have "doy \<in> set [0..364]" by simp
  moreover obtain m' d' where md: "month_day (doy + 1) = (m', d')" by force
  ultimately have *: "if d < month_length 2000 m then m' = m \<and> d' = d + 1
     else m \<noteq> 2 \<and> m' = (if m = 12 then 1 else m + 1) \<and> d' = 1"
    using days_table assms(3) unfolding list_all_iff by fastforce
  then show "month_day (doy + 1) =
     (if d < month_length 2000 m then (m, d + 1) else (if m = 12 then 1 else m + 1, 1))"
    unfolding md by (simp split: if_splits)
  from * show "\<not> d < month_length 2000 m \<Longrightarrow> m \<noteq> 2" by simp
qed

lemma month_length_2000: "m \<noteq> 2 \<Longrightarrow> month_length y m = month_length 2000 m"
  by (simp add: month_length_def)

lemma month_length_feb: "month_length y 2 = (if is_leap y then 29 else 28)" "month_length 2000 2 = 29"
  by (simp_all add: month_length_def is_leap_def)

lemma next_date_within_year:
  assumes "0 \<le> doy" "doy \<le> 364" "doy = 364 \<Longrightarrow> is_leap (y + 1)"
  shows "next_date (date_of y doy) = date_of y (doy + 1)"
proof -
  obtain m d where md: "month_day doy = (m, d)" by force
  have le: "doy \<le> 365" using assms by simp
  note f = month_day_facts [OF assms(1) le md] and s = month_day_step [OF assms(1,2) md]
  show ?thesis
  proof (cases "m = 2")
    case True
    then have d: "d = doy - 336" by (rule f(7))
    have "d < month_length (y + 1) 2"
      using d assms(2,3) by (cases "doy = 364") (auto simp: month_length_feb)
    moreover have "d < month_length 2000 m" using d assms(2) True by (simp add: month_length_feb(2))
    ultimately show ?thesis using True s(1) by (simp add: date_of_def md next_date_def)
  next
    case False
    then have "month_length (if m \<le> 2 then y + 1 else y) m = month_length 2000 m"
      by (rule month_length_2000)
    with s(1) f(3,4) False show ?thesis by (auto simp: date_of_def md next_date_def)
  qed
qed

lemma next_date_new_year:
  assumes "doy = (if is_leap (y + 1) then 365 else 364)"
  shows "next_date (date_of y doy) = date_of (y + 1) 0"
proof -
  obtain m d where md: "month_day doy = (m, d)" by force
  have b: "0 \<le> doy" "doy \<le> 365" "364 \<le> doy" using assms by (simp_all split: if_splits)
  note f = month_day_facts [OF b(1,2) md]
  have m: "m = 2" using f(8) b(3) by simp
  with f(7) assms have "\<not> d < month_length (y + 1) 2" by (simp add: month_length_feb split: if_splits)
  moreover have "month_day 0 = (3, 1)" by code_simp
  ultimately show ?thesis using m by (simp add: date_of_def md next_date_def)
qed

section \<open>The two functions\<close>

lemma tdiv_pos: "0 \<le> a \<Longrightarrow> 0 < b \<Longrightarrow> tdiv a b = a div b"
  by (rule tdiv_nonneg)

lemma year_start_nonneg: "0 \<le> y \<Longrightarrow> 0 \<le> year_start y"
  using year_start_mono [of 0 y] by (simp add: year_start_def)

lemma year_end_le: "0 \<le> y \<Longrightarrow> y < 400 \<Longrightarrow> year_end y \<le> 146096"
  using year_start_mono [of "y + 1" 399] by (auto simp: year_end_def) (simp add: year_start_def)

text \<open>Every day from the first of March of the year 0 on, as era, year and day of the year.\<close>

lemma day_coordinates:
  assumes "- 719468 \<le> n"
  obtains era y doy where "0 \<le> era" "0 \<le> y" "y < 400" "0 \<le> doy" "doy \<le> year_end y - year_start y"
    "n = era * 146097 + year_start y + doy - 719468"
proof -
  define z where "z = n + 719468"
  have z: "0 \<le> z" using assms by (simp add: z_def)
  have "0 \<le> z mod 146097" "z mod 146097 \<le> 146096"
    using pos_mod_bound [of 146097 z] by simp_all
  then obtain y where y: "0 \<le> y" "y < 400" "year_start y \<le> z mod 146097" "z mod 146097 \<le> year_end y"
    using year_exists by blast
  have "n = (z div 146097) * 146097 + year_start y + (z mod 146097 - year_start y) - 719468"
    using div_mult_mod_eq [of z 146097] by (simp add: z_def)
  then show ?thesis
    using y z by (intro that [of "z div 146097" y "z mod 146097 - year_start y"])
      (simp_all add: pos_imp_zdiv_nonneg_iff)
qed

lemma civil_from_coordinates:
  assumes "0 \<le> era" "0 \<le> y" "y < 400" "0 \<le> doy" "doy \<le> year_end y - year_start y"
  shows "civil_from_days (era * 146097 + year_start y + doy - 719468) = date_of (y + 400 * era) doy"
proof -
  define doe where "doe = year_start y + doy"
  have doe: "0 \<le> doe" "doe \<le> 146096" "year_start y \<le> doe" "doe \<le> year_end y"
    using assms year_start_nonneg [of y] year_end_le [of y] by (simp_all add: doe_def)
  have div: "(era * 146097 + doe) div 146097 = era"
    using doe by (simp add: div_mult_self3)
  have nonneg: "0 \<le> era * 146097 + doe" using assms(1) doe by simp
  have yf: "year_formula doe div 365 = y" using year_found [OF assms(2,3) doe(3,4)] .
  have y0: "0 \<le> year_formula doe"
    using year_formula_mono [of 0 doe] doe by (simp add: year_formula_def)
  have d365: "doy \<le> 365" using assms(5) year_bounds(4) [OF assms(2,3)] by simp
  obtain m d where md: "month_day doy = (m, d)" by force
  have mi: "0 \<le> march_index doy" using month_day_facts(1) [OF assms(4) d365 md] .
  have z: "era * 146097 + doe - 719468 + 719468 = era * 146097 + doe" by simp
  have t1: "tdiv (if era * 146097 + doe \<ge> 0 then era * 146097 + doe else era * 146097 + doe - 146096) 146097 = era"
    using nonneg div by (simp add: tdiv_pos)
  have t2: "era * 146097 + doe - era * 146097 = doe" by simp
  have t3: "tdiv (doe - tdiv doe 1460 + tdiv doe 36524 - tdiv doe 146096) 365 = y"
    using yf y0 doe(1) by (simp add: tdiv_pos year_formula_def)
  have t4: "doe - (365 * y + tdiv y 4 - tdiv y 100) = doy"
    using assms(2) by (simp add: tdiv_pos doe_def year_start_def)
  have t5: "tdiv (5 * doy + 2) 153 = march_index doy"
    using assms(4) by (simp add: tdiv_pos march_index_def)
  have t6: "tdiv (153 * march_index doy + 2) 5 = (153 * march_index doy + 2) div 5"
    using mi by (simp add: tdiv_pos)
  have "civil_from_days (era * 146097 + doe - 719468) = date_of (y + 400 * era) doy"
    unfolding civil_from_days_def date_of_def month_day_def Let_def z t1 t2 t3 t4 t5 t6
    by (simp add: add.commute mult.commute)
  then show ?thesis by (simp add: doe_def add.assoc)
qed

lemma epoch_date: "civil_from_days 0 = (1970, 1, 1)"
  by code_simp

lemma next_year_start: "0 \<le> y \<Longrightarrow> y < 399 \<Longrightarrow> year_start (y + 1) = year_end y + 1"
  by (simp add: year_end_def)

lemma next_day:
  assumes "- 719468 \<le> n"
  shows "civil_from_days (n + 1) = next_date (civil_from_days n)"
proof -
  obtain era y doy where c: "0 \<le> era" "0 \<le> y" "y < 400" "0 \<le> doy" "doy \<le> year_end y - year_start y"
    and n: "n = era * 146097 + year_start y + doy - 719468"
    using day_coordinates [OF assms] .
  let ?Y = "y + 400 * era"
  have leap: "is_leap (?Y + 1) = is_leap (y + 1)"
  proof -
    have "?Y + 1 = (y + 1) + 400 * era" by simp
    then show ?thesis by (simp only: is_leap_period)
  qed
  note len = year_length [OF c(2,3)]
  note now = civil_from_coordinates [OF c, folded n]
  show ?thesis
  proof (cases "doy = year_end y - year_start y")
    case False
    have "civil_from_days (era * 146097 + year_start y + (doy + 1) - 719468) = date_of ?Y (doy + 1)"
      using c False by (intro civil_from_coordinates) simp_all
    moreover have "next_date (date_of ?Y doy) = date_of ?Y (doy + 1)"
      using c False len leap by (intro next_date_within_year) (auto split: if_splits)
    moreover have "era * 146097 + year_start y + (doy + 1) - 719468 = n + 1" using n by simp
    ultimately show ?thesis using now by (simp only:)
  next
    case last: True
    have new: "next_date (date_of ?Y doy) = date_of (?Y + 1) 0"
      using last len leap by (intro next_date_new_year) simp
    have "civil_from_days (n + 1) = date_of (?Y + 1) 0"
    proof (cases "y = 399")
      case True
      have "civil_from_days ((era + 1) * 146097 + year_start 0 + 0 - 719468) = date_of (0 + 400 * (era + 1)) 0"
        using c(1) year_bounds(3) [of 0] by (intro civil_from_coordinates) simp_all
      moreover have "(era + 1) * 146097 + year_start 0 + 0 - 719468 = n + 1"
        using True last n by (simp add: year_end_def) (simp add: year_start_def)
      ultimately show ?thesis using True by (simp add: algebra_simps)
    next
      case False
      have "civil_from_days (era * 146097 + year_start (y + 1) + 0 - 719468) = date_of (y + 1 + 400 * era) 0"
        using c False year_bounds(3) [of "y + 1"] by (intro civil_from_coordinates) simp_all
      moreover have "era * 146097 + year_start (y + 1) + 0 - 719468 = n + 1"
        using False last n c next_year_start [of y] by simp
      ultimately show ?thesis by (simp add: algebra_simps)
    qed
    with now new show ?thesis by simp
  qed
qed

lemma civil_ranges:
  assumes "- 719468 \<le> n" "civil_from_days n = (y, m, d)"
  shows "1 \<le> m" "m \<le> 12" "1 \<le> d" "d \<le> 31"
proof -
  obtain era yy doy where c: "0 \<le> era" "0 \<le> yy" "yy < 400" "0 \<le> doy" "doy \<le> year_end yy - year_start yy"
    and n: "n = era * 146097 + year_start yy + doy - 719468"
    using day_coordinates [OF assms(1)] .
  have "doy \<le> 365" using c(5) year_bounds(4) [OF c(2,3)] by simp
  moreover obtain m' d' where md: "month_day doy = (m', d')" by force
  ultimately have "1 \<le> m'" "m' \<le> 12" "1 \<le> d'" "d' \<le> 31"
    using month_day_facts [OF c(4) _ md] by simp_all
  moreover have "m' = m" "d' = d"
    using civil_from_coordinates [OF c, folded n] assms(2) by (simp_all add: date_of_def md)
  ultimately show "1 \<le> m" "m \<le> 12" "1 \<le> d" "d \<le> 31" by simp_all
qed

text \<open>Years stay small for the day counts of \<open>u64\<close> nanoseconds.\<close>

lemma civil_year_bounds:
  assumes "0 \<le> n" "n \<le> 213503" "civil_from_days n = (y, m, d)"
  shows "0 \<le> y" "y < 10000"
proof -
  obtain era yy doy where c: "0 \<le> era" "0 \<le> yy" "yy < 400" "0 \<le> doy" "doy \<le> year_end yy - year_start yy"
    and n: "n = era * 146097 + year_start yy + doy - 719468"
    using day_coordinates [of n] assms(1) by auto
  have "era * 146097 \<le> 932971" using n c(4) year_start_nonneg [OF c(2)] assms(2) by simp
  then have "era \<le> 6" by simp
  moreover have "y = yy + 400 * era \<or> y = yy + 400 * era + 1"
    using civil_from_coordinates [OF c, folded n] assms(3)
    by (auto simp: date_of_def Let_def split_def split: if_splits)
  ultimately show "0 \<le> y" "y < 10000" using c(1-3) by auto
qed

text \<open>\<open>days_from_civil\<close> inverts \<open>civil_from_days\<close>, without overflow on these days.\<close>

lemma days_from_coordinates:
  assumes "0 \<le> era" "era \<le> 6" "0 \<le> y" "y < 400" "0 \<le> doy" "doy \<le> 365"
    and "date_of (y + 400 * era) doy = (yr, m, d)"
  shows "days_from_civil yr m d = era * 146097 + year_start y + doy - 719468"
proof -
  obtain m' d' where md: "month_day doy = (m', d')" by force
  note f = month_day_facts [OF assms(5,6) md]
  have e: "m' = m" "d' = d" "yr = (if m \<le> 2 then y + 400 * era + 1 else y + 400 * era)"
    using assms(7) by (auto simp: date_of_def md)
  have mp: "march_index doy = (if m > 2 then m - 3 else m + 9)"
    "d = doy - (153 * march_index doy + 2) div 5 + 1"
    using md f(1,2) e unfolding month_day_def Let_def by (auto split: if_splits)
  define k where "k = march_index doy"
  have k: "0 \<le> k" "k \<le> 11" using f(1,2) by (simp_all add: k_def)
  have k5: "0 \<le> (153 * k + 2) div 5" "(153 * k + 2) div 5 \<le> 337"
  proof -
    show "0 \<le> (153 * k + 2) div 5" using k by (simp add: pos_imp_zdiv_nonneg_iff)
    have "(153 * k + 2) div 5 \<le> (153 * 11 + 2) div 5" by (rule zdiv_mono1) (use k in simp_all)
    then show "(153 * k + 2) div 5 \<le> 337" by simp
  qed
  have yq: "0 \<le> y div 4" "y div 4 \<le> 99" "0 \<le> y div 100" "y div 100 \<le> 3" using assms(3,4) by auto
  have div400: "(y + 400 * era) div 400 = era" using assms(3,4) by simp
  have kd: "(153 * k + 2) div 5 + d - 1 = doy" using mp(2) by (simp add: k_def)
  have Y: "0 \<le> y + 400 * era" "y + 400 * era < 2800" using assms(1-4) by simp_all
  have t1: "w64 (yr - (if m \<le> 2 then 1 else 0)) = y + 400 * era"
    using e(3) Y by (cases "m \<le> 2") (simp_all add: w64_id)
  have t2: "tdiv (if y + 400 * era \<ge> 0 then y + 400 * era else w64 (y + 400 * era - 399)) 400 = era"
    using Y div400 by (simp add: tdiv_pos)
  have t3: "w64 (y + 400 * era - w64 (era * 400)) = y" using assms(1-4) by (simp add: w64_id)
  have t4: "w64 (m + (if m > 2 then - 3 else 9)) = k"
    using mp(1) k f(3,4) e(1) by (cases "m > 2") (simp_all add: w64_id k_def)
  have t5: "w64 (w64 (tdiv (w64 (w64 (153 * k) + 2)) 5 + d) - 1) = doy"
    using k k5 kd f(5,6) e(2) assms(5,6) by (simp add: w64_id tdiv_pos)
  have t6: "w64 (w64 (w64 (w64 (y * 365) + tdiv y 4) - tdiv y 100) + doy) = year_start y + doy"
    using assms(3-6) yq by (simp add: w64_id tdiv_pos year_start_def)
  have ys: "0 \<le> year_start y" "year_start y \<le> 365 * 400 + 100"
    using year_start_nonneg [OF assms(3)] assms(4) yq by (simp_all add: year_start_def)
  have t7: "w64 (w64 (w64 (era * 146097) + (year_start y + doy)) - 719468)
      = era * 146097 + year_start y + doy - 719468"
    using assms(1,2,5,6) ys by (simp add: w64_id)
  show ?thesis unfolding days_from_civil_def Let_def t1 t2 t3 t4 t5 t6 t7 ..
qed

lemma days_of_civil:
  assumes "0 \<le> n" "n \<le> 213503" "civil_from_days n = (y, m, d)"
  shows "days_from_civil y m d = n"
proof -
  obtain era yy doy where c: "0 \<le> era" "0 \<le> yy" "yy < 400" "0 \<le> doy" "doy \<le> year_end yy - year_start yy"
    and n: "n = era * 146097 + year_start yy + doy - 719468"
    using day_coordinates [of n] assms(1) by auto
  have "era * 146097 \<le> 932971" using n c(4) year_start_nonneg [OF c(2)] assms(2) by simp
  then have "era \<le> 6" by simp
  moreover have "doy \<le> 365" using c(5) year_bounds(4) [OF c(2,3)] by simp
  ultimately show ?thesis
    using days_from_coordinates [OF c(1) _ c(2-4)] civil_from_coordinates [OF c, folded n] assms(3) n by simp
qed

section \<open>Properties\<close>

text \<open>
  The date computed for a day count is the date reached from the first of January 1970 by that
  many calendar steps of the Gregorian calendar, leap years and centuries included.
\<close>

theorem civil_is_gregorian: "civil_from_days (int n) = (next_date ^^ n) (1970, 1, 1)"
proof (induction n)
  case 0
  then show ?case by (simp add: epoch_date)
next
  case (Suc n)
  have "civil_from_days (int n + 1) = next_date (civil_from_days (int n))" by (rule next_day) simp
  with Suc show ?case by (simp add: add.commute)
qed

text \<open>
  Converting a date back to days inverts the conversion of days to a date, for every day that a
  64-bit nanosecond timestamp can fall on.
\<close>

theorem civil_roundtrip:
  assumes "0 \<le> n" "n \<le> 213503"
  shows "(case civil_from_days n of (y, m, d) \<Rightarrow> days_from_civil y m d) = n"
  using days_of_civil [OF assms] by (simp split: prod.splits)

lemma civil_roundtrip_witness:
  "(case civil_from_days 19782 of (y, m, d) \<Rightarrow> days_from_civil y m d) = 19782"
  by (rule civil_roundtrip) simp_all

end
