(* ===== verification/Occurrence.thy ===== *)
theory Occurrence
  imports Civil Json
begin

text \<open>
  \<open>tapio-common/src/occurrence.rs\<close> and \<open>events.rs\<close>: the occurrence documents the observers
  emit, their builder, their validation and the RFC 3339 text of their timestamps. The
  ULID generator and the clock are parameters.
\<close>

section \<open>Event types\<close>

definition NETWORK_CONNECTION_REFUSED :: string where
  "NETWORK_CONNECTION_REFUSED = ''kernel.network.connection_refused''"
definition NETWORK_CONNECTION_TIMEOUT :: string where
  "NETWORK_CONNECTION_TIMEOUT = ''kernel.network.connection_timeout''"
definition NETWORK_RETRANSMIT_SPIKE :: string where
  "NETWORK_RETRANSMIT_SPIKE = ''kernel.network.retransmit_spike''"
definition NETWORK_RTT_DEGRADATION :: string where
  "NETWORK_RTT_DEGRADATION = ''kernel.network.rtt_degradation''"
definition CONTAINER_OOM_KILL :: string where
  "CONTAINER_OOM_KILL = ''kernel.container.oom_kill''"
definition CONTAINER_ABNORMAL_EXIT :: string where
  "CONTAINER_ABNORMAL_EXIT = ''kernel.container.abnormal_exit''"
definition STORAGE_IO_ERROR :: string where
  "STORAGE_IO_ERROR = ''kernel.storage.io_error''"
definition STORAGE_LATENCY_SPIKE :: string where
  "STORAGE_LATENCY_SPIKE = ''kernel.storage.latency_spike''"
definition NODE_CPU_STALL :: string where
  "NODE_CPU_STALL = ''kernel.node.cpu_stall''"
definition NODE_MEMORY_PRESSURE :: string where
  "NODE_MEMORY_PRESSURE = ''kernel.node.memory_pressure''"
definition NODE_IPC_DEGRADATION :: string where
  "NODE_IPC_DEGRADATION = ''kernel.node.ipc_degradation''"

lemmas event_types =
  NETWORK_CONNECTION_REFUSED_def NETWORK_CONNECTION_TIMEOUT_def NETWORK_RETRANSMIT_SPIKE_def
  NETWORK_RTT_DEGRADATION_def CONTAINER_OOM_KILL_def CONTAINER_ABNORMAL_EXIT_def
  STORAGE_IO_ERROR_def STORAGE_LATENCY_SPIKE_def NODE_CPU_STALL_def NODE_MEMORY_PRESSURE_def
  NODE_IPC_DEGRADATION_def

section \<open>Documents\<close>

datatype severity = SevDebug | SevInfo | SevWarning | SevError | SevCritical

datatype outcome = OutSuccess | OutFailure | OutTimeout | OutInProgress | OutUnknown

record occurrence_error =
  oe_code :: string
  oe_message :: string
  oe_what_failed :: "string option"
  oe_why_it_matters :: "string option"
  oe_possible_causes :: "string list option"
  oe_suggested_fix :: "string option"

record reasoning =
  rea_summary :: "string option"
  rea_explanation :: "string option"
  rea_confidence :: "f64 option"
  rea_causal_chain :: "string list option"
  rea_patterns_matched :: "string list option"

record history =
  his_previous_ids :: "string list option"
  his_lifecycle :: "string option"

record entity =
  ent_kind :: string
  ent_id :: string
  ent_name :: "string option"
  ent_version :: "string option"

record occ_context =
  ctx_cluster :: "string option"
  ctx_node :: "string option"
  ctx_namespace :: "string option"
  ctx_trace_id :: "string option"
  ctx_span_id :: "string option"
  ctx_entities :: "entity list"
  ctx_correlation_keys :: "string list"

record occurrence =
  occ_id :: string
  occ_timestamp :: string
  occ_source :: string
  occ_type :: string
  occ_severity :: severity
  occ_outcome :: outcome
  occ_protocol_version :: string
  occ_error :: "occurrence_error option"
  occ_context :: "occ_context option"
  occ_reasoning :: "reasoning option"
  occ_history :: "history option"
  occ_data :: "json option"

section \<open>Timestamps\<close>

definition unix_nanos_to_rfc3339 :: "u64 \<Rightarrow> string" where
  "unix_nanos_to_rfc3339 nanos =
     (let n = unat nanos;
          secs = n div 1000000000;
          subsec_nanos = n mod 1000000000;
          days = int (secs div 86400);
          seconds_of_day = secs mod 86400;
          (year, month, day) = civil_from_days days;
          hour = seconds_of_day div 3600;
          minute = seconds_of_day mod 3600 div 60;
          second = seconds_of_day mod 60;
          date = pad0 4 (dec_int year) @ ''-'' @ pad0 2 (dec_int month) @ ''-'' @ pad0 2 (dec_int day);
          clock = pad0 2 (dec hour) @ '':'' @ pad0 2 (dec minute) @ '':'' @ pad0 2 (dec second)
      in if subsec_nanos = 0 then date @ ''T'' @ clock @ ''+00:00''
         else date @ ''T'' @ clock @ ''.'' @ pad0 9 (dec subsec_nanos) @ ''+00:00'')"

text \<open>A \<open>Duration\<close> since the epoch as saturated nanoseconds; \<open>now\<close> before the epoch gives 0.\<close>

definition saturating_nanos :: "int \<Rightarrow> u64" where
  "saturating_nanos now =
     (if now < 0 then 0
      else word_of_nat (sat_add_nat (sat_mul_nat (nat now div 1000000000) 1000000000)
             (nat now mod 1000000000)))"

definition now_rfc3339 :: "int \<Rightarrow> string" where
  "now_rfc3339 now = unix_nanos_to_rfc3339 (saturating_nanos now)"

section \<open>Builder\<close>

definition occurrence_with :: "string \<Rightarrow> string \<Rightarrow> string \<Rightarrow> severity \<Rightarrow> outcome \<Rightarrow> occurrence" where
  "occurrence_with ulid timestamp occurrence_type sev out =
     \<lparr>occ_id = ulid, occ_timestamp = timestamp, occ_source = ''tapio'', occ_type = occurrence_type,
      occ_severity = sev, occ_outcome = out, occ_protocol_version = ''1.0'', occ_error = None,
      occ_context = None, occ_reasoning = None, occ_history = None, occ_data = None\<rparr>"

definition occurrence_new :: "string \<Rightarrow> int \<Rightarrow> string \<Rightarrow> severity \<Rightarrow> outcome \<Rightarrow> occurrence" where
  "occurrence_new ulid now occurrence_type sev out =
     occurrence_with ulid (now_rfc3339 now) occurrence_type sev out"

definition occurrence_new_at :: "string \<Rightarrow> string \<Rightarrow> severity \<Rightarrow> outcome \<Rightarrow> u64 \<Rightarrow> occurrence" where
  "occurrence_new_at ulid occurrence_type sev out wall_ns =
     occurrence_with ulid (unix_nanos_to_rfc3339 wall_ns) occurrence_type sev out"

definition with_error :: "string \<Rightarrow> string \<Rightarrow> occurrence \<Rightarrow> occurrence" where
  "with_error code message occ = occ\<lparr>occ_error := Some
     \<lparr>oe_code = code, oe_message = message, oe_what_failed = None, oe_why_it_matters = None,
      oe_possible_causes = None, oe_suggested_fix = None\<rparr>\<rparr>"

definition with_context :: "occ_context \<Rightarrow> occurrence \<Rightarrow> occurrence" where
  "with_context ctx occ = occ\<lparr>occ_context := Some ctx\<rparr>"

definition with_data :: "json \<Rightarrow> occurrence \<Rightarrow> occurrence" where
  "with_data data occ = occ\<lparr>occ_data := Some data\<rparr>"

lemmas builder_defs = occurrence_new_def occurrence_new_at_def occurrence_with_def with_error_def
  with_context_def with_data_def

section \<open>Validation\<close>

definition occurrence_validate :: "occurrence \<Rightarrow> string list + unit" where
  "occurrence_validate occ =
     (let errors =
            (if occ_source occ = [] then [''source is required''] else [])
            @ (if occ_type occ = [] then [''type is required'']
               else (let segments = split_on (CHR ''.'') (occ_type occ)
                     in if length segments \<noteq> 3 \<or> list_ex (\<lambda>s. s = []) segments
                        then [''type must have exactly 3 non-empty dot-separated segments''] else []))
            @ (if occ_protocol_version occ = [] then [''protocol_version is required''] else [])
      in if errors = [] then Inr () else Inl errors)"

text \<open>A type of three non-empty segments.\<close>

definition three_segments :: "string \<Rightarrow> bool" where
  "three_segments s \<longleftrightarrow>
     (\<exists>a b c. s = a @ ''.'' @ b @ ''.'' @ c \<and> a \<noteq> [] \<and> b \<noteq> [] \<and> c \<noteq> []
        \<and> CHR ''.'' \<notin> set a \<and> CHR ''.'' \<notin> set b \<and> CHR ''.'' \<notin> set c)"

lemma split_three:
  "split_on (CHR ''.'') s = [a, b, c] \<longleftrightarrow>
     s = a @ ''.'' @ b @ ''.'' @ c \<and> CHR ''.'' \<notin> set a \<and> CHR ''.'' \<notin> set b \<and> CHR ''.'' \<notin> set c"
proof
  assume *: "split_on (CHR ''.'') s = [a, b, c]"
  then have "CHR ''.'' \<notin> set a \<and> CHR ''.'' \<notin> set b \<and> CHR ''.'' \<notin> set c"
    using split_on_parts [of _ "CHR ''.''" s] by (metis list.set_intros)
  with * show "s = a @ ''.'' @ b @ ''.'' @ c \<and> CHR ''.'' \<notin> set a \<and> CHR ''.'' \<notin> set b \<and> CHR ''.'' \<notin> set c"
    using split_on_join [of s "CHR ''.''"] by simp
next
  assume "s = a @ ''.'' @ b @ ''.'' @ c \<and> CHR ''.'' \<notin> set a \<and> CHR ''.'' \<notin> set b \<and> CHR ''.'' \<notin> set c"
  then show "split_on (CHR ''.'') s = [a, b, c]" by (simp add: split_on_append split_on_no_sep)
qed

lemma three_segments_split:
  "three_segments s \<longleftrightarrow>
     (\<exists>a b c. split_on (CHR ''.'') s = [a, b, c] \<and> a \<noteq> [] \<and> b \<noteq> [] \<and> c \<noteq> [])"
  unfolding three_segments_def split_three by blast

lemma occurrence_validate_ok:
  "occurrence_validate occ = Inr () \<longleftrightarrow>
     occ_source occ \<noteq> [] \<and> occ_protocol_version occ \<noteq> [] \<and> three_segments (occ_type occ)"
proof -
  have three: "length ss = 3 \<longleftrightarrow> (\<exists>a b c. ss = [a, b, c])" for ss :: "string list"
    by (auto simp: numeral_3_eq_3 length_Suc_conv)
  have "length (split_on (CHR ''.'') s) \<noteq> 3 \<or> list_ex (\<lambda>x. x = []) (split_on (CHR ''.'') s)
      \<longleftrightarrow> \<not> three_segments s" for s
  proof (cases "length (split_on (CHR ''.'') s) = 3")
    case True
    then obtain a b c where abc: "split_on (CHR ''.'') s = [a, b, c]" unfolding three by blast
    then have "three_segments s \<longleftrightarrow> a \<noteq> [] \<and> b \<noteq> [] \<and> c \<noteq> []"
      unfolding three_segments_split by simp
    with abc True show ?thesis by auto
  next
    case False
    moreover from this have "\<not> three_segments s"
      unfolding three three_segments_split by blast
    ultimately show ?thesis by blast
  qed
  note key = this
  have no: "\<not> three_segments []" by (simp add: three_segments_def)
  show ?thesis unfolding occurrence_validate_def Let_def key
    by (cases "occ_source occ = []"; cases "occ_protocol_version occ = []";
        cases "occ_type occ = []"; cases "three_segments (occ_type occ)") (simp_all add: no)
qed

lemma event_types_three_segments:
  "three_segments NETWORK_CONNECTION_REFUSED" "three_segments NETWORK_CONNECTION_TIMEOUT"
  "three_segments NETWORK_RETRANSMIT_SPIKE" "three_segments NETWORK_RTT_DEGRADATION"
  "three_segments CONTAINER_OOM_KILL" "three_segments CONTAINER_ABNORMAL_EXIT"
  "three_segments STORAGE_IO_ERROR" "three_segments STORAGE_LATENCY_SPIKE"
  "three_segments NODE_CPU_STALL" "three_segments NODE_MEMORY_PRESSURE"
  "three_segments NODE_IPC_DEGRADATION"
proof -
  have k: "three_segments (''kernel.'' @ b @ ''.'' @ c)"
    if "b \<noteq> []" "c \<noteq> []" "CHR ''.'' \<notin> set b" "CHR ''.'' \<notin> set c" for b c
    unfolding three_segments_def using that by (intro exI [of _ "''kernel''"] exI [of _ b] exI [of _ c]) simp
  show "three_segments NETWORK_CONNECTION_REFUSED" "three_segments NETWORK_CONNECTION_TIMEOUT"
    "three_segments NETWORK_RETRANSMIT_SPIKE" "three_segments NETWORK_RTT_DEGRADATION"
    using k [of "''network''" "''connection_refused''"] k [of "''network''" "''connection_timeout''"]
      k [of "''network''" "''retransmit_spike''"] k [of "''network''" "''rtt_degradation''"]
    by (simp_all add: event_types)
  show "three_segments CONTAINER_OOM_KILL" "three_segments CONTAINER_ABNORMAL_EXIT"
    "three_segments STORAGE_IO_ERROR" "three_segments STORAGE_LATENCY_SPIKE"
    using k [of "''container''" "''oom_kill''"] k [of "''container''" "''abnormal_exit''"]
      k [of "''storage''" "''io_error''"] k [of "''storage''" "''latency_spike''"]
    by (simp_all add: event_types)
  show "three_segments NODE_CPU_STALL" "three_segments NODE_MEMORY_PRESSURE"
    "three_segments NODE_IPC_DEGRADATION"
    using k [of "''node''" "''cpu_stall''"] k [of "''node''" "''memory_pressure''"]
      k [of "''node''" "''ipc_degradation''"]
    by (simp_all add: event_types)
qed

end
