(* ===== verification/Drain.thy ===== *)
theory Drain
  imports Occurrence Metrics Wire Simulation
begin

text \<open>
  The loop that the four observers of \<open>tapio-agent/src/observer/\<close> share: drain at most
  \<open>MAX_DRAIN_PER_TICK\<close> records of the ring buffer per tick, count malformed ones, classify
  the others, send an occurrence per anomaly, and account for the losses the kernel
  reports. The source repeats the loop in each observer; here it is one definition over the
  operations in which the observers differ (\<open>observer_ops\<close>), and the locale \<open>observer\<close> is
  what every observer promises of them. The ring buffer and the readings of the kernel's
  counters are inputs; so are the ULID and the clock reading of each occurrence (\<open>fresh\<close>).
\<close>

definition MAX_DRAIN_PER_TICK :: nat where "MAX_DRAIN_PER_TICK = 2048"
definition LOST_EVENTS_CHECK_INTERVAL :: u64 where "LOST_EVENTS_CHECK_INTERVAL = 1000"

record ('e, 'a, 'c) observer_ops =
  ob_name :: string
  ob_read :: "string \<Rightarrow> 'e option"
  ob_classify :: "'e \<Rightarrow> 'a option"
  ob_type :: "'a \<Rightarrow> string"
  ob_build :: "'c \<Rightarrow> string \<times> int \<Rightarrow> 'e \<Rightarrow> 'a \<Rightarrow> occurrence \<times> 'c"
  ob_ambiguous :: bool

record 'c drain_state =
  ds_event_count :: u64
  ds_anomaly_count :: u64
  ds_malformed_count :: u64
  ds_tick_count :: u64
  ds_prev_lost :: u64
  ds_prev_ambiguous :: u64
  ds_metrics :: tapio_metrics
  ds_cache :: 'c
  ds_sent :: "occurrence list"

definition drain_init :: "tapio_metrics \<Rightarrow> 'c \<Rightarrow> 'c drain_state" where
  "drain_init m c =
     \<lparr>ds_event_count = 0, ds_anomaly_count = 0, ds_malformed_count = 0, ds_tick_count = 0,
      ds_prev_lost = 0, ds_prev_ambiguous = 0, ds_metrics = m, ds_cache = c, ds_sent = []\<rparr>"

definition should_warn_malformed_event :: "u64 \<Rightarrow> bool" where
  "should_warn_malformed_event count \<longleftrightarrow>
     count \<le> 10 \<or> (\<exists>k\<in>set [0..<64]. unat count = 2 ^ k)"

section \<open>One record\<close>

definition process_record ::
  "('e, 'a, 'c) observer_ops \<Rightarrow> (nat \<Rightarrow> string \<times> int) \<Rightarrow> string \<Rightarrow> 'c drain_state \<Rightarrow> 'c drain_state" where
  "process_record ops fresh item st =
     (case ob_read ops item of
        None \<Rightarrow>
          st\<lparr>ds_malformed_count := ds_malformed_count st + 1,
             ds_metrics := (ds_metrics st)\<lparr>m_malformed_events_total :=
               inc [ob_name ops] (m_malformed_events_total (ds_metrics st))\<rparr>\<rparr>
      | Some event \<Rightarrow>
          (let st1 = st\<lparr>ds_event_count := ds_event_count st + 1,
                 ds_metrics := (ds_metrics st)\<lparr>m_events_total :=
                   inc [ob_name ops] (m_events_total (ds_metrics st))\<rparr>\<rparr>
           in case ob_classify ops event of
                None \<Rightarrow> st1
              | Some anomaly \<Rightarrow>
                  (let (occ, cache) =
                         ob_build ops (ds_cache st1) (fresh (length (ds_sent st1))) event anomaly
                   in st1\<lparr>ds_anomaly_count := ds_anomaly_count st1 + 1,
                        ds_metrics := (ds_metrics st1)\<lparr>m_anomalies_total :=
                          inc [ob_name ops, ob_type ops anomaly] (m_anomalies_total (ds_metrics st1))\<rparr>,
                        ds_cache := cache, ds_sent := ds_sent st1 @ [occ]\<rparr>)))"

section \<open>One tick\<close>

fun drain_loop ::
  "('e, 'a, 'c) observer_ops \<Rightarrow> (nat \<Rightarrow> string \<times> int) \<Rightarrow> 'c drain_state \<Rightarrow> string list \<Rightarrow> nat
     \<Rightarrow> 'c drain_state \<times> string list \<times> nat" where
  "drain_loop ops fresh st [] count = (st, [], count)"
| "drain_loop ops fresh st (item # ring) count =
     (let st' = process_record ops fresh item st; count' = count + 1
      in if MAX_DRAIN_PER_TICK \<le> count' then (st', ring, count')
         else drain_loop ops fresh st' ring count')"

definition drain_tick ::
  "('e, 'a, 'c) observer_ops \<Rightarrow> (nat \<Rightarrow> string \<times> int) \<Rightarrow> string list \<Rightarrow> 'c drain_state
     \<Rightarrow> 'c drain_state \<times> string list" where
  "drain_tick ops fresh ring st =
     (let (st', ring', drained) = drain_loop ops fresh st ring 0
      in (if MAX_DRAIN_PER_TICK \<le> drained
          then st'\<lparr>ds_metrics := (ds_metrics st')\<lparr>m_drain_cap_total :=
                 inc [ob_name ops] (m_drain_cap_total (ds_metrics st'))\<rparr>\<rparr>
          else st', ring'))"

text \<open>
  The periodic check of the kernel's loss counters, given their readings; \<open>None\<close> when the
  metrics map is absent.
\<close>

definition check_lost :: "string \<Rightarrow> u64 \<Rightarrow> 'c drain_state \<Rightarrow> 'c drain_state" where
  "check_lost name lost st =
     (if lost > ds_prev_lost st
      then st\<lparr>ds_metrics := (ds_metrics st)\<lparr>m_lost_events_total :=
               inc_by [name] (lost - ds_prev_lost st) (m_lost_events_total (ds_metrics st))\<rparr>,
             ds_prev_lost := lost\<rparr>
      else st)"

definition check_ambiguous :: "string \<Rightarrow> u64 \<Rightarrow> 'c drain_state \<Rightarrow> 'c drain_state" where
  "check_ambiguous name ambiguous st =
     (if ambiguous > ds_prev_ambiguous st
      then st\<lparr>ds_metrics := (ds_metrics st)\<lparr>m_correlation_drops_total :=
               inc_by [name, ''ambiguous_inflight_io''] (ambiguous - ds_prev_ambiguous st)
                 (m_correlation_drops_total (ds_metrics st))\<rparr>,
             ds_prev_ambiguous := ambiguous\<rparr>
      else st)"

definition loss_check ::
  "('e, 'a, 'c) observer_ops \<Rightarrow> (u64 \<times> u64) option \<Rightarrow> 'c drain_state \<Rightarrow> 'c drain_state" where
  "loss_check ops readings st0 =
     (let st = st0\<lparr>ds_tick_count := ds_tick_count st0 + 1\<rparr> in
      if ds_tick_count st mod LOST_EVENTS_CHECK_INTERVAL = 0
      then (case readings of
              None \<Rightarrow> st
            | Some (lost, ambiguous) \<Rightarrow>
                (let st1 = check_lost (ob_name ops) lost st
                 in if ob_ambiguous ops then check_ambiguous (ob_name ops) ambiguous st1 else st1))
      else st)"

definition observer_tick ::
  "('e, 'a, 'c) observer_ops \<Rightarrow> (nat \<Rightarrow> string \<times> int) \<Rightarrow> (u64 \<times> u64) option \<Rightarrow> string list
     \<Rightarrow> 'c drain_state \<Rightarrow> 'c drain_state \<times> string list" where
  "observer_tick ops fresh readings ring st = drain_tick ops fresh ring (loss_check ops readings st)"

section \<open>What a tick does\<close>

lemma drain_loop_eq:
  "count < MAX_DRAIN_PER_TICK \<Longrightarrow>
     drain_loop ops fresh st ring count =
       (fold (process_record ops fresh) (take (MAX_DRAIN_PER_TICK - count) ring) st,
        drop (MAX_DRAIN_PER_TICK - count) ring,
        count + min (length ring) (MAX_DRAIN_PER_TICK - count))"
proof (induction ring arbitrary: st count)
  case (Cons item ring)
  obtain k where k: "MAX_DRAIN_PER_TICK - count = Suc k" using Cons.prems by (cases "MAX_DRAIN_PER_TICK - count") auto
  show ?case
  proof (cases "MAX_DRAIN_PER_TICK \<le> count + 1")
    case True
    with k have "k = 0" by simp
    with True k show ?thesis by (simp add: Let_def)
  next
    case False
    then have "MAX_DRAIN_PER_TICK - (count + 1) = k" using k by simp
    with Cons.IH [of "count + 1"] False k show ?thesis by (simp add: Let_def)
  qed
qed simp

definition malformed_in :: "('e, 'a, 'c) observer_ops \<Rightarrow> string list \<Rightarrow> nat" where
  "malformed_in ops items = length (filter (\<lambda>i. ob_read ops i = None) items)"

definition anomalies_in :: "('e, 'a, 'c) observer_ops \<Rightarrow> string list \<Rightarrow> ('e \<times> 'a) list" where
  "anomalies_in ops items =
     List.map_filter (\<lambda>i. Option.bind (ob_read ops i)
       (\<lambda>e. map_option (\<lambda>a. (e, a)) (ob_classify ops e))) items"

lemma process_counts:
  "ds_event_count (fold (process_record ops fresh) items st)
     = ds_event_count st + of_nat (length items - malformed_in ops items)"
  "ds_malformed_count (fold (process_record ops fresh) items st)
     = ds_malformed_count st + of_nat (malformed_in ops items)"
  "ds_anomaly_count (fold (process_record ops fresh) items st)
     = ds_anomaly_count st + of_nat (length (anomalies_in ops items))"
  "length (ds_sent (fold (process_record ops fresh) items st))
     = length (ds_sent st) + length (anomalies_in ops items)"
proof (induction items arbitrary: st)
  case (Cons item items)
  have le: "malformed_in ops items \<le> length items" by (simp add: malformed_in_def)
  { case 1 show ?case using Cons(1) le
      by (auto simp: process_record_def malformed_in_def Let_def Suc_diff_le split_def split: option.splits) }
  { case 2 show ?case using Cons(2)
      by (auto simp: process_record_def malformed_in_def Let_def split_def split: option.splits) }
  { case 3 show ?case using Cons(3)
      by (auto simp: process_record_def anomalies_in_def map_filter_simps Let_def split_def split: option.splits) }
  { case 4 show ?case using Cons(4)
      by (auto simp: process_record_def anomalies_in_def map_filter_simps Let_def split_def split: option.splits) }
qed (simp_all add: malformed_in_def anomalies_in_def map_filter_simps)

lemma drain_tick_eq:
  "fst (drain_tick ops fresh ring st) =
     (let st' = fold (process_record ops fresh) (take MAX_DRAIN_PER_TICK ring) st
      in if MAX_DRAIN_PER_TICK \<le> length ring
         then st'\<lparr>ds_metrics := (ds_metrics st')\<lparr>m_drain_cap_total :=
                inc [ob_name ops] (m_drain_cap_total (ds_metrics st'))\<rparr>\<rparr>
         else st')"
  "snd (drain_tick ops fresh ring st) = drop MAX_DRAIN_PER_TICK ring"
  using drain_loop_eq [of 0 ops fresh st ring]
  by (simp_all add: drain_tick_def Let_def min_def MAX_DRAIN_PER_TICK_def)

lemma loss_check_keeps [simp]:
  "ds_event_count (loss_check ops r st) = ds_event_count st"
  "ds_malformed_count (loss_check ops r st) = ds_malformed_count st"
  "ds_anomaly_count (loss_check ops r st) = ds_anomaly_count st"
  "ds_sent (loss_check ops r st) = ds_sent st" "ds_cache (loss_check ops r st) = ds_cache st"
  by (simp_all add: loss_check_def check_lost_def check_ambiguous_def Let_def split: option.splits prod.splits)

lemma tick_fields:
  assumes "st' = fold (process_record ops fresh) (take MAX_DRAIN_PER_TICK ring) (loss_check ops readings st)"
  shows "ds_event_count (fst (observer_tick ops fresh readings ring st)) = ds_event_count st'"
    "ds_malformed_count (fst (observer_tick ops fresh readings ring st)) = ds_malformed_count st'"
    "ds_anomaly_count (fst (observer_tick ops fresh readings ring st)) = ds_anomaly_count st'"
    "ds_sent (fst (observer_tick ops fresh readings ring st)) = ds_sent st'"
  unfolding observer_tick_def drain_tick_eq Let_def assms [symmetric] by simp_all

lemma tick_sent:
  "ds_sent (fst (observer_tick ops fresh readings ring st)) =
     ds_sent (fold (process_record ops fresh) (take MAX_DRAIN_PER_TICK ring) (loss_check ops readings st))"
  by (rule tick_fields(4) [OF refl])

section \<open>The counters of the metrics follow the counts\<close>

definition counts_agree :: "string \<Rightarrow> 'c drain_state \<Rightarrow> bool" where
  "counts_agree name st \<longleftrightarrow>
     cv_inv (m_events_total (ds_metrics st)) \<and> cv_inv (m_malformed_events_total (ds_metrics st))
     \<and> cv_value (m_events_total (ds_metrics st)) [name] = ds_event_count st
     \<and> cv_value (m_malformed_events_total (ds_metrics st)) [name] = ds_malformed_count st"

lemma counts_agree_step: "counts_agree (ob_name ops) st \<Longrightarrow> counts_agree (ob_name ops) (process_record ops fresh item st)"
  by (auto simp: counts_agree_def process_record_def Let_def split_def inc_def inc_value split: option.splits)

interpretation counted: invariant_run "process_record ops fresh" "counts_agree (ob_name ops)" for ops fresh
  by unfold_locales (rule counts_agree_step)

lemma counts_agree_loss: "counts_agree n st \<Longrightarrow> counts_agree n (loss_check ops r st)"
  by (auto simp: counts_agree_def loss_check_def check_lost_def check_ambiguous_def Let_def
      split: option.splits prod.splits)

lemma counts_agree_tick:
  assumes "counts_agree (ob_name ops) st"
  shows "counts_agree (ob_name ops) (fst (observer_tick ops fresh readings ring st))"
proof -
  have "counts_agree (ob_name ops)
      (fold (process_record ops fresh) (take MAX_DRAIN_PER_TICK ring) (loss_check ops readings st))"
    by (rule counted.inv_run [OF counts_agree_loss [OF assms]])
  then show ?thesis unfolding observer_tick_def drain_tick_eq Let_def
    by (simp add: counts_agree_def del: take_all take_all_iff)
qed

text \<open>The loss counter of an observer is the highest reading so far.\<close>

definition lost_agrees :: "string \<Rightarrow> 'c drain_state \<Rightarrow> bool" where
  "lost_agrees name st \<longleftrightarrow> cv_inv (m_lost_events_total (ds_metrics st))
     \<and> cv_value (m_lost_events_total (ds_metrics st)) [name] = ds_prev_lost st"

interpretation lost: simulation "check_lost name" "lost_agrees name" ds_prev_lost max for name
  by unfold_locales (auto simp: check_lost_def lost_agrees_def inc_value max_def)

section \<open>What every observer promises\<close>

text \<open>
  Evidence of a segment (the middle part of a type \<open>kernel.segment.anomaly\<close>): an occurrence
  of Tapio with a type of that segment, facts in an object without reasoning keys, and no
  reasoning block.
\<close>

definition kernel_type :: "string \<Rightarrow> string \<Rightarrow> bool" where
  "kernel_type segment t \<longleftrightarrow> three_segments t \<and> starts_with t (''kernel.'' @ segment @ ''.'')"

definition evidence :: "string \<Rightarrow> occurrence \<Rightarrow> bool" where
  "evidence segment occ \<longleftrightarrow>
     occ_source occ = ''tapio'' \<and> occ_protocol_version occ = ''1.0'' \<and> kernel_type segment (occ_type occ)
     \<and> occ_reasoning occ = None
     \<and> (case occ_data occ of None \<Rightarrow> False
         | Some facts \<Rightarrow> is_object facts \<and> reject_reasoning_fields ''$'' facts = Inr ())"

lemma evidence_validates: "evidence segment occ \<Longrightarrow> occurrence_validate occ = Inr ()"
  by (simp add: evidence_def kernel_type_def occurrence_validate_ok)

definition generation_of :: "occurrence \<Rightarrow> json option" where
  "generation_of occ = Option.bind (occ_data occ) (\<lambda>j. json_get j ''config_generation'')"

locale observer =
  fixes ops :: "('e, 'a, 'c) observer_ops"
    and segment :: string
    and generation :: "'e \<Rightarrow> u32"
  assumes built_evidence:
      "ob_classify ops e = Some a \<Longrightarrow> evidence segment (fst (ob_build ops c f e a))"
    and built_type: "ob_classify ops e = Some a \<Longrightarrow> occ_type (fst (ob_build ops c f e a)) = ob_type ops a"
    and built_generation:
      "ob_classify ops e = Some a \<Longrightarrow>
         generation_of (fst (ob_build ops c f e a)) = Some (json_u32 (generation e))"
begin

lemma process_sends_evidence:
  "list_all (evidence segment) (ds_sent st) \<Longrightarrow>
     list_all (evidence segment) (ds_sent (process_record ops fresh item st))"
  using built_evidence by (auto simp: process_record_def Let_def split_def split: option.splits)

sublocale sent: invariant_run "process_record ops fresh" "\<lambda>st. list_all (evidence segment) (ds_sent st)"
  for fresh
  by unfold_locales (rule process_sends_evidence)

lemma tick_sends_evidence:
  assumes "list_all (evidence segment) (ds_sent st)"
  shows "list_all (evidence segment) (ds_sent (fst (observer_tick ops fresh readings ring st)))"
proof -
  have "list_all (evidence segment) (ds_sent
      (fold (process_record ops fresh) (take MAX_DRAIN_PER_TICK ring) (loss_check ops readings st)))"
    by (rule sent.inv_run) (use assms in simp)
  then show ?thesis by (simp only: tick_sent)
qed

lemma sent_summary:
  "map (\<lambda>o'. (occ_type o', generation_of o')) (ds_sent (fold (process_record ops fresh) items st)) =
     map (\<lambda>o'. (occ_type o', generation_of o')) (ds_sent st)
     @ map (\<lambda>(e, a). (ob_type ops a, Some (json_u32 (generation e)))) (anomalies_in ops items)"
proof (induction items arbitrary: st)
  case (Cons item items)
  then show ?case using built_type built_generation
    by (auto simp: process_record_def anomalies_in_def map_filter_simps Let_def split_def
        split: option.splits)
qed (simp add: anomalies_in_def map_filter_simps)

lemma tick_summary:
  "map (\<lambda>o'. (occ_type o', generation_of o')) (ds_sent (fst (observer_tick ops fresh readings ring st))) =
     map (\<lambda>o'. (occ_type o', generation_of o')) (ds_sent st)
     @ map (\<lambda>(e, a). (ob_type ops a, Some (json_u32 (generation e))))
         (anomalies_in ops (take MAX_DRAIN_PER_TICK ring))"
  unfolding tick_sent sent_summary by simp

end

section \<open>Facts built by \<open>json!\<close>\<close>

lemma bt_from_subset: "(k, v) \<in> set (bt_from kvs) \<Longrightarrow> (k, v) \<in> set kvs"
proof -
  assume "(k, v) \<in> set (bt_from kvs)"
  then have "bt_get (bt_from kvs) k = Some v" using bt.entries_get [OF bt_from_inv, of k v kvs] by simp
  then have "map_of (rev kvs) k = Some v" by (simp add: bt_from_get)
  then show ?thesis using map_of_SomeD by fastforce
qed

lemma json_object_clean:
  assumes "list_all (\<lambda>(k, v). \<not> is_reasoning_key k \<and> \<not> is_object v) kvs"
  shows "reject_reasoning_fields path (json_object kvs) = Inr ()"
  unfolding json_object_def
  by (rule flat_object_ok) (use assms in \<open>auto simp: list_all_iff dest: bt_from_subset\<close>)

lemma is_object_simps [simp]:
  "\<not> is_object (JStr s)" "\<not> is_object (JPos n)" "\<not> is_object (json_u32 w)" "\<not> is_object (json_u16 v)"
  "\<not> is_object (json_i32 i)" "\<not> is_object (json_f64 x)" "is_object (json_object kvs)"
  by (simp_all add: is_object_def json_u32_def json_u16_def json_i32_def json_f64_def json_object_def)

lemma json_insert_object:
  "json_insert k v (json_object kvs) = json_object (kvs @ [(k, v)])"
  by (simp add: json_object_def bt_from_def)

section \<open>Properties\<close>

text \<open>
  A tick takes the first records of the ring buffer, at most 2048 of them, and leaves the rest
  for the next tick; every record taken is counted once, as an event or as malformed, and
  every anomaly among them is one occurrence sent.
\<close>

theorem tick_conserves_records:
  "let (st', ring') = observer_tick ops fresh readings ring st; taken = take 2048 ring in
     ring = taken @ ring' \<and> length taken \<le> 2048
     \<and> ds_event_count st' + ds_malformed_count st'
         = ds_event_count st + ds_malformed_count st + of_nat (length taken)
     \<and> length (ds_sent st') = length (ds_sent st) + length (anomalies_in ops taken)
     \<and> ds_anomaly_count st' = ds_anomaly_count st + of_nat (length (anomalies_in ops taken))"
proof -
  define taken where "taken = take 2048 ring"
  define st1 where "st1 = fold (process_record ops fresh) taken (loss_check ops readings st)"
  have st1: "st1 = fold (process_record ops fresh) (take MAX_DRAIN_PER_TICK ring) (loss_check ops readings st)"
    by (simp add: st1_def taken_def MAX_DRAIN_PER_TICK_def)
  have le: "malformed_in ops taken \<le> length taken"
    unfolding malformed_in_def by (rule length_filter_le)
  have sum: "(of_nat (length taken - malformed_in ops taken) :: u64)
      + of_nat (malformed_in ops taken) = of_nat (length taken)"
    using le by (simp only: of_nat_add [symmetric] le_add_diff_inverse2)
  obtain st' ring' where t: "observer_tick ops fresh readings ring st = (st', ring')" by force
  have "ring = taken @ ring'"
    using drain_tick_eq(2) [of ops fresh ring "loss_check ops readings st"] t
    by (simp add: observer_tick_def taken_def MAX_DRAIN_PER_TICK_def)
  moreover have "length taken \<le> 2048" by (simp add: taken_def)
  moreover note tick_fields [OF st1, unfolded t fst_conv]
    process_counts [of ops fresh taken "loss_check ops readings st", folded st1_def]
  ultimately show ?thesis
    unfolding t taken_def [symmetric] Let_def prod.case using sum by (simp add: algebra_simps)
qed

text \<open>
  Over any sequence of readings of the kernel's loss counter, even one that goes back, an
  observer's lost-events metric is the highest reading: no loss is counted twice.
\<close>

theorem lost_metric_is_highest_reading:
  assumes "lost_agrees name st"
  shows "cv_value (m_lost_events_total (ds_metrics (fold (check_lost name) readings st))) [name]
    = fold max readings (ds_prev_lost st)"
  using lost.inv_run [OF assms, of readings] lost.view_run [OF assms, of readings]
  by (simp add: lost_agrees_def)

lemma lost_metric_is_highest_reading_witness:
  "cv_value (m_lost_events_total (ds_metrics (fold (check_lost ''network'') [3, 7, 5]
     (drain_init metrics_new ())))) [''network''] = 7"
  using lost_metric_is_highest_reading [of "''network''" "drain_init metrics_new ()" "[3, 7, 5]"]
  by (simp add: lost_agrees_def drain_init_def metrics_new_def max_def word_le_nat_alt)

end
