(* ===== verification/WireEvents.thy ===== *)
theory WireEvents
  imports Drain
begin

text \<open>
  The conversion half of \<open>tapio-agent/src/sink/controller.rs\<close>: an occurrence becomes the
  wire event the controller accepts, and its RFC 3339 timestamp is read back into
  nanoseconds.
\<close>

datatype sink_error =
    SinkConnection string
  | SinkSend string
  | SinkSerialization string
  | SinkIo string

section \<open>Timestamps\<close>

definition parse_date :: "string \<Rightarrow> (int \<times> int \<times> int) option" where
  "parse_date date =
     (case split_on (CHR ''-'') date of
        y # m # d # _ \<Rightarrow>
          Option.bind (parse_i64 y) (\<lambda>year.
          Option.bind (parse_i64 m) (\<lambda>month.
          Option.bind (parse_i64 d) (\<lambda>day. Some (year, month, day))))
      | _ \<Rightarrow> None)"

definition parse_time :: "string \<Rightarrow> (nat \<times> nat \<times> nat) option" where
  "parse_time time =
     (case split_on (CHR '':'') time of
        h # m # s # _ \<Rightarrow>
          Option.bind (parse_uint (2 ^ 64) h) (\<lambda>hour.
          Option.bind (parse_uint (2 ^ 64) m) (\<lambda>minute.
          Option.bind (parse_uint (2 ^ 64) s) (\<lambda>second. Some (hour, minute, second))))
      | _ \<Rightarrow> None)"

fun fraction_digits :: "string \<Rightarrow> nat \<Rightarrow> nat \<Rightarrow> nat \<times> nat" where
  "fraction_digits [] value digits = (value, digits)"
| "fraction_digits (byte # bytes) value digits =
     (if \<not> is_digit byte then (value, digits)
      else fraction_digits bytes (sat_add_nat (sat_mul_nat value 10) (digit_val byte)) (digits + 1))"

definition fraction_nanos :: "string \<Rightarrow> nat" where
  "fraction_nanos fraction =
     (let (value, digits) = fraction_digits (take 9 fraction) 0 0
      in ((\<lambda>v. sat_mul_nat v 10) ^^ (9 - digits)) value)"

definition timestamp_to_unix_nanos :: "string \<Rightarrow> u64" where
  "timestamp_to_unix_nanos timestamp =
     (case split_once (CHR ''T'') timestamp of
        None \<Rightarrow> 0
      | Some (date, time0) \<Rightarrow>
     (case parse_date date of
        None \<Rightarrow> 0
      | Some (year, month, day) \<Rightarrow>
          (let time = (case strip_suffix time0 ''+00:00'' of
                         Some t \<Rightarrow> t
                       | None \<Rightarrow> unwrap_or (strip_suffix time0 ''Z'') time0);
               (clock, fraction) = (case split_once (CHR ''.'') time of
                         None \<Rightarrow> (time, []) | Some cf \<Rightarrow> cf)
           in case parse_time clock of
                None \<Rightarrow> 0
              | Some (hour, minute, second) \<Rightarrow>
                  (let days = days_from_civil year month day
                   in if days < 0 then 0
                      else word_of_nat
                        (sat_add_nat
                          (sat_mul_nat
                            (sat_add_nat (sat_mul_nat (nat days) 86400)
                              ((hour * 3600 + minute * 60 + second) mod 2 ^ 64))
                            1000000000)
                          (fraction_nanos fraction))))))"

lemma fraction_digits_all:
  "list_all is_digit bs \<Longrightarrow> (v + 1) * 10 ^ length bs \<le> 10 ^ 10 \<Longrightarrow>
     fraction_digits bs v d = (v * 10 ^ length bs + digits_val bs, d + length bs)"
proof (induction bs arbitrary: v d)
  case Nil
  then show ?case by simp
next
  case (Cons b bs)
  have b: "is_digit b" "digit_val b < 10" using Cons.prems(1) digit_val_less by auto
  have p: "(1::nat) \<le> 10 ^ length bs" by simp
  have "(v + 1) * 10 * 10 ^ length bs \<le> 10 ^ 10" using Cons.prems(2) by (simp add: algebra_simps)
  moreover have "(v * 10 + digit_val b + 1) * 10 ^ length bs \<le> (v + 1) * 10 * 10 ^ length bs"
    using b(2) by (intro mult_right_mono) simp_all
  ultimately have small: "(v * 10 + digit_val b + 1) * 10 ^ length bs \<le> 10 ^ 10" by linarith
  then have "v * 10 + digit_val b + 1 \<le> 10 ^ 10"
    using p by (metis le_trans mult_le_mono2 nat_mult_1_right)
  then have ex: "sat_add_nat (sat_mul_nat v 10) (digit_val b) = v * 10 + digit_val b"
    by (simp add: sat_mul_nat_def sat_add_nat_def)
  have "fraction_digits bs (v * 10 + digit_val b) (d + 1)
      = ((v * 10 + digit_val b) * 10 ^ length bs + digits_val bs, d + 1 + length bs)"
    using Cons.prems(1) small by (intro Cons.IH) simp_all
  with b(1) ex show ?case by (simp add: digits_val_Cons algebra_simps)
qed

lemma fraction_nanos_pad0:
  assumes "n < 10 ^ 9"
  shows "fraction_nanos (pad0 9 (dec n)) = n"
proof -
  have len: "length (pad0 9 (dec n)) = 9" using assms by (intro pad0_dec_length) simp_all
  have "fraction_digits (pad0 9 (dec n)) 0 0 = (n, 9)"
    using fraction_digits_all [of "pad0 9 (dec n)" 0 0] len by (simp add: pad0_digits)
  then show ?thesis by (simp add: fraction_nanos_def len)
qed

lemma fraction_nanos_Nil [simp]: "fraction_nanos [] = 0"
proof -
  have "((\<lambda>v. sat_mul_nat v 10) ^^ k) 0 = 0" for k by (induction k) (simp_all add: sat_mul_nat_def)
  then show ?thesis by (simp add: fraction_nanos_def)
qed

text \<open>The separators are not digits, so the parts are found again.\<close>

lemma digits_no_sep:
  "list_all is_digit s \<Longrightarrow> CHR ''-'' \<notin> set s" "list_all is_digit s \<Longrightarrow> CHR '':'' \<notin> set s"
  "list_all is_digit s \<Longrightarrow> CHR ''T'' \<notin> set s" "list_all is_digit s \<Longrightarrow> CHR ''.'' \<notin> set s"
  by (auto simp: list_all_iff)

definition num2 :: "nat \<Rightarrow> string" where "num2 n = pad0 2 (dec n)"

lemma num2_digits [simp]: "list_all is_digit (num2 n)"
  by (simp add: num2_def pad0_digits)

lemma parse_date_text:
  assumes "0 \<le> y" "y < 2 ^ 63" "0 \<le> m" "m < 2 ^ 63" "0 \<le> d" "d < 2 ^ 63"
  shows "parse_date (pad0 4 (dec_int y) @ ''-'' @ pad0 2 (dec_int m) @ ''-'' @ pad0 2 (dec_int d))
    = Some (y, m, d)"
proof -
  have e: "dec_int y = dec (nat y)" "dec_int m = dec (nat m)" "dec_int d = dec (nat d)"
    using assms by (simp_all add: dec_int_def)
  have p: "parse_i64 (pad0 w (dec (nat x))) = Some x" if "0 \<le> x" "x < 2 ^ 63" for w x
    using that parse_i64_pad0 [of "nat x" w] by simp
  have "split_on (CHR ''-'') (pad0 4 (dec_int y) @ ''-'' @ pad0 2 (dec_int m) @ ''-'' @ pad0 2 (dec_int d))
      = [pad0 4 (dec (nat y)), pad0 2 (dec (nat m)), pad0 2 (dec (nat d))]"
    unfolding e by (simp add: split_on_append split_on_no_sep digits_no_sep pad0_digits)
  with p assms show ?thesis by (simp add: parse_date_def)
qed

lemma parse_time_text:
  assumes "h < 2 ^ 64" "m < 2 ^ 64" "s < 2 ^ 64"
  shows "parse_time (pad0 2 (dec h) @ '':'' @ pad0 2 (dec m) @ '':'' @ pad0 2 (dec s)) = Some (h, m, s)"
proof -
  have "split_on (CHR '':'') (pad0 2 (dec h) @ '':'' @ pad0 2 (dec m) @ '':'' @ pad0 2 (dec s))
      = [pad0 2 (dec h), pad0 2 (dec m), pad0 2 (dec s)]"
    by (simp add: split_on_append split_on_no_sep digits_no_sep pad0_digits)
  with assms show ?thesis by (simp add: parse_time_def parse_uint_pad0)
qed

section \<open>The round trip\<close>

text \<open>The text of a timestamp, by its parts.\<close>

definition timestamp_text :: "int \<Rightarrow> int \<Rightarrow> int \<Rightarrow> nat \<Rightarrow> nat \<Rightarrow> nat \<Rightarrow> string \<Rightarrow> string" where
  "timestamp_text y m d hh mm ss fr =
     (pad0 4 (dec_int y) @ ''-'' @ pad0 2 (dec_int m) @ ''-'' @ pad0 2 (dec_int d)) @ ''T''
     @ (pad0 2 (dec hh) @ '':'' @ pad0 2 (dec mm) @ '':'' @ pad0 2 (dec ss)) @ fr @ ''+00:00''"

lemma timestamp_text_parse:
  assumes "0 \<le> y" "y < 2 ^ 63" "0 \<le> m" "m < 2 ^ 63" "0 \<le> d" "d < 2 ^ 63"
    and "hh < 2 ^ 64" "mm < 2 ^ 64" "ss < 2 ^ 64"
    and "fr = [] \<and> nanos = 0 \<or> fr = ''.'' @ pad0 9 (dec nanos) \<and> nanos < 10 ^ 9"
    and "0 \<le> days_from_civil y m d"
  shows "timestamp_to_unix_nanos (timestamp_text y m d hh mm ss fr) =
     word_of_nat (sat_add_nat (sat_mul_nat (sat_add_nat (sat_mul_nat (nat (days_from_civil y m d)) 86400)
       ((hh * 3600 + mm * 60 + ss) mod 2 ^ 64)) 1000000000) nanos)"
proof -
  define date where "date = pad0 4 (dec_int y) @ ''-'' @ pad0 2 (dec_int m) @ ''-'' @ pad0 2 (dec_int d)"
  define clock where "clock = pad0 2 (dec hh) @ '':'' @ pad0 2 (dec mm) @ '':'' @ pad0 2 (dec ss)"
  have "dec_int y = dec (nat y)" "dec_int m = dec (nat m)" "dec_int d = dec (nat d)"
    using assms by (simp_all add: dec_int_def)
  then have T: "CHR ''T'' \<notin> set date" unfolding date_def by (simp add: digits_no_sep pad0_digits)
  have dot: "CHR ''.'' \<notin> set clock" unfolding clock_def by (simp add: digits_no_sep pad0_digits)
  have s1: "split_once (CHR ''T'') (timestamp_text y m d hh mm ss fr) = Some (date, clock @ fr @ ''+00:00'')"
    using split_once_append [OF T, of "clock @ fr @ ''+00:00''"]
    by (simp add: timestamp_text_def date_def clock_def)
  have s2: "strip_suffix (clock @ fr @ ''+00:00'') ''+00:00'' = Some (clock @ fr)"
    using strip_suffix_append [of "clock @ fr" "''+00:00''"] by simp
  have s3: "(case split_once (CHR ''.'') (clock @ fr) of None \<Rightarrow> (clock @ fr, []) | Some cf \<Rightarrow> cf)
      = (clock, drop (Suc 0) fr)" and s4: "fraction_nanos (drop (Suc 0) fr) = nanos"
    using assms(10) dot split_once_append [OF dot, of "pad0 9 (dec nanos)"] split_once_None [of "CHR ''.''" clock]
    by (auto simp: fraction_nanos_pad0)
  show ?thesis
    using assms(11) parse_date_text [OF assms(1-6), folded date_def] parse_time_text [OF assms(7-9), folded clock_def]
    by (simp add: timestamp_to_unix_nanos_def s1 s2 s3 s4)
qed

lemma nanos_decompose:
  assumes "n < 2 ^ 64" and "secs = n div 1000000000" and "sod = secs mod 86400"
  shows "sat_add_nat (sat_mul_nat (sat_add_nat (sat_mul_nat (secs div 86400) 86400)
      ((sod div 3600 * 3600 + sod mod 3600 div 60 * 60 + sod mod 60) mod 2 ^ 64)) 1000000000)
      (n mod 1000000000) = n"
proof -
  have "sod mod 3600 mod 60 = sod mod 60" by (simp add: mod_mod_cancel)
  then have clock: "sod div 3600 * 3600 + sod mod 3600 div 60 * 60 + sod mod 60 = sod"
    using div_mult_mod_eq [of sod 3600] div_mult_mod_eq [of "sod mod 3600" 60] by linarith
  have s: "secs \<le> n" "sod \<le> secs" using assms by simp_all
  then have m: "sod mod 2 ^ 64 = sod" using assms(1) by simp
  have day: "secs div 86400 * 86400 + sod = secs" using assms(3) by simp
  have a: "sat_mul_nat (secs div 86400) 86400 = secs div 86400 * 86400"
    using day s assms(1) by (intro sat_mul_nat_exact) linarith
  have b: "sat_add_nat (secs div 86400 * 86400) sod = secs"
    using day s assms(1) by (subst sat_add_nat_exact) linarith+
  have ns: "secs * 1000000000 + n mod 1000000000 = n" using assms(2) by simp
  have c: "sat_mul_nat secs 1000000000 = secs * 1000000000"
    using ns assms(1) by (intro sat_mul_nat_exact) linarith
  have d: "sat_add_nat (secs * 1000000000) (n mod 1000000000) = n"
    using ns assms(1) by (subst sat_add_nat_exact) linarith+
  show ?thesis unfolding clock m a b c d ..
qed

lemma timestamp_roundtrip_lemma: "timestamp_to_unix_nanos (unix_nanos_to_rfc3339 w) = w"
proof -
  define n where "n = unat w"
  define secs where "secs = n div 1000000000"
  define sod where "sod = secs mod 86400"
  have n: "n < 2 ^ 64" using unat_u64_less [of w] by (simp add: n_def)
  have "secs div 86400 \<le> (2 ^ 64 - 1) div 1000000000 div 86400"
    unfolding secs_def using n by (intro div_le_mono) simp
  then have days: "secs div 86400 \<le> 213503" by simp
  obtain y m d where c: "civil_from_days (int (secs div 86400)) = (y, m, d)"
    by (metis prod_cases3)
  have di: "0 \<le> int (secs div 86400)" "int (secs div 86400) \<le> 213503" using days by simp_all
  have yr: "0 \<le> y" "y < 10000" using civil_year_bounds [OF di c] by simp_all
  have "- 719468 \<le> int (secs div 86400)" by simp
  note md = civil_ranges [OF this c]
  have days_back: "days_from_civil y m d = int (secs div 86400)" by (rule days_of_civil [OF di c])
  have "sod < 86400" by (simp add: sod_def)
  then have h: "sod div 3600 < 2 ^ 64" "sod mod 3600 div 60 < 2 ^ 64" "sod mod 60 < 2 ^ 64" by simp_all
  define fr where "fr = (if n mod 1000000000 = 0 then [] else ''.'' @ pad0 9 (dec (n mod 1000000000)))"
  have whole: "unix_nanos_to_rfc3339 w
      = timestamp_text y m d (sod div 3600) (sod mod 3600 div 60) (sod mod 60) fr"
    unfolding unix_nanos_to_rfc3339_def Let_def n_def [symmetric] secs_def [symmetric] sod_def [symmetric] c
    by (simp add: timestamp_text_def fr_def)
  have "timestamp_to_unix_nanos (timestamp_text y m d (sod div 3600) (sod mod 3600 div 60) (sod mod 60) fr)
      = word_of_nat (sat_add_nat (sat_mul_nat (sat_add_nat (sat_mul_nat (nat (days_from_civil y m d)) 86400)
          ((sod div 3600 * 3600 + sod mod 3600 div 60 * 60 + sod mod 60) mod 2 ^ 64)) 1000000000)
          (n mod 1000000000))"
    using yr md h days_back by (intro timestamp_text_parse) (auto simp: fr_def)
  also have "\<dots> = word_of_nat n"
    unfolding days_back nat_int using nanos_decompose [OF n secs_def sod_def] by simp
  finally show ?thesis unfolding whole by (simp add: n_def)
qed

section \<open>Events\<close>

definition map_severity :: "severity \<Rightarrow> event_severity" where
  "map_severity s = (case s of SevDebug \<Rightarrow> EvDebug | SevInfo \<Rightarrow> EvInfo | SevWarning \<Rightarrow> EvWarning
     | SevError \<Rightarrow> EvError | SevCritical \<Rightarrow> EvCritical)"

definition observer_from_type :: "string \<Rightarrow> sink_error + string" where
  "observer_from_type event_type =
     (case split_on (CHR ''.'') event_type of
        [k, obs, x] \<Rightarrow>
          if k = ''kernel'' \<and> obs \<noteq> [] then Inr obs
          else Inl (SinkSerialization (''invalid kernel event type: '' @ event_type))
      | _ \<Rightarrow> Inl (SinkSerialization (''invalid kernel event type: '' @ event_type)))"

definition occurrence_to_wire_event :: "occurrence \<Rightarrow> sink_error + wire_event" where
  "occurrence_to_wire_event occ =
     and_then (observer_from_type (occ_type occ)) (\<lambda>obs.
     Inr \<lparr>ev_type = occ_type occ, ev_timestamp_unix_nanos = timestamp_to_unix_nanos (occ_timestamp occ),
          ev_observer = obs, ev_severity = map_severity (occ_severity occ),
          ev_facts = unwrap_or (occ_data occ) (JObj [])\<rparr>)"

text \<open>Evidence of an observer becomes an event that passes the wire validation.\<close>

lemma evidence_to_wire:
  assumes "evidence segment occ" "segment \<noteq> []" "CHR ''.'' \<notin> set segment" "\<not> blank segment"
  obtains ev where "occurrence_to_wire_event occ = Inr ev" "ev_observer ev = segment"
    "ev_type ev = occ_type occ" "wire_event_validate ev = Inr ()"
proof -
  have k: "kernel_type segment (occ_type occ)" using assms(1) by (simp add: evidence_def)
  then obtain t where t: "occ_type occ = ''kernel'' @ ''.'' @ segment @ ''.'' @ t"
    by (auto simp: kernel_type_def starts_with_iff)
  have "split_on (CHR ''.'') (''kernel'' @ CHR ''.'' # (segment @ CHR ''.'' # t))
      = ''kernel'' # split_on (CHR ''.'') (segment @ CHR ''.'' # t)"
    by (rule split_on_append) simp
  also have "split_on (CHR ''.'') (segment @ CHR ''.'' # t) = segment # split_on (CHR ''.'') t"
    by (rule split_on_append [OF assms(3)])
  finally have "split_on (CHR ''.'') (''kernel'' @ CHR ''.'' # segment @ CHR ''.'' # t)
      = ''kernel'' # segment # split_on (CHR ''.'') t" .
  then have sp: "split_on (CHR ''.'') (occ_type occ) = ''kernel'' # segment # split_on (CHR ''.'') t"
    by (simp add: t)
  with k obtain x where x: "split_on (CHR ''.'') (occ_type occ) = [''kernel'', segment, x]"
    unfolding kernel_type_def three_segments_split by auto
  then have obs: "observer_from_type (occ_type occ) = Inr segment"
    using assms(2) by (simp add: observer_from_type_def)
  define ev where "ev = \<lparr>ev_type = occ_type occ, ev_timestamp_unix_nanos = timestamp_to_unix_nanos (occ_timestamp occ),
          ev_observer = segment, ev_severity = map_severity (occ_severity occ),
          ev_facts = unwrap_or (occ_data occ) (JObj [])\<rparr>"
  have st: "starts_with (occ_type occ) ''kernel.''" by (simp add: t starts_with_def)
  have "reject_reasoning_fields ''$'' (unwrap_or (occ_data occ) (JObj [])) = Inr ()"
    using assms(1) by (auto simp: evidence_def split: option.splits)
  then have "wire_event_validate ev = Inr ()"
    using st kernel_not_blank [OF st] assms(4) by (simp add: wire_event_ok ev_def)
  moreover have "occurrence_to_wire_event occ = Inr ev"
    by (simp add: occurrence_to_wire_event_def obs ev_def)
  ultimately show ?thesis using that [of ev] by (simp add: ev_def)
qed

section \<open>Properties\<close>

text \<open>
  C29: the timestamp text that an occurrence carries is read back to the same nanoseconds when it is
  turned into a wire event, for every 64-bit value, with and without a fraction.
\<close>

theorem timestamp_roundtrip: "timestamp_to_unix_nanos (unix_nanos_to_rfc3339 w) = w"
  by (rule timestamp_roundtrip_lemma)

end
