(* ===== verification/ControllerSink.thy ===== *)
theory ControllerSink
  imports AgentPoll WireEvents Backoff
begin

text \<open>
  \<open>tapio-agent/src/sink/controller.rs\<close>: the sink that ships events to the controller. The
  observers put events into a bounded queue; a worker thread takes them out, collects them
  in a buffer, and posts batches with a sequence number and bounded retries. The queue and
  the worker are one state machine (\<open>sink_step\<close>) whose inputs are the calls of the clients
  and the turns of the worker. What is outside is \<open>sink_env\<close>: the outcome of each POST, the
  JSON encoding with its lengths, and the clock. How long the worker waits is not modelled:
  a turn by time-out may happen whenever the queue is empty.
\<close>

definition DEFAULT_QUEUE_CAPACITY :: nat where "DEFAULT_QUEUE_CAPACITY = 4096"
definition DEFAULT_MAX_REQUEST_BYTES :: nat where "DEFAULT_MAX_REQUEST_BYTES = 256 * 1024"
definition MAX_EVENTS_RESPONSE_BYTES :: nat where "MAX_EVENTS_RESPONSE_BYTES = 16 * 1024"
definition MAX_RETRIES :: nat where "MAX_RETRIES = 3"

text \<open>Durations in milliseconds.\<close>

definition INITIAL_RETRY_BACKOFF :: nat where "INITIAL_RETRY_BACKOFF = 100"
definition MAX_RETRY_BACKOFF :: nat where "MAX_RETRY_BACKOFF = 2000"

definition next_retry_backoff :: "nat \<Rightarrow> nat" where
  "next_retry_backoff delay = min (delay * 2) MAX_RETRY_BACKOFF"

definition USIZE_MAX :: nat where "USIZE_MAX = 2 ^ 64 - 1"

section \<open>Splitting\<close>

text \<open>
  The loop of \<open>split_events_by_size\<close>, with the serialised length of an event and of an empty
  batch as arguments; \<open>usize::saturating_add\<close> is \<open>sat_add_nat\<close>.
\<close>

definition candidate_len :: "(wire_event \<Rightarrow> nat) \<Rightarrow> wire_event list \<Rightarrow> nat \<Rightarrow> wire_event \<Rightarrow> nat" where
  "candidate_len len current current_len event =
     sat_add_nat (sat_add_nat current_len (if current \<noteq> [] then 1 else 0)) (len event)"

fun split_loop ::
  "(wire_event \<Rightarrow> nat) \<Rightarrow> nat \<Rightarrow> nat \<Rightarrow> nat \<Rightarrow> wire_event list \<Rightarrow> nat \<Rightarrow> wire_event list \<Rightarrow> wire_event list list" where
  "split_loop len empty_len max_events max_bytes current current_len [] =
     (if current \<noteq> [] then [current] else [])"
| "split_loop len empty_len max_events max_bytes current current_len (event # events) =
     (if current \<noteq> [] \<and> (max_events \<le> length current \<or> max_bytes < candidate_len len current current_len event)
      then current # split_loop len empty_len max_events max_bytes [event] (candidate_len len [] empty_len event) events
      else split_loop len empty_len max_events max_bytes (current @ [event])
             (candidate_len len current current_len event) events)"

definition split_events_by_size ::
  "(wire_event \<Rightarrow> nat) \<Rightarrow> nat \<Rightarrow> wire_event list \<Rightarrow> nat \<Rightarrow> nat \<Rightarrow> wire_event list list" where
  "split_events_by_size len empty_len events max_batch_events max_request_bytes =
     split_loop len empty_len max_batch_events max_request_bytes [] empty_len events"

text \<open>The empty batch that the splitter measures; \<open>to_json\<close> is the JSON encoder.\<close>

definition serialized_empty_batch_len :: "(event_batch_request \<Rightarrow> string + string) \<Rightarrow> nat" where
  "serialized_empty_batch_len to_json =
     (case to_json \<lparr>batch_wire_version = WIRE_VERSION, batch_agent_id = ''agent'', batch_node_name = ''node'',
             batch_sequence = 1, batch_sent_at_unix_nanos = 0, batch_events = []\<rparr> of
        Inl _ \<Rightarrow> USIZE_MAX
      | Inr bytes \<Rightarrow> length bytes)"

section \<open>Sending a batch\<close>

datatype batch_error =
    InvalidBatch wire_error
  | EncodeBatch string
  | DecodeEvents string
  | InvalidEvents wire_error
  | BatchHttp http_error
  | BatchStatus nat

text \<open>
  How a batch ends: accepted, answered with success but unusably (or never posted), or
  given up after the last attempt, which is the only case that is counted as a drop.
\<close>

datatype batch_fate = Delivered | Unusable batch_error | GaveUp batch_error

record sink_env =
  en_config :: agent_controller_config
  en_connect :: "nat \<Rightarrow> string \<Rightarrow> string + connection"  \<comment> \<open>of the n-th POST\<close>
  en_to_json :: "event_batch_request \<Rightarrow> string + string"
  en_from_json :: "string \<Rightarrow> string + event_batch_response"
  en_clock :: "nat \<Rightarrow> u64"  \<comment> \<open>when the n-th batch is built\<close>
  en_event_len :: "wire_event \<Rightarrow> nat"
  en_max_request_bytes :: nat

definition events_url :: "agent_controller_config \<Rightarrow> string" where
  "events_url cc = trim_end_char (CHR ''/'') (acc_endpoint cc) @ ''/v1/events''"

record sink_worker =
  sw_metrics :: tapio_metrics
  sw_sequence :: u64
  sw_buffer :: "wire_event list"
  sw_posts :: nat
  sw_log :: "(event_batch_request \<times> batch_fate) list"
  sw_slept :: "nat list"

definition read_events_response :: "(string \<Rightarrow> string + event_batch_response) \<Rightarrow> string \<Rightarrow> batch_fate" where
  "read_events_response from_json body =
     (case from_json body of
        Inl e \<Rightarrow> Unusable (DecodeEvents e)
      | Inr response \<Rightarrow>
          (case event_batch_response_validate response of
             Inl e \<Rightarrow> Unusable (InvalidEvents e)
           | Inr _ \<Rightarrow> Delivered))"

text \<open>
  The retry loop: the n-th POST's answer, the attempts left after this one, and the delay.
  It gives the fate of the batch, how many POSTs were made, and the delays slept.
\<close>

primrec post_attempts ::
  "(nat \<Rightarrow> http_error + http_response) \<Rightarrow> (string \<Rightarrow> string + event_batch_response) \<Rightarrow> nat \<Rightarrow> nat \<Rightarrow> nat
     \<Rightarrow> batch_fate \<times> nat \<times> nat list" where
  "post_attempts answer from_json 0 n delay =
     ((case answer n of
         Inl e \<Rightarrow> GaveUp (BatchHttp e)
       | Inr response \<Rightarrow>
           if is_success (hr_status response) then read_events_response from_json (hr_body response)
           else GaveUp (BatchStatus (hr_status response))), 1, [])"
| "post_attempts answer from_json (Suc left) n delay =
     (case answer n of
        Inr response \<Rightarrow>
          if is_success (hr_status response) then (read_events_response from_json (hr_body response), 1, [])
          else (let (fate, posts, slept) = post_attempts answer from_json left (n + 1) (next_retry_backoff delay)
                in (fate, Suc posts, delay # slept))
      | Inl _ \<Rightarrow>
          (let (fate, posts, slept) = post_attempts answer from_json left (n + 1) (next_retry_backoff delay)
           in (fate, Suc posts, delay # slept)))"

definition drop_failed_batch :: "nat \<Rightarrow> tapio_metrics \<Rightarrow> tapio_metrics" where
  "drop_failed_batch event_count m =
     m\<lparr>m_controller_send_failures_total := inc [''events''] (m_controller_send_failures_total m),
       m_sink_drops_total := inc_by [''controller'', ''send_failed''] (word_of_nat event_count) (m_sink_drops_total m)\<rparr>"

definition build_batch :: "sink_env \<Rightarrow> wire_event list \<Rightarrow> sink_worker \<Rightarrow> event_batch_request" where
  "build_batch env events w =
     \<lparr>batch_wire_version = WIRE_VERSION, batch_agent_id = acc_agent_id (en_config env),
      batch_node_name = acc_node_name (en_config env), batch_sequence = sw_sequence w,
      batch_sent_at_unix_nanos = en_clock env (length (sw_log w)), batch_events = events\<rparr>"

definition fate_error :: "batch_fate \<Rightarrow> batch_error option" where
  "fate_error fate = (case fate of Delivered \<Rightarrow> None | Unusable e \<Rightarrow> Some e | GaveUp e \<Rightarrow> Some e)"

definition send_event_batch_with_retries ::
  "sink_env \<Rightarrow> bool \<Rightarrow> wire_event list \<Rightarrow> sink_worker \<Rightarrow> batch_error option \<times> sink_worker" where
  "send_event_batch_with_retries env retry events w =
     (let request = build_batch env events w;
          w1 = w\<lparr>sw_sequence := sat_add (sw_sequence w) 1\<rparr>
      in case event_batch_request_validate request USIZE_MAX of
           Inl e \<Rightarrow> (Some (InvalidBatch e), w1\<lparr>sw_log := sw_log w @ [(request, Unusable (InvalidBatch e))]\<rparr>)
         | Inr _ \<Rightarrow>
      (case en_to_json env request of
           Inl e \<Rightarrow> (Some (EncodeBatch e), w1\<lparr>sw_log := sw_log w @ [(request, Unusable (EncodeBatch e))]\<rparr>)
         | Inr body \<Rightarrow>
             (let (fate, posts, slept) = post_attempts
                    (\<lambda>n. post_json_response (en_connect env n) (events_url (en_config env)) body
                       MAX_EVENTS_RESPONSE_BYTES)
                    (en_from_json env) (if retry then MAX_RETRIES else 0) (sw_posts w) INITIAL_RETRY_BACKOFF
              in (fate_error fate,
                  w1\<lparr>sw_log := sw_log w @ [(request, fate)], sw_posts := sw_posts w + posts,
                     sw_slept := sw_slept w @ slept,
                     sw_metrics := (case fate of GaveUp _ \<Rightarrow> drop_failed_batch (length events) (sw_metrics w)
                                    | _ \<Rightarrow> sw_metrics w)\<rparr>))))"

fun send_batches ::
  "sink_env \<Rightarrow> bool \<Rightarrow> wire_event list list \<Rightarrow> batch_error option \<Rightarrow> sink_worker \<Rightarrow> batch_error option \<times> sink_worker" where
  "send_batches env retry [] last_error w = (last_error, w)"
| "send_batches env retry (batch # batches) last_error w =
     (let (err, w1) = send_event_batch_with_retries env retry batch w
      in send_batches env retry batches (case err of None \<Rightarrow> last_error | Some e \<Rightarrow> Some e) w1)"

definition flush_with :: "bool \<Rightarrow> sink_env \<Rightarrow> nat \<Rightarrow> sink_worker \<Rightarrow> batch_error option \<times> sink_worker" where
  "flush_with retry env max_batch_events w =
     (if sw_buffer w = [] then (None, w)
      else send_batches env retry
             (split_events_by_size (en_event_len env) (serialized_empty_batch_len (en_to_json env)) (sw_buffer w)
               max_batch_events (en_max_request_bytes env))
             None (w\<lparr>sw_buffer := []\<rparr>))"

definition flush_buffer :: "sink_env \<Rightarrow> nat \<Rightarrow> sink_worker \<Rightarrow> batch_error option \<times> sink_worker" where
  "flush_buffer = flush_with True"

definition flush_buffer_once :: "sink_env \<Rightarrow> nat \<Rightarrow> sink_worker \<Rightarrow> batch_error option \<times> sink_worker" where
  "flush_buffer_once = flush_with False"

section \<open>The queue and the worker\<close>

datatype worker_message = EventMsg wire_event | FlushMsg

record controller_sink =
  cs_queue :: "worker_message list"
  cs_tx :: bool  \<comment> \<open>the sending end is there\<close>
  cs_alive :: bool  \<comment> \<open>the worker runs\<close>
  cs_worker :: sink_worker
  cs_acks :: "batch_error option list"
  cs_enqueued :: "wire_event list"  \<comment> \<open>every event the queue has taken\<close>

definition controller_sink_new :: "tapio_metrics \<Rightarrow> controller_sink" where
  "controller_sink_new m =
     \<lparr>cs_queue = [], cs_tx = True, cs_alive = True,
      cs_worker = \<lparr>sw_metrics = m, sw_sequence = 1, sw_buffer = [], sw_posts = 0, sw_log = [], sw_slept = []\<rparr>,
      cs_acks = [], cs_enqueued = []\<rparr>"

datatype enqueue_result = Enqueued | QueueFull | Disconnected

text \<open>\<open>SyncSender::try_send\<close>.\<close>

definition try_send :: "nat \<Rightarrow> worker_message \<Rightarrow> controller_sink \<Rightarrow> enqueue_result \<times> controller_sink" where
  "try_send capacity msg s =
     (if \<not> cs_alive s then (Disconnected, s)
      else if capacity \<le> length (cs_queue s) then (QueueFull, s)
      else (Enqueued, s\<lparr>cs_queue := cs_queue s @ [msg]\<rparr>))"

definition count_drop :: "string \<Rightarrow> controller_sink \<Rightarrow> controller_sink" where
  "count_drop reason s =
     s\<lparr>cs_worker := (cs_worker s)\<lparr>sw_metrics := (sw_metrics (cs_worker s))\<lparr>m_sink_drops_total :=
          inc [''controller'', reason] (m_sink_drops_total (sw_metrics (cs_worker s)))\<rparr>\<rparr>\<rparr>"

definition try_enqueue_controller_event :: "nat \<Rightarrow> wire_event \<Rightarrow> controller_sink \<Rightarrow> controller_sink" where
  "try_enqueue_controller_event capacity event s =
     (case try_send capacity (EventMsg event) s of
        (Enqueued, s1) \<Rightarrow> s1\<lparr>cs_enqueued := cs_enqueued s1 @ [event]\<rparr>
      | (QueueFull, s1) \<Rightarrow> count_drop ''queue_full'' s1
      | (Disconnected, s1) \<Rightarrow> count_drop ''worker_stopped'' s1)"

definition sink_send :: "nat \<Rightarrow> occurrence \<Rightarrow> controller_sink \<Rightarrow> (sink_error + unit) \<times> controller_sink" where
  "sink_send capacity occ s =
     (case occurrence_to_wire_event occ of
        Inl e \<Rightarrow> (Inl e, s)
      | Inr event \<Rightarrow>
          (Inr (), if cs_tx s then try_enqueue_controller_event capacity event s
                   else count_drop ''worker_stopped'' s))"

text \<open>One iteration of the loop that puts a flush request into the queue.\<close>

definition try_flush :: "nat \<Rightarrow> controller_sink \<Rightarrow> controller_sink" where
  "try_flush capacity s = (if cs_tx s then snd (try_send capacity FlushMsg s) else s)"

text \<open>A turn of the worker, given the batching limits that it reads.\<close>

definition worker_event :: "sink_env \<Rightarrow> nat \<Rightarrow> wire_event \<Rightarrow> sink_worker \<Rightarrow> sink_worker" where
  "worker_event env max_batch_events event w =
     (let w1 = w\<lparr>sw_buffer := sw_buffer w @ [event]\<rparr>
      in if max_batch_events \<le> length (sw_buffer w1) then snd (flush_buffer env max_batch_events w1) else w1)"

definition worker_turn :: "sink_env \<Rightarrow> agent_control \<Rightarrow> controller_sink \<Rightarrow> controller_sink" where
  "worker_turn env control s =
     (let max_batch_events = unat (snd (batching control)) in
      if \<not> cs_alive s then s
      else (case cs_queue s of
              EventMsg event # queue \<Rightarrow>
                s\<lparr>cs_queue := queue, cs_worker := worker_event env max_batch_events event (cs_worker s)\<rparr>
            | FlushMsg # queue \<Rightarrow>
                (let (err, w) = flush_buffer env max_batch_events (cs_worker s)
                 in s\<lparr>cs_queue := queue, cs_worker := w, cs_acks := cs_acks s @ [err]\<rparr>)
            | [] \<Rightarrow>
                if cs_tx s then s\<lparr>cs_worker := snd (flush_buffer env max_batch_events (cs_worker s))\<rparr>
                else s\<lparr>cs_worker := snd (flush_buffer_once env max_batch_events (cs_worker s)), cs_alive := False\<rparr>))"

datatype sink_input = Send occurrence | TryFlush | WorkerTurn agent_control | DropSink

fun sink_step :: "sink_env \<Rightarrow> nat \<Rightarrow> sink_input \<Rightarrow> controller_sink \<Rightarrow> controller_sink" where
  "sink_step env capacity (Send occ) s = snd (sink_send capacity occ s)"
| "sink_step env capacity TryFlush s = try_flush capacity s"
| "sink_step env capacity (WorkerTurn control) s = worker_turn env control s"
| "sink_step env capacity DropSink s = s\<lparr>cs_tx := False\<rparr>"

section \<open>Splitting: lemmas\<close>

definition batch_bytes :: "(wire_event \<Rightarrow> nat) \<Rightarrow> nat \<Rightarrow> wire_event list \<Rightarrow> nat" where
  "batch_bytes len empty_len events = empty_len + sum_list (map len events) + (length events - 1)"

lemma split_loop_concat: "concat (split_loop len e k m cur n events) = cur @ events"
  by (induction len e k m cur n events rule: split_loop.induct) simp_all

lemma split_loop_nonempty: "[] \<notin> set (split_loop len e k m cur n events)"
  by (induction len e k m cur n events rule: split_loop.induct) auto

lemma split_loop_count:
  "length cur \<le> max k 1 \<Longrightarrow> b \<in> set (split_loop len e k m cur n events) \<Longrightarrow> length b \<le> max k 1"
proof (induction len e k m cur n events rule: split_loop.induct)
  case (2 len e k m cur n event events)
  show ?case
  proof (cases "cur \<noteq> [] \<and> (k \<le> length cur \<or> m < candidate_len len cur n event)")
    case True
    with "2.IH"(1) [OF True] "2.prems" show ?thesis by auto
  next
    case False
    then have "length (cur @ [event]) \<le> max k 1" by (cases cur) auto
    moreover have "b \<in> set (split_loop len e k m (cur @ [event]) (candidate_len len cur n event) events)"
      using "2.prems"(2) by (simp only: split_loop.simps if_not_P [OF False])
    ultimately show ?thesis by (rule "2.IH"(2) [OF False])
  qed
qed (auto split: if_splits)

definition loop_len :: "(wire_event \<Rightarrow> nat) \<Rightarrow> nat \<Rightarrow> wire_event list \<Rightarrow> nat \<Rightarrow> bool" where
  "loop_len len e cur n \<longleftrightarrow> n = (if cur = [] then e else min (batch_bytes len e cur) (2 ^ 64 - 1))"

lemma candidate_len_eq:
  assumes "loop_len len e cur n"
  shows "candidate_len len cur n event = min (batch_bytes len e (cur @ [event])) (2 ^ 64 - 1)"
proof (cases "cur = []")
  case True
  with assms show ?thesis by (simp add: loop_len_def candidate_len_def sat_add_nat_def batch_bytes_def)
next
  case False
  then obtain k where "length cur = Suc k" by (cases cur) auto
  with assms False show ?thesis
    by (simp add: loop_len_def candidate_len_def sat_add_nat_def batch_bytes_def)
qed

lemma loop_len_step: "loop_len len e cur n \<Longrightarrow> loop_len len e (cur @ [event]) (candidate_len len cur n event)"
  by (simp add: candidate_len_eq) (simp add: loop_len_def)

lemma split_loop_bytes:
  "loop_len len e cur n \<Longrightarrow> length cur \<le> 1 \<or> batch_bytes len e cur \<le> m \<Longrightarrow> m < 2 ^ 64 - 1 \<Longrightarrow>
     b \<in> set (split_loop len e k m cur n events) \<Longrightarrow> length b = 1 \<or> batch_bytes len e b \<le> m"
proof (induction len e k m cur n events rule: split_loop.induct)
  case (1 len e k m cur n)
  then show ?case by (cases cur) (auto split: if_splits)
next
  case (2 len e k m cur n event events)
  show ?case
  proof (cases "cur \<noteq> [] \<and> (k \<le> length cur \<or> m < candidate_len len cur n event)")
    case True
    have len: "loop_len len e [event] (candidate_len len [] e event)"
      using loop_len_step [of len e "[]" e event] by (simp add: loop_len_def)
    have "b = cur \<or> b \<in> set (split_loop len e k m [event] (candidate_len len [] e event) events)"
      using "2.prems"(4) by (simp only: split_loop.simps if_P [OF True] set_simps insert_iff)
    then show ?thesis
    proof
      assume "b = cur"
      with True "2.prems"(2) show ?thesis by (cases cur) auto
    next
      assume "b \<in> set (split_loop len e k m [event] (candidate_len len [] e event) events)"
      with "2.IH"(1) [OF True len] "2.prems"(3) show ?thesis by simp
    qed
  next
    case False
    have "length (cur @ [event]) \<le> 1 \<or> batch_bytes len e (cur @ [event]) \<le> m"
    proof (cases "cur = []")
      case False': False
      with False have "candidate_len len cur n event \<le> m" by simp
      with candidate_len_eq [OF "2.prems"(1)] "2.prems"(3) show ?thesis
        by (simp add: min_def split: if_splits)
    qed simp
    moreover have "b \<in> set (split_loop len e k m (cur @ [event]) (candidate_len len cur n event) events)"
      using "2.prems"(4) by (simp only: split_loop.simps if_not_P [OF False])
    ultimately show ?thesis
      using "2.IH"(2) [OF False loop_len_step [OF "2.prems"(1)]] "2.prems"(3) by simp
  qed
qed

lemma split_facts:
  "concat (split_events_by_size len e events k m) = events"
  "[] \<notin> set (split_events_by_size len e events k m)"
  by (simp_all add: split_events_by_size_def split_loop_concat split_loop_nonempty)

section \<open>Retries: lemmas\<close>

interpretation retry_delay: backoff INITIAL_RETRY_BACKOFF MAX_RETRY_BACKOFF next_retry_backoff
  by unfold_locales (simp_all add: INITIAL_RETRY_BACKOFF_def MAX_RETRY_BACKOFF_def next_retry_backoff_def)

definition usable_status :: "http_error + http_response \<Rightarrow> bool" where
  "usable_status r = (case r of Inr response \<Rightarrow> is_success (hr_status response) | Inl _ \<Rightarrow> False)"

lemma read_events_not_gave_up [simp]: "read_events_response from_json body \<noteq> GaveUp e"
  by (auto simp: read_events_response_def split: sum.splits)

text \<open>
  The attempts stop at the first answer with a success status, or after the last one; the
  delays double in between; the batch is given up exactly when no answer was a success.
\<close>

lemma post_attempts_facts:
  "post_attempts answer from_json left n delay = (fate, posts, slept) \<Longrightarrow>
     1 \<le> posts \<and> posts \<le> Suc left
     \<and> slept = map (\<lambda>k. (next_retry_backoff ^^ k) delay) [0..<posts - 1]
     \<and> ((\<exists>e. fate = GaveUp e) \<longleftrightarrow> (\<forall>k\<le>left. \<not> usable_status (answer (n + k))))
     \<and> ((\<exists>e. fate = GaveUp e) \<longrightarrow> posts = Suc left)
     \<and> (\<forall>k<posts - 1. \<not> usable_status (answer (n + k)))"
proof (induction left arbitrary: n delay posts slept)
  case 0
  then show ?case by (auto simp: usable_status_def split: sum.splits if_splits)
next
  case (Suc left)
  show ?case
  proof (cases "usable_status (answer n)")
    case True
    then obtain response where "answer n = Inr response" "is_success (hr_status response)"
      by (auto simp: usable_status_def split: sum.splits)
    moreover have "\<not> (\<forall>k\<le>Suc left. \<not> usable_status (answer (n + k)))" using True by (intro notI) (drule spec [of _ 0], simp)
    ultimately show ?thesis using Suc.prems by auto
  next
    case False
    obtain posts' slept' where r: "post_attempts answer from_json left (n + 1) (next_retry_backoff delay) = (fate, posts', slept')"
      and p: "posts = Suc posts'" "slept = delay # slept'"
      using Suc.prems False by (auto simp: usable_status_def Let_def split: sum.splits if_splits prod.splits)
    note IH = Suc.IH [OF r]
    have all_less: "(\<forall>k<Suc j. P k) \<longleftrightarrow> P 0 \<and> (\<forall>k<j. P (Suc k))" for j P
      by (rule All_less_Suc2)
    obtain q where q: "posts' = Suc q" using IH by (cases posts') auto
    have shift: "(\<forall>k\<le>Suc left. \<not> usable_status (answer (n + k))) \<longleftrightarrow> (\<forall>k\<le>left. \<not> usable_status (answer (n + 1 + k)))"
      using False all_less [of "Suc left" "\<lambda>k. \<not> usable_status (answer (n + k))"] by (simp add: less_Suc_eq_le)
    have "\<forall>k<posts - 1. \<not> usable_status (answer (n + k))"
      using IH False p(1) q all_less [of q "\<lambda>k. \<not> usable_status (answer (n + k))"] by simp
    moreover have "slept = map (\<lambda>k. (next_retry_backoff ^^ k) delay) [0..<posts - 1]"
      using IH p q retry_delay.delay_run [of delay q] by (simp del: upt_Suc)
    moreover have "posts' \<le> Suc left" "(\<exists>e. fate = GaveUp e) \<longrightarrow> posts' = Suc left" using IH by blast+
    then have "1 \<le> posts" "posts \<le> Suc (Suc left)" "(\<exists>e. fate = GaveUp e) \<longrightarrow> posts = Suc (Suc left)"
      unfolding p(1) by simp_all
    moreover have "(\<exists>e. fate = GaveUp e) \<longleftrightarrow> (\<forall>k\<le>left. \<not> usable_status (answer (n + 1 + k)))"
      using IH by blast
    ultimately show ?thesis unfolding shift by (intro conjI)
  qed
qed

section \<open>The worker: lemmas\<close>

text \<open>The sequence number of the n-th batch, from zero; it stops at the largest 64-bit value.\<close>

definition seqno :: "nat \<Rightarrow> u64" where
  "seqno n = ((\<lambda>s. sat_add s 1) ^^ n) 1"

lemma unat_seqno: "unat (seqno n) = min (Suc n) (2 ^ 64 - 1)"
  by (induction n) (simp_all add: seqno_def unat_sat_add)

definition given_up :: "(event_batch_request \<times> batch_fate) list \<Rightarrow> nat" where
  "given_up entries = sum_list (map (\<lambda>(r, fate). case fate of GaveUp _ \<Rightarrow> length (batch_events r) | _ \<Rightarrow> 0) entries)"

definition logged :: "sink_worker \<Rightarrow> wire_event list" where
  "logged w = concat (map (\<lambda>(r, fate). batch_events r) (sw_log w))"

definition drops :: "string \<Rightarrow> sink_worker \<Rightarrow> u64" where
  "drops reason w = cv_value (m_sink_drops_total (sw_metrics w)) [''controller'', reason]"

text \<open>Every entry of the log is a batch of this agent that is not empty, with its sequence number.\<close>

definition entry_ok :: "sink_env \<Rightarrow> nat \<times> event_batch_request \<times> batch_fate \<Rightarrow> bool" where
  "entry_ok env e = (case e of (i, r, fate) \<Rightarrow>
     batch_sequence r = seqno i \<and> batch_agent_id r = acc_agent_id (en_config env)
     \<and> batch_node_name r = acc_node_name (en_config env) \<and> batch_wire_version r = WIRE_VERSION
     \<and> batch_events r \<noteq> [])"

definition worker_inv :: "sink_env \<Rightarrow> sink_worker \<Rightarrow> bool" where
  "worker_inv env w \<longleftrightarrow> cv_inv (m_sink_drops_total (sw_metrics w))
     \<and> drops ''send_failed'' w = of_nat (given_up (sw_log w))
     \<and> list_all (entry_ok env) (zip [0..<length (sw_log w)] (sw_log w))
     \<and> sw_sequence w = seqno (length (sw_log w))"

lemma send_batch_effect:
  assumes "send_event_batch_with_retries env retry events w = (err, w')"
  shows "\<exists>fate. sw_log w' = sw_log w @ [(build_batch env events w, fate)] \<and> err = fate_error fate
     \<and> sw_sequence w' = sat_add (sw_sequence w) 1 \<and> sw_buffer w' = sw_buffer w
     \<and> sw_metrics w' = (case fate of GaveUp _ \<Rightarrow> drop_failed_batch (length events) (sw_metrics w) | _ \<Rightarrow> sw_metrics w)"
  using assms
  by (auto simp: send_event_batch_with_retries_def Let_def fate_error_def
      split: sum.splits prod.splits)

lemma drop_failed_batch_facts [simp]:
  "cv_inv (m_sink_drops_total m) \<Longrightarrow> cv_inv (m_sink_drops_total (drop_failed_batch n m))"
  "cv_inv (m_sink_drops_total m) \<Longrightarrow>
     cv_value (m_sink_drops_total (drop_failed_batch n m)) ls
       = cv_value (m_sink_drops_total m) ls + (if ls = [''controller'', ''send_failed''] then of_nat n else 0)"
  by (simp_all add: drop_failed_batch_def inc_value inc_inv)

lemma send_batch_inv:
  assumes "worker_inv env w" "events \<noteq> []" "send_event_batch_with_retries env retry events w = (err, w')"
  shows "worker_inv env w'" "logged w' = logged w @ events" "sw_buffer w' = sw_buffer w"
    "reason \<noteq> ''send_failed'' \<Longrightarrow> drops reason w' = drops reason w"
proof -
  obtain fate where f: "sw_log w' = sw_log w @ [(build_batch env events w, fate)]"
    "sw_sequence w' = sat_add (sw_sequence w) 1" "sw_buffer w' = sw_buffer w"
    "sw_metrics w' = (case fate of GaveUp _ \<Rightarrow> drop_failed_batch (length events) (sw_metrics w) | _ \<Rightarrow> sw_metrics w)"
    using send_batch_effect [OF assms(3)] by blast
  show "sw_buffer w' = sw_buffer w" by (rule f)
  show "logged w' = logged w @ events" by (simp add: logged_def f build_batch_def)
  show "reason \<noteq> ''send_failed'' \<Longrightarrow> drops reason w' = drops reason w"
    using assms(1) by (auto simp: drops_def f worker_inv_def split: batch_fate.splits)
  have "drops ''send_failed'' w' = of_nat (given_up (sw_log w'))" "cv_inv (m_sink_drops_total (sw_metrics w'))"
    using assms(1) by (auto simp: worker_inv_def f drops_def given_up_def build_batch_def split: batch_fate.splits)
  moreover have "list_all (entry_ok env) (zip [0..<length (sw_log w')] (sw_log w'))"
    using assms(1,2) by (simp add: worker_inv_def f entry_ok_def build_batch_def)
  moreover have "sw_sequence w' = seqno (length (sw_log w'))"
    using assms(1) by (simp add: worker_inv_def f seqno_def)
  ultimately show "worker_inv env w'" by (simp add: worker_inv_def)
qed

lemma send_batches_inv:
  "worker_inv env w \<Longrightarrow> [] \<notin> set batches \<Longrightarrow> send_batches env retry batches last_error w = (err, w') \<Longrightarrow>
     worker_inv env w' \<and> logged w' = logged w @ concat batches \<and> sw_buffer w' = sw_buffer w
     \<and> (reason \<noteq> ''send_failed'' \<longrightarrow> drops reason w' = drops reason w)"
proof (induction batches arbitrary: last_error w)
  case Nil
  then show ?case by simp
next
  case (Cons b bs)
  obtain e w1 where s: "send_event_batch_with_retries env retry b w = (e, w1)" by force
  have b: "b \<noteq> []" using Cons.prems(2) by auto
  from send_batch_inv [OF Cons.prems(1) b s] Cons.IH [of w1 "case e of None \<Rightarrow> last_error | Some e \<Rightarrow> Some e"]
    Cons.prems s show ?case by auto
qed

lemma flush_inv:
  assumes "worker_inv env w" "flush_with retry env k w = (err, w')"
  shows "worker_inv env w'" "logged w' = logged w @ sw_buffer w" "sw_buffer w' = []"
    "reason \<noteq> ''send_failed'' \<Longrightarrow> drops reason w' = drops reason w"
proof -
  have i: "worker_inv env (w\<lparr>sw_buffer := []\<rparr>)" using assms(1) by (simp add: worker_inv_def drops_def)
  have "worker_inv env w' \<and> logged w' = logged w @ sw_buffer w \<and> sw_buffer w' = []
      \<and> (reason \<noteq> ''send_failed'' \<longrightarrow> drops reason w' = drops reason w)"
  proof (cases "sw_buffer w = []")
    case True
    with assms show ?thesis by (simp add: flush_with_def)
  next
    case False
    with assms(2) have "send_batches env retry (split_events_by_size (en_event_len env) (serialized_empty_batch_len (en_to_json env))
        (sw_buffer w) k (en_max_request_bytes env)) None (w\<lparr>sw_buffer := []\<rparr>) = (err, w')"
      by (simp add: flush_with_def)
    from send_batches_inv [OF i split_facts(2) this, of reason] show ?thesis
      by (simp add: split_facts(1)) (simp add: logged_def drops_def)
  qed
  then show "worker_inv env w'" "logged w' = logged w @ sw_buffer w" "sw_buffer w' = []"
    "reason \<noteq> ''send_failed'' \<Longrightarrow> drops reason w' = drops reason w" by simp_all
qed

section \<open>The sink: invariant and account\<close>

fun queued_event :: "worker_message \<Rightarrow> wire_event list" where
  "queued_event (EventMsg event) = [event]"
| "queued_event FlushMsg = []"

text \<open>
  What the queue has taken is, in order, in the batches, in the buffer and in the queue.
\<close>

definition sink_inv :: "sink_env \<Rightarrow> nat \<Rightarrow> controller_sink \<Rightarrow> bool" where
  "sink_inv env capacity s \<longleftrightarrow> worker_inv env (cs_worker s) \<and> length (cs_queue s) \<le> capacity
     \<and> cs_enqueued s = logged (cs_worker s) @ sw_buffer (cs_worker s) @ concat (map queued_event (cs_queue s))
     \<and> (\<not> cs_alive s \<longrightarrow> cs_queue s = [] \<and> sw_buffer (cs_worker s) = [])"

text \<open>Events taken and events refused, modulo two to the 64 as the counters are.\<close>

definition offered :: "controller_sink \<Rightarrow> u64" where
  "offered s = of_nat (length (cs_enqueued s)) + drops ''queue_full'' (cs_worker s) + drops ''worker_stopped'' (cs_worker s)"

definition offer_step :: "sink_input \<Rightarrow> u64 \<Rightarrow> u64" where
  "offer_step i n = (case i of Send occ \<Rightarrow> if is_ok (occurrence_to_wire_event occ) then n + 1 else n | _ \<Rightarrow> n)"

lemma count_drop_facts:
  assumes "cv_inv (m_sink_drops_total (sw_metrics (cs_worker s)))"
  shows "drops r (cs_worker (count_drop reason s)) = drops r (cs_worker s) + (if r = reason then 1 else 0)"
    "reason \<noteq> ''send_failed'' \<Longrightarrow> worker_inv env (cs_worker s) \<Longrightarrow> worker_inv env (cs_worker (count_drop reason s))"
    "sw_buffer (cs_worker (count_drop reason s)) = sw_buffer (cs_worker s)"
    "logged (cs_worker (count_drop reason s)) = logged (cs_worker s)"
    "cs_queue (count_drop reason s) = cs_queue s" "cs_enqueued (count_drop reason s) = cs_enqueued s"
    "cs_alive (count_drop reason s) = cs_alive s"
  using assms
  by (simp_all add: count_drop_def drops_def worker_inv_def inc_def inc_value inc_inv logged_def)

lemma send_step:
  assumes "sink_inv env capacity s" "sink_send capacity occ s = (r, s')"
  shows "sink_inv env capacity s' \<and> offered s' = offer_step (Send occ) (offered s)"
proof (cases "occurrence_to_wire_event occ")
  case (Inl e)
  with assms show ?thesis by (simp add: sink_send_def offer_step_def)
next
  case (Inr event)
  have cv: "cv_inv (m_sink_drops_total (sw_metrics (cs_worker s)))"
    using assms(1) by (simp add: sink_inv_def worker_inv_def)
  note cd = count_drop_facts [OF cv]
  consider (full) "s' = count_drop ''queue_full'' s" | (stopped) "s' = count_drop ''worker_stopped'' s"
    | (taken) "cs_alive s" "length (cs_queue s) < capacity"
        "s' = s\<lparr>cs_queue := cs_queue s @ [EventMsg event], cs_enqueued := cs_enqueued s @ [event]\<rparr>"
    using assms(2) Inr
    by (cases "cs_tx s"; cases "cs_alive s"; cases "capacity \<le> length (cs_queue s)")
      (auto simp: sink_send_def try_enqueue_controller_event_def try_send_def)
  then show ?thesis
  proof cases
    case full
    show ?thesis using assms(1) Inr unfolding full sink_inv_def offered_def offer_step_def
      by (simp add: cd)
  next
    case stopped
    show ?thesis using assms(1) Inr unfolding stopped sink_inv_def offered_def offer_step_def
      by (simp add: cd)
  next
    case taken
    show ?thesis using assms(1) Inr taken(1,2) unfolding taken(3) sink_inv_def offered_def offer_step_def
      by simp
  qed
qed

lemma worker_event_inv:
  assumes "worker_inv env w"
  shows "worker_inv env (worker_event env k event w)"
    "logged (worker_event env k event w) @ sw_buffer (worker_event env k event w) = logged w @ sw_buffer w @ [event]"
    "reason \<noteq> ''send_failed'' \<Longrightarrow> drops reason (worker_event env k event w) = drops reason w"
proof -
  define w1 where "w1 = w\<lparr>sw_buffer := sw_buffer w @ [event]\<rparr>"
  have i: "worker_inv env w1" using assms by (simp add: w1_def worker_inv_def drops_def)
  obtain err w2 where f: "flush_with True env k w1 = (err, w2)" by force
  have e: "worker_event env k event w = (if k \<le> length (sw_buffer w1) then w2 else w1)"
    by (simp add: worker_event_def w1_def [symmetric] flush_buffer_def f Let_def)
  note fl = flush_inv [OF i f]
  show "worker_inv env (worker_event env k event w)" using i fl(1) by (simp add: e)
  show "logged (worker_event env k event w) @ sw_buffer (worker_event env k event w) = logged w @ sw_buffer w @ [event]"
    using fl(2,3) by (simp add: e) (simp add: w1_def logged_def)
  show "reason \<noteq> ''send_failed'' \<Longrightarrow> drops reason (worker_event env k event w) = drops reason w"
    using fl(4) by (simp add: e) (simp add: w1_def drops_def)
qed

lemma turn_step:
  assumes "sink_inv env capacity s"
  shows "sink_inv env capacity (worker_turn env control s) \<and> offered (worker_turn env control s) = offered s"
proof -
  define k where "k = unat (snd (batching control))"
  have i: "worker_inv env (cs_worker s)" using assms by (simp add: sink_inv_def)
  obtain e1 w1 where f1: "flush_with True env k (cs_worker s) = (e1, w1)" by force
  obtain e2 w2 where f2: "flush_with False env k (cs_worker s) = (e2, w2)" by force
  note facts = flush_inv [OF i f1] flush_inv [OF i f2] worker_event_inv [OF i, where k = k]
  consider "\<not> cs_alive s" | event queue where "cs_alive s" "cs_queue s = EventMsg event # queue"
    | queue where "cs_alive s" "cs_queue s = FlushMsg # queue" | "cs_alive s" "cs_queue s = []"
    by (metis list.exhaust worker_message.exhaust)
  then show ?thesis
  proof cases
    case 1
    with assms show ?thesis by (simp add: worker_turn_def Let_def)
  next
    case 2
    with assms facts show ?thesis
      by (simp add: worker_turn_def k_def [symmetric] Let_def sink_inv_def offered_def)
  next
    case 3
    with assms facts f1 show ?thesis
      by (simp add: worker_turn_def k_def [symmetric] flush_buffer_def Let_def sink_inv_def offered_def)
  next
    case 4
    with assms facts f1 f2 show ?thesis
      by (simp add: worker_turn_def k_def [symmetric] flush_buffer_def flush_buffer_once_def Let_def
          sink_inv_def offered_def)
  qed
qed

lemma sink_step_inv:
  "sink_inv env capacity s \<Longrightarrow>
     sink_inv env capacity (sink_step env capacity i s) \<and> offered (sink_step env capacity i s) = offer_step i (offered s)"
proof (cases i)
  case (Send occ)
  assume "sink_inv env capacity s"
  from send_step [OF this, of occ "fst (sink_send capacity occ s)" "snd (sink_send capacity occ s)"] Send
  show ?thesis by simp
next
  case TryFlush
  assume "sink_inv env capacity s"
  with TryFlush show ?thesis
    by (auto simp: try_flush_def try_send_def sink_inv_def offered_def offer_step_def)
next
  case (WorkerTurn control)
  assume "sink_inv env capacity s"
  from turn_step [OF this] WorkerTurn show ?thesis by (simp add: offer_step_def)
next
  case DropSink
  assume "sink_inv env capacity s"
  with DropSink show ?thesis by (simp add: sink_inv_def offered_def offer_step_def)
qed

interpretation sink: simulation "sink_step env capacity" "sink_inv env capacity" offered offer_step
  for env capacity
  by unfold_locales (simp_all add: sink_step_inv)

lemma sink_inv_new: "cv_inv (m_sink_drops_total m) \<Longrightarrow> cv_value (m_sink_drops_total m) [''controller'', ''send_failed''] = 0
    \<Longrightarrow> sink_inv env capacity (controller_sink_new m)"
  by (simp add: sink_inv_def controller_sink_new_def worker_inv_def drops_def given_up_def logged_def seqno_def)

lemma offer_count:
  "fold offer_step inputs n
     = n + of_nat (length (filter (\<lambda>i. case i of Send occ \<Rightarrow> is_ok (occurrence_to_wire_event occ) | _ \<Rightarrow> False) inputs))"
  by (induction inputs arbitrary: n) (auto simp: offer_step_def split: sink_input.splits)

lemma entries_sequences:
  "list_all (entry_ok env) (zip [0..<length l] l) \<Longrightarrow> map (\<lambda>e. batch_sequence (fst e)) l = map seqno [0..<length l]"
proof (induction l rule: rev_induct)
  case (snoc e l)
  then show ?case by (auto simp: entry_ok_def)
qed simp

section \<open>Properties\<close>

text \<open>
  C33: splitting a buffer loses, duplicates and reorders no event; no batch is empty or longer than
  the batch limit, and a batch of more than one event fits the byte limit by the lengths
  that the splitter adds up.
\<close>

theorem split_respects_limits:
  assumes "max_request_bytes < 2 ^ 64 - 1"
  shows "let batches = split_events_by_size len empty_len events max_batch_events max_request_bytes in
     concat batches = events
     \<and> list_all (\<lambda>b. b \<noteq> [] \<and> length b \<le> max max_batch_events 1
          \<and> (length b = 1 \<or> empty_len + sum_list (map len b) + (length b - 1) \<le> max_request_bytes)) batches"
proof -
  define batches where "batches = split_events_by_size len empty_len events max_batch_events max_request_bytes"
  have "b \<noteq> []" "length b \<le> max max_batch_events 1" "length b = 1 \<or> batch_bytes len empty_len b \<le> max_request_bytes"
    if "b \<in> set batches" for b
  proof -
    note mem = that [unfolded batches_def split_events_by_size_def]
    show "b \<noteq> []" using mem split_loop_nonempty by metis
    show "length b \<le> max max_batch_events 1" by (rule split_loop_count [OF _ mem]) simp
    show "length b = 1 \<or> batch_bytes len empty_len b \<le> max_request_bytes"
      by (rule split_loop_bytes [OF _ _ assms mem]) (simp_all add: loop_len_def)
  qed
  then have "list_all (\<lambda>b. b \<noteq> [] \<and> length b \<le> max max_batch_events 1
      \<and> (length b = 1 \<or> empty_len + sum_list (map len b) + (length b - 1) \<le> max_request_bytes)) batches"
    unfolding list_all_iff batch_bytes_def by blast
  then show ?thesis unfolding batches_def [symmetric] Let_def by (simp add: batches_def split_facts)
qed

definition sample_event :: wire_event where
  "sample_event = \<lparr>ev_type = ''kernel.network.rtt_degradation'', ev_timestamp_unix_nanos = 1,
     ev_observer = ''network'', ev_severity = EvWarning, ev_facts = JObj []\<rparr>"

lemma sample_event_valid: "wire_event_validate sample_event = Inr ()"
proof -
  have "visible (CHR ''n'')" "visible (CHR ''k'')" by (simp_all add: visible_def)
  then have "\<not> blank ''network''" "\<not> blank ''kernel.network.rtt_degradation''"
    using visible_not_blank by (metis list.set_intros)+
  then show ?thesis by (simp add: wire_event_ok sample_event_def starts_with_def)
qed

lemma split_respects_limits_witness:
  "map length (split_events_by_size (\<lambda>_. 40) 100 [sample_event, sample_event, sample_event] 2 262144) = [2, 1]
     \<and> concat (split_events_by_size (\<lambda>_. 40) 100 [sample_event, sample_event, sample_event] 2 262144)
         = [sample_event, sample_event, sample_event]"
proof (rule conjI)
  show "map length (split_events_by_size (\<lambda>_. 40) 100 [sample_event, sample_event, sample_event] 2 262144) = [2, 1]"
    by (simp add: split_events_by_size_def candidate_len_def sat_add_nat_def)
  show "concat (split_events_by_size (\<lambda>_. 40) 100 [sample_event, sample_event, sample_event] 2 262144)
      = [sample_event, sample_event, sample_event]"
    by (rule split_respects_limits [unfolded Let_def, THEN conjunct1]) simp
qed

text \<open>
  C32: a batch is posted at most four times with at most 700 milliseconds of delays in all; it is
  given up exactly when none of four answers has a success status, and the first answer
  with one ends the attempts.
\<close>

theorem retries_bounded:
  "case post_attempts answer from_json MAX_RETRIES n INITIAL_RETRY_BACKOFF of (fate, posts, slept) \<Rightarrow>
     1 \<le> posts \<and> posts \<le> 4 \<and> sum_list slept \<le> 700
     \<and> ((\<exists>e. fate = GaveUp e) \<longleftrightarrow>
          list_all (\<lambda>k. \<not> usable_status (answer k)) [n, n + 1, n + 2, n + 3])
     \<and> list_all (\<lambda>k. \<not> usable_status (answer k)) [n..<n + posts - 1]"
proof -
  obtain fate posts slept where r: "post_attempts answer from_json MAX_RETRIES n INITIAL_RETRY_BACKOFF = (fate, posts, slept)"
    by (metis prod_cases3)
  note f = post_attempts_facts [OF r]
  have posts: "1 \<le> posts" "posts \<le> 4" using f by (simp_all add: MAX_RETRIES_def)
  have delay: "(next_retry_backoff ^^ k) INITIAL_RETRY_BACKOFF = min (100 * 2 ^ k) 2000" for k
    unfolding retry_delay.delay_after by (simp add: INITIAL_RETRY_BACKOFF_def MAX_RETRY_BACKOFF_def)
  have slept: "slept = map (\<lambda>k. min (100 * 2 ^ k) 2000) [0..<posts - 1]" using f unfolding delay by blast
  have "posts = 1 \<or> posts = 2 \<or> posts = 3 \<or> posts = 4" using posts by linarith
  then have "sum_list slept \<le> 700" unfolding slept by (elim disjE) (simp_all add: upt_conv_Cons)
  moreover have "(\<exists>e. fate = GaveUp e) \<longleftrightarrow> list_all (\<lambda>k. \<not> usable_status (answer k)) [n, n + 1, n + 2, n + 3]"
  proof -
    have "(\<exists>e. fate = GaveUp e) \<longleftrightarrow> (\<forall>k\<le>MAX_RETRIES. \<not> usable_status (answer (n + k)))" using f by blast
    also have "\<dots> \<longleftrightarrow> list_all (\<lambda>k. \<not> usable_status (answer k)) [n, n + 1, n + 2, n + 3]"
      by (auto simp: MAX_RETRIES_def numeral_eq_Suc le_Suc_eq)
    finally show ?thesis .
  qed
  moreover have "list_all (\<lambda>k. \<not> usable_status (answer k)) [n..<n + posts - 1]"
  proof -
    have "\<not> usable_status (answer k)" if "n \<le> k" "k < n + posts - 1" for k
    proof -
      have "k - n < posts - 1" using that by linarith
      with f have "\<not> usable_status (answer (n + (k - n)))" by blast
      with that show ?thesis by simp
    qed
    then show ?thesis by (simp add: list_all_iff)
  qed
  ultimately show ?thesis using posts unfolding r prod.case by (intro conjI)
qed

text \<open>
  C4: in every run of the sink, with any network and any interleaving of clients and worker, the
  events the queue has taken are, in order and each once, in the batches built, in the
  worker's buffer and in the queue, which never exceeds its capacity; the batches are
  numbered from one without a gap; the events of a batch given up are counted as dropped;
  and the events taken plus those counted as refused are the events offered.
\<close>

theorem sink_accounts_run:
  "let s = fold (sink_step env capacity) inputs (controller_sink_new metrics_new); w = cs_worker s in
     cs_enqueued s = concat (map (\<lambda>e. batch_events (fst e)) (sw_log w)) @ sw_buffer w
       @ concat (map queued_event (cs_queue s))
     \<and> length (cs_queue s) \<le> capacity
     \<and> map (\<lambda>e. unat (batch_sequence (fst e))) (sw_log w)
         = map (\<lambda>i. min (i + 1) (2 ^ 64 - 1)) [0..<length (sw_log w)]
     \<and> drops ''send_failed'' w = of_nat (given_up (sw_log w))
     \<and> of_nat (length (cs_enqueued s)) + drops ''queue_full'' w + drops ''worker_stopped'' w
         = of_nat (length (filter (\<lambda>i. case i of Send occ \<Rightarrow> is_ok (occurrence_to_wire_event occ) | _ \<Rightarrow> False) inputs))"
proof -
  have i: "sink_inv env capacity (controller_sink_new metrics_new)"
    by (rule sink_inv_new) (simp_all add: metrics_new_def)
  note inv = sink.inv_run [OF i, of inputs] and view = sink.view_run [OF i, of inputs]
  have "offered (controller_sink_new metrics_new) = 0"
    by (simp add: offered_def controller_sink_new_def drops_def metrics_new_def)
  moreover have "concat (map (\<lambda>e. batch_events (fst e)) l) = concat (map (\<lambda>(r, fate). batch_events r) l)"
    for l :: "(event_batch_request \<times> batch_fate) list"
    by (simp add: split_def)
  moreover have "map (\<lambda>e. unat (batch_sequence (fst e))) l = map (\<lambda>i. min (i + 1) (2 ^ 64 - 1)) [0..<length l]"
    if "list_all (entry_ok env) (zip [0..<length l] l)" for l
  proof -
    have "map unat (map (\<lambda>e. batch_sequence (fst e)) l) = map unat (map seqno [0..<length l])"
      using entries_sequences [OF that] by simp
    then show ?thesis by (simp add: comp_def unat_seqno)
  qed
  ultimately show ?thesis
    using inv view unfolding Let_def offer_count sink_inv_def worker_inv_def offered_def logged_def by simp
qed

text \<open>
  A batch whose POST is answered with a success status and a body that does not decode is not
  retried and its events are not counted as dropped, although the caller is told of an error.
\<close>

theorem undecodable_success_not_counted:
  assumes "event_batch_request_validate (build_batch env events w) USIZE_MAX = Inr ()"
    and "en_to_json env (build_batch env events w) = Inr body"
    and "post_json_response (en_connect env (sw_posts w)) (events_url (en_config env)) body MAX_EVENTS_RESPONSE_BYTES
           = Inr response"
    and "is_success (hr_status response)" "en_from_json env (hr_body response) = Inl e"
  shows "let (err, w') = send_event_batch_with_retries env retry events w in
     err = Some (DecodeEvents e) \<and> sw_posts w' = sw_posts w + 1 \<and> sw_metrics w' = sw_metrics w
     \<and> sw_slept w' = sw_slept w"
  using assms
  by (cases retry)
    (simp_all add: send_event_batch_with_retries_def read_events_response_def fate_error_def MAX_RETRIES_def
      numeral_eq_Suc Let_def)

definition sample_env :: sink_env where
  "sample_env = \<lparr>en_config = \<lparr>acc_endpoint = ''http://c'', acc_agent_id = ''a'', acc_node_name = ''n'',
       acc_poll_interval = 5, acc_heartbeat_interval = 5\<rparr>,
     en_connect = (\<lambda>_ _. Inr \<lparr>cx_write_head = (\<lambda>_. None), cx_write_body = (\<lambda>_. None),
       cx_read = chunks_from [''HTTP/1.1 200 OK'' @ CRLF @ CRLF @ ''?'']\<rparr>),
     en_to_json = (\<lambda>_. Inr ''{}''), en_from_json = (\<lambda>_. Inl ''expected value''), en_clock = (\<lambda>_. 0),
     en_event_len = (\<lambda>_. 40), en_max_request_bytes = 262144\<rparr>"

lemma undecodable_success_not_counted_witness:
  "drops ''send_failed'' (snd (send_event_batch_with_retries sample_env True [sample_event]
      (cs_worker (controller_sink_new metrics_new)))) = 0"
proof -
  let ?w = "cs_worker (controller_sink_new metrics_new)"
  have "visible (CHR ''a'')" "visible (CHR ''n'')" by (simp_all add: visible_def)
  then have nb: "\<not> blank ''a''" "\<not> blank ''n''"
    using visible_not_blank by (metis list.set_intros)+
  have valid: "event_batch_request_validate (build_batch sample_env [sample_event] ?w) USIZE_MAX = Inr ()"
    using nb sample_event_valid by (simp add: event_batch_request_ok build_batch_def sample_env_def USIZE_MAX_def)
  have "read_response (chunks_from [''HTTP/1.1 200 OK'' @ CRLF @ CRLF @ ''?'']) MAX_EVENTS_RESPONSE_BYTES
      = Inr \<lparr>hr_status = 200, hr_body = ''?''\<rparr>"
    by (rule read_ok_response) (simp add: MAX_EVENTS_RESPONSE_BYTES_def)
  then have post: "post_json_response (en_connect sample_env (sw_posts ?w)) (events_url (en_config sample_env)) ''{}''
      MAX_EVENTS_RESPONSE_BYTES = Inr \<lparr>hr_status = 200, hr_body = ''?''\<rparr>"
    by (simp add: post_json_response_def request_def events_url_def sample_env_def strip_prefix_def starts_with_def
        trim_end_char_def split_target_def)
  show ?thesis
    using undecodable_success_not_counted [OF valid _ post]
    by (simp add: sample_env_def is_success_def drops_def split_def Let_def controller_sink_new_def metrics_new_def)
qed

end
