(* ===== verification/ObserverRun.thy ===== *)
theory ObserverRun
  imports Drain Carriers
begin

text \<open>
  The \<open>run\<close> functions of the four observers of \<open>tapio-agent/src/observer/\<close> around the tick of
  \<open>Drain\<close>: loading the eBPF object, registering its configuration map, attaching the programs,
  for \<open>node_pmc\<close> opening the hardware counters, then ticks until the shutdown signal and a
  last flush of the sink. What the eBPF loader and the kernel answer are parameters.
\<close>

section \<open>What the loader and the kernel answer\<close>

datatype program_answer = NoProgram | WrongKind string | NotLoaded string | Loaded

text \<open>
  A loaded object: the descriptor of its \<open>tapio_config\<close> map, its programs by name, the error of
  attaching a program to a target, the number of CPUs, and whether it has the two other maps
  (\<open>None\<close>: no \<open>events\<close> map; an error: it is not a ring buffer).
\<close>

record ebpf_object =
  eo_config_map :: "nat option"
  eo_program :: "string \<Rightarrow> program_answer"
  eo_attach :: "string \<Rightarrow> string \<Rightarrow> string option"
  eo_nr_cpus :: "string + nat"
  eo_has_metrics :: bool
  eo_events :: "string option option"

datatype setup_error =
    ObjectNotLoaded string
  | NoCarrier
  | ProgramNotFound string
  | ProgramWrongKind string
  | ProgramNotLoaded string string
  | NotAttached string string string
  | CpusUnknown string
  | PerfMapNotSet string
  | EventsNotFound
  | EventsNotRing string

text \<open>The observer did not start, has nothing to observe, or runs with or without loss counters.\<close>

datatype setup_end = SetupFailed setup_error | SetupDisabled | SetupRunning bool

section \<open>Setting up\<close>

definition load_program :: "ebpf_object \<Rightarrow> string \<Rightarrow> setup_error + unit" where
  "load_program obj name =
     (case eo_program obj name of
        NoProgram \<Rightarrow> Inl (ProgramNotFound name)
      | WrongKind e \<Rightarrow> Inl (ProgramWrongKind e)
      | NotLoaded e \<Rightarrow> Inl (ProgramNotLoaded name e)
      | Loaded \<Rightarrow> Inr ())"

definition attach_program :: "ebpf_object \<Rightarrow> string \<Rightarrow> string \<Rightarrow> setup_error + unit" where
  "attach_program obj name target =
     (case eo_attach obj name target of None \<Rightarrow> Inr () | Some e \<Rightarrow> Inl (NotAttached name target e))"

definition attach_tracepoint :: "ebpf_object \<Rightarrow> string \<times> string \<times> string \<Rightarrow> setup_error + unit" where
  "attach_tracepoint obj p =
     (case p of (name, category, tp) \<Rightarrow>
        and_then (load_program obj name) (\<lambda>_. attach_program obj name (category @ ''/'' @ tp)))"

definition open_ring :: "ebpf_object \<Rightarrow> setup_end" where
  "open_ring obj =
     (case eo_events obj of
        None \<Rightarrow> SetupFailed EventsNotFound
      | Some (Some e) \<Rightarrow> SetupFailed (EventsNotRing e)
      | Some None \<Rightarrow> SetupRunning (eo_has_metrics obj))"

definition tracepoint_body :: "(string \<times> string \<times> string) list \<Rightarrow> ebpf_object \<Rightarrow> setup_end" where
  "tracepoint_body programs obj =
     (case first_err (map (attach_tracepoint obj) programs) of
        Inl e \<Rightarrow> SetupFailed e
      | Inr _ \<Rightarrow>
          (case eo_nr_cpus obj of Inl e \<Rightarrow> SetupFailed (CpusUnknown e) | Inr _ \<Rightarrow> open_ring obj))"

definition network_programs :: "(string \<times> string \<times> string) list" where
  "network_programs =
     [(''trace_inet_sock_set_state'', ''sock'', ''inet_sock_set_state''),
      (''trace_tcp_receive_reset'', ''tcp'', ''tcp_receive_reset''),
      (''trace_tcp_retransmit_skb'', ''tcp'', ''tcp_retransmit_skb'')]"

definition container_programs :: "(string \<times> string \<times> string) list" where
  "container_programs =
     [(''handle_oom'', ''oom'', ''mark_victim''), (''handle_exit'', ''sched'', ''sched_process_exit'')]"

definition storage_programs :: "(string \<times> string \<times> string) list" where
  "storage_programs =
     [(''trace_block_rq_issue'', ''block'', ''block_rq_issue''),
      (''trace_block_rq_complete'', ''block'', ''block_rq_complete'')]"

text \<open>
  Every observer begins with the load and the registration of its configuration map; \<open>body\<close> is
  the rest of its set-up. When that ends otherwise than in \<open>SetupRunning\<close>, \<open>run\<close> returns: the
  object is dropped and its descriptors are closed.
\<close>

definition observer_setup ::
  "(nat \<Rightarrow> bool) \<Rightarrow> string \<Rightarrow> (ebpf_object \<Rightarrow> setup_end) \<Rightarrow> string + ebpf_object \<Rightarrow> tapio_config
     \<Rightarrow> carrier_state \<Rightarrow> setup_end \<times> carrier_state" where
  "observer_setup accepts name body loaded config st =
     (case loaded of
        Inl e \<Rightarrow> (SetupFailed (ObjectNotLoaded e), st)
      | Inr obj \<Rightarrow>
          (let (ok, st1) = init_and_register_tapio_config accepts name (eo_config_map obj) config st
           in if ok then (body obj, st1) else (SetupFailed NoCarrier, st1)))"

definition network_setup where
  "network_setup accepts = observer_setup accepts ''network'' (tracepoint_body network_programs)"

definition container_setup where
  "container_setup accepts = observer_setup accepts ''container'' (tracepoint_body container_programs)"

definition storage_setup where
  "storage_setup accepts = observer_setup accepts ''storage'' (tracepoint_body storage_programs)"

section \<open>Hardware counters\<close>

definition HW_CPU_CYCLES :: u64 where "HW_CPU_CYCLES = 0"
definition HW_INSTRUCTIONS :: u64 where "HW_INSTRUCTIONS = 1"
definition HW_STALLED_CYCLES_BACKEND :: u64 where "HW_STALLED_CYCLES_BACKEND = 8"

text \<open>The \<open>perf_event_attr\<close> that opens a counter, on a little-endian machine.\<close>

definition perf_attr :: "u64 \<Rightarrow> string" where
  "perf_attr config =
     replicate 4 (CHR 0x00) @ put_le (136 :: u32) @ put_le config @ replicate 24 (CHR 0x00)
     @ put_le (push_bit 6 1 :: u64) @ replicate 88 (CHR 0x00)"

text \<open>The kernel's answers: opening a counter on a CPU, and setting it in a map.\<close>

record perf_answers =
  pf_open :: "string \<Rightarrow> nat \<Rightarrow> string option"
  pf_set :: "string \<Rightarrow> nat \<Rightarrow> string option"

datatype counters_end = CountersDisabled | CountersFailed setup_error | CountersOpen "nat list"

definition set_perf_event_map :: "perf_answers \<Rightarrow> string \<Rightarrow> nat \<Rightarrow> setup_error + unit" where
  "set_perf_event_map pf map_name cpu =
     (case pf_set pf map_name cpu of None \<Rightarrow> Inr () | Some e \<Rightarrow> Inl (PerfMapNotSet e))"

definition counter_open :: "perf_answers \<Rightarrow> u64 \<Rightarrow> nat \<Rightarrow> bool" where
  "counter_open pf counter cpu \<longleftrightarrow> pf_open pf (perf_attr counter) cpu = None"

fun open_counters :: "perf_answers \<Rightarrow> nat list \<Rightarrow> nat list \<Rightarrow> counters_end" where
  "open_counters pf [] opened = CountersOpen opened"
| "open_counters pf (cpu # cpus) opened =
     (if \<not> counter_open pf HW_CPU_CYCLES cpu then
        (if cpu = 0 then CountersDisabled else open_counters pf cpus opened)
      else if \<not> counter_open pf HW_INSTRUCTIONS cpu then open_counters pf cpus opened
      else if \<not> counter_open pf HW_STALLED_CYCLES_BACKEND cpu then open_counters pf cpus opened
      else
        (case first_err [set_perf_event_map pf ''pmc_cycles'' cpu, set_perf_event_map pf ''pmc_instructions'' cpu,
               set_perf_event_map pf ''pmc_stalls'' cpu] of
           Inl e \<Rightarrow> CountersFailed e
         | Inr _ \<Rightarrow> open_counters pf cpus (opened @ [cpu])))"

definition pmc_body :: "perf_answers \<Rightarrow> ebpf_object \<Rightarrow> setup_end" where
  "pmc_body pf obj =
     (case eo_nr_cpus obj of
        Inl e \<Rightarrow> SetupFailed (CpusUnknown e)
      | Inr num_cpus \<Rightarrow>
          (case open_counters pf [0..<num_cpus] [] of
             CountersDisabled \<Rightarrow> SetupDisabled
           | CountersFailed e \<Rightarrow> SetupFailed e
           | CountersOpen _ \<Rightarrow>
               (case and_then (load_program obj ''sample_pmc'') (\<lambda>_.
                   first_err (map (\<lambda>cpu. attach_program obj ''sample_pmc'' (dec cpu)) [0..<num_cpus])) of
                  Inl e \<Rightarrow> SetupFailed e
                | Inr _ \<Rightarrow> open_ring obj)))"

definition pmc_setup where
  "pmc_setup accepts pf = observer_setup accepts ''node_pmc'' (pmc_body pf)"

section \<open>Running\<close>

text \<open>The sum over the CPUs of a kernel counter, wrapping; \<open>None\<close> when the lookup fails.\<close>

definition read_percpu_sum :: "u64 list option \<Rightarrow> u64" where
  "read_percpu_sum lookup = (case lookup of None \<Rightarrow> 0 | Some per_cpu \<Rightarrow> sum_list per_cpu)"

text \<open>
  A tick sees what has arrived in the ring buffer since the last one, and the lookups of the
  two loss counters (lost events, ambiguous I/O) in case it checks them. Its setting is what
  the observer follows while it runs: the thresholds for \<open>node_pmc\<close>, nothing for the others.
\<close>

record 'k tick_input =
  ti_setting :: 'k
  ti_arrived :: "string list"
  ti_lost :: "u64 list option"
  ti_ambiguous :: "u64 list option"

definition tick_readings :: "bool \<Rightarrow> 'k tick_input \<Rightarrow> (u64 \<times> u64) option" where
  "tick_readings has_metrics t =
     (if has_metrics then Some (read_percpu_sum (ti_lost t), read_percpu_sum (ti_ambiguous t)) else None)"

fun run_ticks ::
  "('k \<Rightarrow> ('e, 'a, 'c) observer_ops) \<Rightarrow> (nat \<Rightarrow> string \<times> int) \<Rightarrow> bool \<Rightarrow> 'k tick_input list
     \<Rightarrow> 'c drain_state \<times> string list \<Rightarrow> 'c drain_state \<times> string list" where
  "run_ticks ops fresh has_metrics [] (st, ring) = (st, ring)"
| "run_ticks ops fresh has_metrics (t # ts) (st, ring) =
     run_ticks ops fresh has_metrics ts
       (observer_tick (ops (ti_setting t)) fresh (tick_readings has_metrics t) (ring @ ti_arrived t) st)"

text \<open>
  The end of \<open>run\<close>. An error of \<open>send\<close> or \<open>flush\<close> is only logged, so they act on the sink's state
  \<open>'w\<close> alone; the state is the one that this observer sees.
\<close>

datatype ('c, 'w) run_end = RunFailed setup_error | RunDisabled | RunStopped "'c drain_state" "string list" 'w

definition observer_run ::
  "('k \<Rightarrow> ('e, 'a, 'c) observer_ops) \<Rightarrow> (nat \<Rightarrow> string \<times> int) \<Rightarrow> (occurrence \<Rightarrow> 'w \<Rightarrow> 'w) \<Rightarrow> ('w \<Rightarrow> 'w)
     \<Rightarrow> tapio_metrics \<Rightarrow> 'c \<Rightarrow> setup_end \<Rightarrow> 'k tick_input list \<Rightarrow> 'w \<Rightarrow> ('c, 'w) run_end" where
  "observer_run ops fresh send flush metrics cache ready ticks w =
     (case ready of
        SetupFailed e \<Rightarrow> RunFailed e
      | SetupDisabled \<Rightarrow> RunDisabled
      | SetupRunning has_metrics \<Rightarrow>
          (let (st, ring) = run_ticks ops fresh has_metrics ticks (drain_init metrics cache, [])
           in RunStopped st ring (flush (fold send (ds_sent st) w))))"

section \<open>Lemmas on the set-up\<close>

lemma perf_attr_layout:
  "length (perf_attr config) = 136" "(get_le 4 (perf_attr config) :: u32) = 136"
  "(get_le 8 (perf_attr config) :: u64) = config" "(get_le 40 (perf_attr config) :: u64) = 64"
  by (simp_all add: perf_attr_def)

lemma open_counters_open:
  "open_counters pf cpus opened = CountersOpen result \<Longrightarrow>
     result = opened @ filter (\<lambda>cpu. list_all (\<lambda>counter. counter_open pf counter cpu)
       [HW_CPU_CYCLES, HW_INSTRUCTIONS, HW_STALLED_CYCLES_BACKEND]) cpus"
  by (induction pf cpus opened rule: open_counters.induct) (auto split: if_splits sum.splits)

lemma open_counters_disabled:
  "open_counters pf cpus opened = CountersDisabled \<Longrightarrow> 0 \<in> set cpus \<and> \<not> counter_open pf HW_CPU_CYCLES 0"
  by (induction pf cpus opened rule: open_counters.induct) (auto split: if_splits sum.splits)

lemma observer_setup_registers:
  "case observer_setup accepts name body loaded config st of (ending, st') \<Rightarrow>
     (crs_carriers st' = crs_carriers st \<and> (\<exists>e. ending = SetupFailed e \<and> (e = NoCarrier \<or> (\<exists>m. e = ObjectNotLoaded m))))
     \<or> (\<exists>obj fd. loaded = Inr obj \<and> eo_config_map obj = Some fd \<and> accepts fd \<and> ending = body obj
          \<and> crs_carriers st' = crs_carriers st @ [\<lparr>cr_observer = name, cr_map_fd = fd\<rparr>])"
  by (auto simp: observer_setup_def init_and_register_tapio_config_def carrier_register_def bpf_map_update_def Let_def
      split: sum.splits option.splits)

section \<open>Lemmas on the run\<close>

lemma run_ticks_accounts:
  assumes "run_ticks ops fresh has_metrics ts (st, ring) = (st', ring')"
  shows "\<exists>parts. length parts = length ts \<and> list_all (\<lambda>part. length part \<le> 2048) parts
    \<and> ring @ concat (map ti_arrived ts) = concat parts @ ring'
    \<and> ds_event_count st' + ds_malformed_count st'
        = ds_event_count st + ds_malformed_count st + of_nat (length (concat parts))
    \<and> length (ds_sent st') = length (ds_sent st)
        + (\<Sum>(t, part)\<leftarrow>zip ts parts. length (anomalies_in (ops (ti_setting t)) part))"
  using assms
proof (induction ts arbitrary: st ring)
  case Nil
  then show ?case by simp
next
  case (Cons t ts)
  let ?tick = "observer_tick (ops (ti_setting t)) fresh (tick_readings has_metrics t) (ring @ ti_arrived t) st"
  obtain st1 ring1 where tick: "?tick = (st1, ring1)" by force
  define part where "part = take 2048 (ring @ ti_arrived t)"
  note one = tick_conserves_records [of "ops (ti_setting t)" fresh "tick_readings has_metrics t" "ring @ ti_arrived t" st,
      unfolded tick Let_def prod.case, folded part_def]
  have "run_ticks ops fresh has_metrics ts (st1, ring1) = (st', ring')" using Cons.prems tick by simp
  from Cons.IH [OF this] obtain parts where
    "length parts = length ts" "list_all (\<lambda>part. length part \<le> 2048) parts"
    "ring1 @ concat (map ti_arrived ts) = concat parts @ ring'"
    "ds_event_count st' + ds_malformed_count st'
       = ds_event_count st1 + ds_malformed_count st1 + of_nat (length (concat parts))"
    "length (ds_sent st') = length (ds_sent st1)
       + (\<Sum>(t, part)\<leftarrow>zip ts parts. length (anomalies_in (ops (ti_setting t)) part))"
    by blast
  with one show ?case
    by (intro exI [of _ "part # parts"]) (simp add: append_assoc [symmetric] del: append_assoc, simp)
qed

text \<open>A ring buffer that gets no more than 2048 records per tick is empty after each.\<close>

lemma run_ticks_no_backlog:
  "list_all (\<lambda>t. length (ti_arrived t) \<le> 2048) ts \<Longrightarrow> snd (run_ticks ops fresh has_metrics ts (st, [])) = []"
proof (induction ts arbitrary: st)
  case (Cons t ts)
  let ?tick = "observer_tick (ops (ti_setting t)) fresh (tick_readings has_metrics t) (ti_arrived t) st"
  have "snd ?tick = []"
    using Cons.prems unfolding observer_tick_def drain_tick_eq by (simp add: MAX_DRAIN_PER_TICK_def)
  then show ?case using Cons by (cases ?tick) auto
qed simp

text \<open>Whatever the settings are, an observer that keeps its contract sends evidence only.\<close>

lemma run_sends_evidence:
  assumes "\<And>k. observer (ops k) segment (generation k)" "list_all (evidence segment) (ds_sent st)"
  shows "list_all (evidence segment) (ds_sent (fst (run_ticks ops fresh has_metrics ts (st, ring))))"
  using assms(2)
proof (induction ts arbitrary: st ring)
  case (Cons t ts)
  let ?tick = "observer_tick (ops (ti_setting t)) fresh (tick_readings has_metrics t) (ring @ ti_arrived t) st"
  have "list_all (evidence segment) (ds_sent (fst ?tick))"
    by (rule observer.tick_sends_evidence [OF assms(1) Cons.prems])
  from Cons.IH [OF this, of "snd ?tick"] show ?case by simp
qed simp

section \<open>Properties\<close>


text \<open>
  An observer that gives up after it has registered its configuration map, because a
  program does not attach or there are no hardware counters, stays registered: every later
  configuration is written to its descriptor, into whatever map then has it, or reports
  the observer as failed.
\<close>

theorem stopped_observer_keeps_carrier:
  "case observer_setup accepts name body loaded config st of (ending, st') \<Rightarrow>
     (case ending of
        SetupRunning _ \<Rightarrow> True
      | SetupFailed NoCarrier \<Rightarrow> True
      | SetupFailed (ObjectNotLoaded _) \<Rightarrow> True
      | _ \<Rightarrow> (case loaded of
               Inl _ \<Rightarrow> False
             | Inr obj \<Rightarrow>
                 (case eo_config_map obj of
                    None \<Rightarrow> False
                  | Some fd \<Rightarrow>
                      (case carrier_update_all accepts' published st' of (failed, st'') \<Rightarrow>
                         if accepts' fd then crs_maps st'' fd = Some published else name \<in> set failed))))"
proof -
  obtain ending st' where started: "observer_setup accepts name body loaded config st = (ending, st')" by force
  have written: "if accepts' fd then crs_maps (snd (carrier_update_all accepts' published st')) fd = Some published
      else name \<in> set (fst (carrier_update_all accepts' published st'))"
    if "crs_carriers st' = crs_carriers st @ [\<lparr>cr_observer = name, cr_map_fd = fd\<rparr>]" for fd
    using that by (simp add: carrier_update_all_def write_all_maps)
  from observer_setup_registers [where accepts = accepts and name = name and body = body and loaded = loaded
      and config = config and st = st] started written show ?thesis
    by (auto simp: case_prod_unfold split: setup_end.splits setup_error.splits)
qed

end
