(* ===== verification/Network.thy ===== *)
theory Network
  imports Drain Ebpf
begin

text \<open>
  \<open>tapio-agent/src/observer/network.rs\<close>: classification of TCP events and the occurrence
  built from an anomaly. The drain loop is \<open>Drain\<close>; loading and attaching the kernel
  programs is not modelled.
\<close>

record net_anomaly =
  na_event_type :: string
  na_severity :: severity
  na_outcome :: outcome
  na_error_code :: string
  na_error_message :: string
  na_ebpf_event_type :: u8

text \<open>The arrow of the messages, in UTF-8.\<close>

definition ARROW :: string where "ARROW = [CHR 0xE2, CHR 0x86, CHR 0x92]"

definition port_str :: "u16 \<Rightarrow> string" where "port_str p = dec (unat p)"

definition endpoints :: "network_event \<Rightarrow> string" where
  "endpoints e = src_ip_str e @ '':'' @ port_str (ne_src_port e) @ '' '' @ ARROW @ '' ''
     @ dst_ip_str e @ '':'' @ port_str (ne_dst_port e)"

definition net_classify :: "network_event \<Rightarrow> net_anomaly option" where
  "net_classify e =
     (let et = ne_event_type e in
      if et = NET_EVENT_RST_RECEIVED then Some
        \<lparr>na_event_type = NETWORK_CONNECTION_REFUSED, na_severity = SevWarning, na_outcome = OutFailure,
         na_error_code = ''RST_RECEIVED'', na_error_message = ''TCP RST '' @ endpoints e,
         na_ebpf_event_type = et\<rparr>
      else if et = NET_EVENT_RETRANSMIT then Some
        \<lparr>na_event_type = NETWORK_RETRANSMIT_SPIKE, na_severity = SevWarning, na_outcome = OutFailure,
         na_error_code = ''RETRANSMIT'',
         na_error_message = ''TCP retransmit '' @ endpoints e @ '' (total='' @ dec (unat (ne_total_retrans e))
           @ '', cwnd='' @ dec (unat (ne_snd_cwnd e)) @ '')'',
         na_ebpf_event_type = et\<rparr>
      else if et = NET_EVENT_RTT_SPIKE then Some
        \<lparr>na_event_type = NETWORK_RTT_DEGRADATION, na_severity = SevWarning, na_outcome = OutInProgress,
         na_error_code = ''RTT_SPIKE'',
         na_error_message = ''RTT spike '' @ endpoints e @ '' (baseline='' @ dec (unat (ne_rtt_baseline_ms e))
           @ ''ms, current='' @ dec (unat (ne_rtt_current_ms e)) @ ''ms)'',
         na_ebpf_event_type = et\<rparr>
      else if et = NET_EVENT_STATE_CHANGE then
        (if ne_old_state e = TCP_SYN_SENT \<and> ne_new_state e = TCP_CLOSE then Some
          \<lparr>na_event_type = NETWORK_CONNECTION_TIMEOUT, na_severity = SevError, na_outcome = OutFailure,
           na_error_code = ''SYN_TIMEOUT'',
           na_error_message = ''Connection timeout to '' @ dst_ip_str e @ '':'' @ port_str (ne_dst_port e)
             @ '' (SYN_SENT'' @ ARROW @ ''CLOSE)'',
           na_ebpf_event_type = et\<rparr>
         else None)
      else None)"

definition tcp_state_name :: "u16 \<Rightarrow> string" where
  "tcp_state_name s =
     (if s = TCP_ESTABLISHED then ''ESTABLISHED''
      else if s = TCP_SYN_SENT then ''SYN_SENT''
      else if s = TCP_SYN_RECV then ''SYN_RECV''
      else if s = TCP_FIN_WAIT1 then ''FIN_WAIT1''
      else if s = TCP_FIN_WAIT2 then ''FIN_WAIT2''
      else if s = TCP_TIME_WAIT then ''TIME_WAIT''
      else if s = TCP_CLOSE then ''CLOSE''
      else if s = TCP_CLOSE_WAIT then ''CLOSE_WAIT''
      else if s = TCP_LAST_ACK then ''LAST_ACK''
      else if s = TCP_LISTEN then ''LISTEN''
      else ''UNKNOWN'')"

definition net_facts :: "network_event \<Rightarrow> json" where
  "net_facts e = json_object
     [(''pid'', json_u32 (ne_pid e)), (''config_generation'', json_u32 (ne_config_generation e)),
      (''comm'', JStr (ne_comm_str e)), (''src_ip'', JStr (src_ip_str e)), (''dst_ip'', JStr (dst_ip_str e)),
      (''src_port'', json_u16 (ne_src_port e)), (''dst_port'', json_u16 (ne_dst_port e)),
      (''family'', JStr (if is_ipv6 e then ''ipv6'' else ''ipv4'')), (''protocol'', JStr ''tcp'')]"

definition net_build_occurrence :: "string \<times> int \<Rightarrow> network_event \<Rightarrow> net_anomaly \<Rightarrow> occurrence" where
  "net_build_occurrence fresh e anomaly =
     (let et = na_ebpf_event_type anomaly;
          data = (if et = NET_EVENT_STATE_CHANGE then
                    json_insert ''new_state'' (JStr (tcp_state_name (ne_new_state e)))
                      (json_insert ''old_state'' (JStr (tcp_state_name (ne_old_state e))) (net_facts e))
                  else if et = NET_EVENT_RST_RECEIVED then net_facts e
                  else if et = NET_EVENT_RETRANSMIT then
                    json_insert ''snd_cwnd'' (json_u16 (ne_snd_cwnd e))
                      (json_insert ''total_retrans'' (json_u16 (ne_total_retrans e)) (net_facts e))
                  else if et = NET_EVENT_RTT_SPIKE then
                    json_insert ''current_ms'' (json_u16 (ne_rtt_current_ms e))
                      (json_insert ''baseline_ms'' (json_u16 (ne_rtt_baseline_ms e)) (net_facts e))
                  else net_facts e)
      in with_data data (with_error (na_error_code anomaly) (na_error_message anomaly)
           (occurrence_new (fst fresh) (snd fresh) (na_event_type anomaly) (na_severity anomaly)
              (na_outcome anomaly))))"

definition network_ops :: "(network_event, net_anomaly, unit) observer_ops" where
  "network_ops =
     \<lparr>ob_name = ''network'', ob_read = net_abi.read_struct, ob_classify = net_classify,
      ob_type = na_event_type, ob_build = (\<lambda>c fresh e a. (net_build_occurrence fresh e a, c)),
      ob_ambiguous = False\<rparr>"

section \<open>The observer meets its contract\<close>

lemma net_classify_type:
  "net_classify e = Some a \<Longrightarrow>
     na_event_type a \<in> set [NETWORK_CONNECTION_REFUSED, NETWORK_RETRANSMIT_SPIKE, NETWORK_RTT_DEGRADATION,
       NETWORK_CONNECTION_TIMEOUT]"
  by (auto simp: net_classify_def Let_def split: if_splits)

lemma network_kernel_types:
  "t \<in> set [NETWORK_CONNECTION_REFUSED, NETWORK_RETRANSMIT_SPIKE, NETWORK_RTT_DEGRADATION,
     NETWORK_CONNECTION_TIMEOUT] \<Longrightarrow> kernel_type ''network'' t"
  using event_types_three_segments by (auto simp: kernel_type_def starts_with_def event_types)

definition net_extra :: "network_event \<Rightarrow> net_anomaly \<Rightarrow> (string \<times> json) list" where
  "net_extra e a =
     (let et = na_ebpf_event_type a in
      if et = NET_EVENT_STATE_CHANGE then
        [(''old_state'', JStr (tcp_state_name (ne_old_state e))), (''new_state'', JStr (tcp_state_name (ne_new_state e)))]
      else if et = NET_EVENT_RST_RECEIVED then []
      else if et = NET_EVENT_RETRANSMIT then
        [(''total_retrans'', json_u16 (ne_total_retrans e)), (''snd_cwnd'', json_u16 (ne_snd_cwnd e))]
      else if et = NET_EVENT_RTT_SPIKE then
        [(''baseline_ms'', json_u16 (ne_rtt_baseline_ms e)), (''current_ms'', json_u16 (ne_rtt_current_ms e))]
      else [])"

lemma net_build_data:
  "occ_data (net_build_occurrence f e a) = Some (json_object
     ([(''pid'', json_u32 (ne_pid e)), (''config_generation'', json_u32 (ne_config_generation e)),
      (''comm'', JStr (ne_comm_str e)), (''src_ip'', JStr (src_ip_str e)), (''dst_ip'', JStr (dst_ip_str e)),
      (''src_port'', json_u16 (ne_src_port e)), (''dst_port'', json_u16 (ne_dst_port e)),
      (''family'', JStr (if is_ipv6 e then ''ipv6'' else ''ipv4'')), (''protocol'', JStr ''tcp'')]
      @ net_extra e a))"
  by (simp add: net_build_occurrence_def net_facts_def builder_defs Let_def json_insert_object net_extra_def)

lemma net_extra_clean:
  "list_all (\<lambda>(k, v). \<not> is_reasoning_key k \<and> \<not> is_object v \<and> k \<noteq> ''config_generation'') (net_extra e a)"
  by (simp add: net_extra_def Let_def is_reasoning_key_def)

interpretation network: observer network_ops "''network''" ne_config_generation
proof
  fix e a c f
  assume cl: "ob_classify network_ops e = Some a"
  then have kt: "kernel_type ''network'' (na_event_type a)"
    using network_kernel_types [OF net_classify_type] by (simp add: network_ops_def)
  let ?occ = "net_build_occurrence f e a"
  have clean: "reject_reasoning_fields ''$'' (the (occ_data ?occ)) = Inr ()"
    unfolding net_build_data option.sel
    by (rule json_object_clean) (use net_extra_clean [of e a] in \<open>auto simp: is_reasoning_key_def list_all_iff\<close>)
  show "evidence ''network'' (fst (ob_build network_ops c f e a))"
    using kt clean net_build_data [of f e a]
    by (simp add: evidence_def network_ops_def) (simp add: net_build_occurrence_def builder_defs Let_def)
  show "occ_type (fst (ob_build network_ops c f e a)) = ob_type network_ops a"
    by (simp add: network_ops_def net_build_occurrence_def builder_defs Let_def)
  have "map_of (rev (net_extra e a)) ''config_generation'' = None"
    using net_extra_clean [of e a] by (auto simp: map_of_eq_None_iff list_all_iff)
  then show "generation_of (fst (ob_build network_ops c f e a)) = Some (json_u32 (ne_config_generation e))"
    by (simp add: network_ops_def generation_of_def net_build_data json_get_object map_add_def)
qed

end
