(* ===== verification/Storage.thy ===== *)
theory Storage
  imports Drain Ebpf
begin

text \<open>
  \<open>tapio-agent/src/observer/storage.rs\<close>: classification of block I/O events and the
  occurrence built from an anomaly. The kernel program sends anomalies only.
\<close>

record sto_anomaly =
  sa_event_type :: string
  sa_severity :: severity
  sa_outcome :: outcome
  sa_error_code :: string
  sa_error_message :: string

definition op_name :: "u8 \<Rightarrow> string" where
  "op_name opcode =
     (if opcode = OP_READ then ''read'' else if opcode = OP_WRITE then ''write'' else ''unknown'')"

definition device :: "storage_event \<Rightarrow> string" where
  "device e = dec (unat (se_dev_major e)) @ '':'' @ dec (unat (se_dev_minor e))"

definition sto_classify :: "storage_event \<Rightarrow> sto_anomaly option" where
  "sto_classify e =
     (if has_error e then Some
        \<lparr>sa_event_type = STORAGE_IO_ERROR, sa_severity = SevCritical, sa_outcome = OutFailure,
         sa_error_code = ''IO_ERROR'',
         sa_error_message = ''I/O error on '' @ device e @ '' (error='' @ dec_int (sint (se_error_code e))
           @ '', '' @ op_name (se_opcode e) @ '')''\<rparr>
      else Some
        \<lparr>sa_event_type = STORAGE_LATENCY_SPIKE,
         sa_severity = (if se_severity e = STORAGE_SEVERITY_CRITICAL then SevCritical else SevWarning),
         sa_outcome = OutInProgress, sa_error_code = ''LATENCY_SPIKE'',
         sa_error_message = ''I/O latency '' @ fmt_fixed 1 (latency_ms e) @ ''ms on '' @ device e @ '' (''
           @ op_name (se_opcode e) @ '')''\<rparr>)"

definition sto_facts :: "storage_event \<Rightarrow> (string \<times> json) list" where
  "sto_facts e =
     [(''config_generation'', json_u32 (se_config_generation e)), (''pid'', json_u32 (se_pid e)),
      (''comm'', JStr (se_comm_str e)), (''dev_major'', json_u32 (se_dev_major e)),
      (''dev_minor'', json_u32 (se_dev_minor e)), (''sector'', JPos (se_sector e)),
      (''bytes'', json_u32 (se_bytes e)), (''latency_ms'', json_f64 (latency_ms e)),
      (''opcode'', JStr (op_name (se_opcode e))), (''error_code'', json_i32 (se_error_code e)),
      (''cgroup_id'', JPos (se_cgroup_id e)), (''timestamp_ns'', JPos (se_timestamp_ns e))]"

definition sto_build_occurrence ::
  "u64 \<Rightarrow> string \<Rightarrow> storage_event \<Rightarrow> sto_anomaly \<Rightarrow> occurrence" where
  "sto_build_occurrence boot_offset_ns ulid e anomaly =
     with_data (json_object (sto_facts e))
       (with_error (sa_error_code anomaly) (sa_error_message anomaly)
         (occurrence_new_at ulid (sa_event_type anomaly) (sa_severity anomaly) (sa_outcome anomaly)
           (boot_offset_ns + se_timestamp_ns e)))"

definition storage_ops :: "u64 \<Rightarrow> (storage_event, sto_anomaly, unit) observer_ops" where
  "storage_ops boot_offset_ns =
     \<lparr>ob_name = ''storage'', ob_read = sto_abi.read_struct, ob_classify = sto_classify,
      ob_type = sa_event_type,
      ob_build = (\<lambda>c fresh e a. (sto_build_occurrence boot_offset_ns (fst fresh) e a, c)),
      ob_ambiguous = True\<rparr>"

section \<open>The observer meets its contract\<close>

lemma sto_classify_type:
  "sto_classify e = Some a \<Longrightarrow> sa_event_type a \<in> set [STORAGE_IO_ERROR, STORAGE_LATENCY_SPIKE]"
  by (auto simp: sto_classify_def split: if_splits)

lemma storage_kernel_types:
  "t \<in> set [STORAGE_IO_ERROR, STORAGE_LATENCY_SPIKE] \<Longrightarrow> kernel_type ''storage'' t"
  using event_types_three_segments by (auto simp: kernel_type_def starts_with_def event_types)

lemma sto_facts_clean: "list_all (\<lambda>(k, v). \<not> is_reasoning_key k \<and> \<not> is_object v) (sto_facts e)"
  by (simp add: sto_facts_def is_reasoning_key_def)

interpretation storage: observer "storage_ops boot" "''storage''" se_config_generation for boot
proof
  fix e a c f
  assume cl: "ob_classify (storage_ops boot) e = Some a"
  then have kt: "kernel_type ''storage'' (sa_event_type a)"
    using storage_kernel_types [OF sto_classify_type] by (simp add: storage_ops_def)
  show "evidence ''storage'' (fst (ob_build (storage_ops boot) c f e a))"
    using kt json_object_clean [OF sto_facts_clean]
    by (simp add: evidence_def storage_ops_def sto_build_occurrence_def builder_defs)
  show "occ_type (fst (ob_build (storage_ops boot) c f e a)) = ob_type (storage_ops boot) a"
    by (simp add: storage_ops_def sto_build_occurrence_def builder_defs)
  show "generation_of (fst (ob_build (storage_ops boot) c f e a)) = Some (json_u32 (se_config_generation e))"
    by (simp add: storage_ops_def generation_of_def sto_build_occurrence_def builder_defs
        json_get_object sto_facts_def)
qed

end
