(* ===== verification/NodePmc.thy ===== *)
theory NodePmc
  imports Drain AgentConfig
begin

text \<open>
  \<open>tapio-agent/src/observer/node_pmc.rs\<close>: classification of hardware counter samples against
  the current thresholds and the occurrence built from an anomaly. Opening the hardware
  counters is not modelled; the thresholds are the ones current when the tick runs.
\<close>

record pmc_anomaly =
  pa_event_type :: string
  pa_severity :: severity
  pa_outcome :: outcome
  pa_error_code :: string
  pa_error_message :: string

definition pmc_classify :: "pmc_event \<Rightarrow> pmc_thresholds \<Rightarrow> pmc_anomaly option" where
  "pmc_classify e t =
     (let cpu = dec (unat (pe_cpu e));
          ipc_text = fmt_fixed 2 (ipc e);
          stall_text = fmt_fixed 1 (stall_pct e) @ ''%''
      in if pt_stall_pct_critical t \<le> stall_pct e then Some
        \<lparr>pa_event_type = NODE_CPU_STALL, pa_severity = SevCritical, pa_outcome = OutInProgress,
         pa_error_code = ''CPU_STALL'',
         pa_error_message = ''CPU '' @ cpu @ '' stall '' @ stall_text @ '' (ipc='' @ ipc_text @ '')''\<rparr>
      else if pt_stall_pct_warning t \<le> stall_pct e then Some
        \<lparr>pa_event_type = NODE_MEMORY_PRESSURE, pa_severity = SevWarning, pa_outcome = OutInProgress,
         pa_error_code = ''MEMORY_PRESSURE'',
         pa_error_message = ''CPU '' @ cpu @ '' memory pressure stall '' @ stall_text @ '' (ipc='' @ ipc_text @ '')''\<rparr>
      else if ipc e < pt_ipc_degradation t \<and> pe_cycles e > 0 then Some
        \<lparr>pa_event_type = NODE_IPC_DEGRADATION, pa_severity = SevWarning, pa_outcome = OutInProgress,
         pa_error_code = ''IPC_DEGRADATION'',
         pa_error_message = ''CPU '' @ cpu @ '' low IPC '' @ ipc_text @ '' (stall '' @ stall_text @ '')''\<rparr>
      else None)"

definition pmc_facts :: "pmc_event \<Rightarrow> (string \<times> json) list" where
  "pmc_facts e =
     [(''cpu'', json_u32 (pe_cpu e)), (''config_generation'', json_u32 (pe_config_generation e)),
      (''cycles'', JPos (pe_cycles e)), (''instructions'', JPos (pe_instructions e)),
      (''stall_cycles'', JPos (pe_stall_cycles e)), (''ipc'', json_f64 (ipc e)),
      (''stall_pct'', json_f64 (stall_pct e)), (''timestamp_ns'', JPos (pe_timestamp e))]"

definition pmc_build_occurrence :: "u64 \<Rightarrow> string \<Rightarrow> pmc_event \<Rightarrow> pmc_anomaly \<Rightarrow> occurrence" where
  "pmc_build_occurrence boot_offset_ns ulid e anomaly =
     with_data (json_object (pmc_facts e))
       (with_error (pa_error_code anomaly) (pa_error_message anomaly)
         (occurrence_new_at ulid (pa_event_type anomaly) (pa_severity anomaly) (pa_outcome anomaly)
           (boot_offset_ns + pe_timestamp e)))"

definition pmc_ops :: "u64 \<Rightarrow> pmc_thresholds \<Rightarrow> (pmc_event, pmc_anomaly, unit) observer_ops" where
  "pmc_ops boot_offset_ns thresholds =
     \<lparr>ob_name = ''node_pmc'', ob_read = pmc_abi.read_struct,
      ob_classify = (\<lambda>e. pmc_classify e thresholds), ob_type = pa_event_type,
      ob_build = (\<lambda>c fresh e a. (pmc_build_occurrence boot_offset_ns (fst fresh) e a, c)),
      ob_ambiguous = False\<rparr>"

section \<open>The observer meets its contract\<close>

lemma pmc_classify_type:
  "pmc_classify e t = Some a \<Longrightarrow>
     pa_event_type a \<in> set [NODE_CPU_STALL, NODE_MEMORY_PRESSURE, NODE_IPC_DEGRADATION]"
  by (auto simp: pmc_classify_def Let_def split: if_splits)

lemma node_kernel_types:
  "t \<in> set [NODE_CPU_STALL, NODE_MEMORY_PRESSURE, NODE_IPC_DEGRADATION] \<Longrightarrow> kernel_type ''node'' t"
  using event_types_three_segments by (auto simp: kernel_type_def starts_with_def event_types)

lemma pmc_facts_clean: "list_all (\<lambda>(k, v). \<not> is_reasoning_key k \<and> \<not> is_object v) (pmc_facts e)"
  by (simp add: pmc_facts_def is_reasoning_key_def)

interpretation node_pmc: observer "pmc_ops boot thr" "''node''" pe_config_generation for boot thr
proof
  fix e a c f
  assume cl: "ob_classify (pmc_ops boot thr) e = Some a"
  then have kt: "kernel_type ''node'' (pa_event_type a)"
    using node_kernel_types [OF pmc_classify_type] by (simp add: pmc_ops_def)
  show "evidence ''node'' (fst (ob_build (pmc_ops boot thr) c f e a))"
    using kt json_object_clean [OF pmc_facts_clean]
    by (simp add: evidence_def pmc_ops_def pmc_build_occurrence_def builder_defs)
  show "occ_type (fst (ob_build (pmc_ops boot thr) c f e a)) = ob_type (pmc_ops boot thr) a"
    by (simp add: pmc_ops_def pmc_build_occurrence_def builder_defs)
  show "generation_of (fst (ob_build (pmc_ops boot thr) c f e a)) = Some (json_u32 (pe_config_generation e))"
    by (simp add: pmc_ops_def generation_of_def pmc_build_occurrence_def builder_defs
        json_get_object pmc_facts_def)
qed

text \<open>A stall threshold of zero makes every sample an anomaly, even one without cycles.\<close>

lemma stall_pct_nonneg: "nonneg (stall_pct e)"
proof (cases "pe_cycles e = 0")
  case True
  then show ?thesis by (simp add: stall_pct_def nonneg_def)
next
  case False
  then have "nonneg (fmul (fdiv (f64_of_u64 (pe_stall_cycles e)) (f64_of_u64 (pe_cycles e))) (Fin 100))"
    by (intro nonneg_mult nonneg_ratio) simp_all
  with False show ?thesis by (simp add: stall_pct_def)
qed

section \<open>Properties\<close>

text \<open>
  With a critical stall threshold of zero per cent, which an Evidence Profile may set, every
  sample of every CPU is a critical CPU-stall anomaly, idle CPUs without a cycle included.
\<close>

theorem zero_threshold_fires_always:
  assumes "pt_stall_pct_critical t = Fin 0"
  shows "map_option (\<lambda>a. (pa_event_type a, pa_severity a)) (pmc_classify e t)
    = Some (NODE_CPU_STALL, SevCritical)"
  using stall_pct_nonneg [of e] assms by (simp add: pmc_classify_def nonneg_def)

definition idle_sample :: pmc_event where
  "idle_sample = \<lparr>pe_config_generation = 1, pe_cpu = 0, pe_cycles = 0, pe_instructions = 0,
     pe_stall_cycles = 0, pe_timestamp = 0\<rparr>"

lemma zero_threshold_fires_always_witness:
  "pmc_classify idle_sample \<lparr>pt_stall_pct_warning = Fin 0, pt_stall_pct_critical = Fin 0,
     pt_ipc_degradation = Fin 0\<rparr> \<noteq> None"
  using zero_threshold_fires_always
    [of "\<lparr>pt_stall_pct_warning = Fin 0, pt_stall_pct_critical = Fin 0, pt_ipc_degradation = Fin 0\<rparr>" idle_sample]
  by auto

end
