(* ===== verification/Container.thy ===== *)
theory Container
  imports Drain Ebpf "HOL-Library.AList"
begin

text \<open>
  \<open>tapio-agent/src/observer/container.rs\<close>: classification of OOM and exit events, the
  occurrence built from an anomaly, and the cached lookup of a cgroup's memory limit in
  the file system. Reading a file and the iteration order of the cache (a \<open>HashMap\<close>) are
  parameters.
\<close>

record con_anomaly =
  coa_event_type :: string
  coa_severity :: severity
  coa_outcome :: outcome
  coa_error_code :: string
  coa_error_message :: string

definition con_classify :: "container_event \<Rightarrow> con_anomaly option" where
  "con_classify f =
     (if ce_event_type f = CONTAINER_EVENT_OOM then Some
        \<lparr>coa_event_type = CONTAINER_OOM_KILL, coa_severity = SevCritical, coa_outcome = OutFailure,
         coa_error_code = ''OOM_KILL'',
         coa_error_message = ''OOM kill pid='' @ dec (unat (ce_pid f)) @ '' (usage=''
           @ dec (unat (ce_memory_usage f) div 1024 div 1024) @ ''MB, limit=''
           @ dec (unat (ce_memory_limit f) div 1024 div 1024) @ ''MB)''\<rparr>
      else if ce_event_type f = CONTAINER_EVENT_EXIT then
        (if ce_exit_code f = 0 \<and> ce_signal f = 0 then None
         else Some
           \<lparr>coa_event_type = CONTAINER_ABNORMAL_EXIT,
            coa_severity = (if ce_signal f \<noteq> 0 then SevError else SevWarning),
            coa_outcome = OutFailure, coa_error_code = ''ABNORMAL_EXIT'',
            coa_error_message = ''Abnormal exit pid='' @ dec (unat (ce_pid f)) @ '' (code=''
              @ dec_int (sint (ce_exit_code f)) @ '', signal='' @ dec_int (sint (ce_signal f)) @ '')''\<rparr>)
      else None)"

section \<open>Memory limits of cgroups\<close>

definition U64_MAX :: u64 where "U64_MAX = - 1"

definition read_limit_file :: "(string \<Rightarrow> string option) \<Rightarrow> string \<Rightarrow> u64 option" where
  "read_limit_file read path =
     (case read path of
        None \<Rightarrow> None
      | Some content \<Rightarrow>
          (let trimmed = trim content in
           if trimmed = ''max'' then Some U64_MAX
           else (case parse_uint (2 ^ 64) trimmed of
                   None \<Rightarrow> None
                 | Some val \<Rightarrow> if val \<ge> 2 ^ 62 then Some U64_MAX else Some (word_of_nat val))))"

definition or_else :: "'a option \<Rightarrow> 'a option \<Rightarrow> 'a option" where
  "or_else a b = (case a of None \<Rightarrow> b | Some _ \<Rightarrow> a)"

text \<open>One line of \<open>/proc/<pid>/cgroup\<close>, split at its first two colons.\<close>

definition limit_of_line :: "(string \<Rightarrow> string option) \<Rightarrow> string \<Rightarrow> u64 option" where
  "limit_of_line read line =
     (case split_once (CHR '':'') line of
        None \<Rightarrow> None
      | Some (hierarchy, rest) \<Rightarrow>
     (case split_once (CHR '':'') rest of
        None \<Rightarrow> None
      | Some (controller, path) \<Rightarrow>
          or_else
            (if hierarchy = ''0'' \<and> controller = [] \<and> path \<noteq> []
             then read_limit_file read (''/sys/fs/cgroup'' @ path @ ''/memory.max'') else None)
            (if contains_sub controller ''memory'' \<and> path \<noteq> []
             then read_limit_file read (''/sys/fs/cgroup/memory'' @ path @ ''/memory.limit_in_bytes'')
             else None)))"

fun first_limit :: "(string \<Rightarrow> string option) \<Rightarrow> string list \<Rightarrow> u64 option" where
  "first_limit read [] = None"
| "first_limit read (line # lines) = or_else (limit_of_line read line) (first_limit read lines)"

definition resolve_via_proc :: "(string \<Rightarrow> string option) \<Rightarrow> u32 \<Rightarrow> u64 option" where
  "resolve_via_proc read pid =
     (case read (''/proc/'' @ dec (unat pid) @ ''/cgroup'') of
        None \<Rightarrow> None
      | Some content \<Rightarrow> first_limit read (str_lines content))"

text \<open>
  The cache, as the list of its entries. \<open>keys\<close> is the order in which the hash map would
  iterate over it.
\<close>

type_synonym limit_cache = "(u64 \<times> u64) list"

definition evict :: "(limit_cache \<Rightarrow> u64 list) \<Rightarrow> limit_cache \<Rightarrow> limit_cache" where
  "evict keys cache =
     (if length cache > 10000
      then (let dead = take (length cache div 5) (keys cache)
            in filter (\<lambda>(k, _). k \<notin> set dead) cache)
      else cache)"

definition enrich_memory_limit ::
  "(string \<Rightarrow> string option) \<Rightarrow> (limit_cache \<Rightarrow> u64 list) \<Rightarrow> limit_cache \<Rightarrow> u64 \<Rightarrow> u32
     \<Rightarrow> u64 option \<times> limit_cache" where
  "enrich_memory_limit read keys cache cgroup_id pid =
     (if cgroup_id = 0 then (None, cache)
      else case map_of cache cgroup_id of
        Some limit \<Rightarrow> (Some limit, cache)
      | None \<Rightarrow>
          (let limit = unwrap_or (or_else (resolve_via_proc read pid) (resolve_via_proc read 1)) 0
           in (if limit > 0 then Some limit else None,
               AList.update cgroup_id limit (evict keys cache))))"

section \<open>Occurrences\<close>

definition con_facts :: "u64 \<Rightarrow> container_event \<Rightarrow> (string \<times> json) list" where
  "con_facts memory_limit f =
     [(''pid'', json_u32 (ce_pid f)), (''config_generation'', json_u32 (ce_config_generation f)),
      (''tid'', json_u32 (ce_tid f)), (''exit_code'', json_i32 (ce_exit_code f)),
      (''signal'', json_i32 (ce_signal f)), (''memory_usage_bytes'', JPos (ce_memory_usage f)),
      (''memory_limit_bytes'', JPos memory_limit), (''cgroup_id'', JPos (ce_cgroup_id f)),
      (''timestamp_ns'', JPos (ce_timestamp_ns f))]"

definition con_build_occurrence ::
  "(string \<Rightarrow> string option) \<Rightarrow> (limit_cache \<Rightarrow> u64 list) \<Rightarrow> u64 \<Rightarrow> limit_cache \<Rightarrow> string
     \<Rightarrow> container_event \<Rightarrow> con_anomaly \<Rightarrow> occurrence \<times> limit_cache" where
  "con_build_occurrence read keys boot_offset_ns cache ulid f anomaly =
     (let (memory_limit, cache') =
            (if ce_memory_limit f = 0
             then (let (l, c) = enrich_memory_limit read keys cache (ce_cgroup_id f) (ce_pid f)
                   in (unwrap_or l 0, c))
             else (ce_memory_limit f, cache))
      in (with_data (json_object (con_facts memory_limit f))
            (with_error (coa_error_code anomaly) (coa_error_message anomaly)
              (occurrence_new_at ulid (coa_event_type anomaly) (coa_severity anomaly)
                (coa_outcome anomaly) (boot_offset_ns + ce_timestamp_ns f))),
          cache'))"

definition container_ops ::
  "(string \<Rightarrow> string option) \<Rightarrow> (limit_cache \<Rightarrow> u64 list) \<Rightarrow> u64
     \<Rightarrow> (container_event, con_anomaly, limit_cache) observer_ops" where
  "container_ops read keys boot_offset_ns =
     \<lparr>ob_name = ''container'', ob_read = con_abi.read_struct, ob_classify = con_classify,
      ob_type = coa_event_type,
      ob_build = (\<lambda>c fresh e a. con_build_occurrence read keys boot_offset_ns c (fst fresh) e a),
      ob_ambiguous = False\<rparr>"

section \<open>The observer meets its contract\<close>

lemma con_classify_type:
  "con_classify e = Some a \<Longrightarrow> coa_event_type a \<in> set [CONTAINER_OOM_KILL, CONTAINER_ABNORMAL_EXIT]"
  by (auto simp: con_classify_def split: if_splits)

lemma container_kernel_types:
  "t \<in> set [CONTAINER_OOM_KILL, CONTAINER_ABNORMAL_EXIT] \<Longrightarrow> kernel_type ''container'' t"
  using event_types_three_segments by (auto simp: kernel_type_def starts_with_def event_types)

lemma con_facts_clean: "list_all (\<lambda>(k, v). \<not> is_reasoning_key k \<and> \<not> is_object v) (con_facts l e)"
  by (simp add: con_facts_def is_reasoning_key_def)

interpretation container: observer "container_ops read keys boot" "''container''" ce_config_generation
  for read keys boot
proof
  fix e a c f
  assume cl: "ob_classify (container_ops read keys boot) e = Some a"
  then have kt: "kernel_type ''container'' (coa_event_type a)"
    using container_kernel_types [OF con_classify_type] by (simp add: container_ops_def)
  show "evidence ''container'' (fst (ob_build (container_ops read keys boot) c f e a))"
    using kt json_object_clean [OF con_facts_clean]
    by (simp add: evidence_def container_ops_def con_build_occurrence_def builder_defs split_def Let_def)
  show "occ_type (fst (ob_build (container_ops read keys boot) c f e a))
      = ob_type (container_ops read keys boot) a"
    by (simp add: container_ops_def con_build_occurrence_def builder_defs split_def Let_def)
  show "generation_of (fst (ob_build (container_ops read keys boot) c f e a))
      = Some (json_u32 (ce_config_generation e))"
    by (simp add: container_ops_def generation_of_def con_build_occurrence_def builder_defs
        json_get_object con_facts_def split_def Let_def)
qed

section \<open>The cache\<close>

lemma update_length: "length (AList.update k v xs) \<le> Suc (length xs)"
  by (induction xs) auto

lemma evict_length:
  assumes "length cache \<le> 10001" "\<And>c. set (keys c) = set (map fst c)"
  shows "length (evict keys cache) \<le> 10000"
proof (cases "length cache > 10000")
  case True
  then have ne: "cache \<noteq> []" by auto
  obtain k ks where kk: "keys cache = k # ks"
    using assms(2) [of cache] ne by (cases "keys cache") auto
  have "0 < length cache div 5" using True by simp
  then obtain n where "length cache div 5 = Suc n" by (cases "length cache div 5") auto
  with kk have dead: "k \<in> set (take (length cache div 5) (keys cache))" by simp
  have "k \<in> fst ` set cache" using assms(2) [of cache] kk by auto
  then obtain v where "(k, v) \<in> set cache" by auto
  with dead have "length (evict keys cache) < length cache"
    unfolding evict_def Let_def if_P [OF True] by (intro length_filter_less [of "(k, v)"]) auto
  with assms(1) show ?thesis by simp
qed (simp add: evict_def)

lemma evict_distinct: "distinct (map fst cache) \<Longrightarrow> distinct (map fst (evict keys cache))"
  by (simp add: evict_def Let_def distinct_map_filter)

definition oom_event :: container_event where
  "oom_event = \<lparr>ce_config_generation = 1, ce_memory_limit = 0, ce_memory_usage = 5, ce_timestamp_ns = 0,
     ce_cgroup_id = 0, ce_event_type = 0, ce_pid = 42, ce_tid = 42, ce_exit_code = 0, ce_signal = 0\<rparr>"

section \<open>Properties\<close>

text \<open>
  The limit cache never holds more than 10001 cgroups, keeps one entry per cgroup, and after a
  lookup of a cgroup answers the next lookup of it with the same limit and no file access.
\<close>

theorem limit_cache_bounded:
  assumes "length cache \<le> 10001" "distinct (map fst cache)" "cgroup \<noteq> 0"
    and "\<And>c. set (keys c) = set (map fst c)"
    and "enrich_memory_limit read keys cache cgroup pid = (limit, cache')"
  shows "length cache' \<le> 10001 \<and> distinct (map fst cache')
    \<and> unwrap_or (fst (enrich_memory_limit read' keys cache' cgroup pid')) 0 = unwrap_or limit 0
    \<and> snd (enrich_memory_limit read' keys cache' cgroup pid') = cache'"
proof (cases "map_of cache cgroup")
  case (Some l)
  with assms have "limit = Some l" "cache' = cache" by (auto simp: enrich_memory_limit_def)
  with Some assms show ?thesis by (simp add: enrich_memory_limit_def)
next
  case None
  define l where "l = unwrap_or (or_else (resolve_via_proc read pid) (resolve_via_proc read 1)) 0"
  have c: "cache' = AList.update cgroup l (evict keys cache)" "limit = (if l > 0 then Some l else None)"
    using assms(3,5) None by (auto simp: enrich_memory_limit_def l_def Let_def)
  have len: "length (evict keys cache) \<le> 10000" by (rule evict_length [OF assms(1,4)])
  have d: "distinct (map fst (evict keys cache))" by (rule evict_distinct [OF assms(2)])
  have "length cache' \<le> 10001"
    using len update_length [of cgroup l "evict keys cache"] by (simp add: c)
  moreover have "distinct (map fst cache')" unfolding c by (rule distinct_update [OF d])
  moreover have "map_of cache' cgroup = Some l" by (simp add: c update_conv')
  ultimately show ?thesis
    using c(2) assms(3) by (simp add: enrich_memory_limit_def word_gt_0 split: if_splits)
qed

lemma limit_cache_bounded_witness:
  "length (snd (enrich_memory_limit (\<lambda>_. None) (map fst) [] 7 1)) \<le> 10001"
  using limit_cache_bounded [of "[]" 7 "map fst" "\<lambda>_. None" 1
      "fst (enrich_memory_limit (\<lambda>_. None) (map fst) [] 7 1)"
      "snd (enrich_memory_limit (\<lambda>_. None) (map fst) [] 7 1)"]
  by simp

text \<open>
  An OOM event whose cgroup id is zero is reported with the memory limit zero when the kernel
  side gives none, whatever process it names: the file system is not consulted.
\<close>

theorem oom_without_cgroup_not_enriched:
  assumes "ce_memory_limit f = 0" "ce_cgroup_id f = 0"
  shows "Option.bind (occ_data (fst (con_build_occurrence read keys boot cache ulid f a)))
      (\<lambda>j. json_get j ''memory_limit_bytes'') = Some (JPos 0)"
  using assms
  by (simp add: con_build_occurrence_def enrich_memory_limit_def builder_defs json_get_object con_facts_def)

lemma oom_without_cgroup_not_enriched_witness:
  "Option.bind (occ_data (fst (con_build_occurrence (\<lambda>_. Some ''1000'') (map fst) 0 [] ''id'' oom_event
      (the (con_classify oom_event))))) (\<lambda>j. json_get j ''memory_limit_bytes'') = Some (JPos 0)"
  by (rule oom_without_cgroup_not_enriched) (simp_all add: oom_event_def)

end
