(* ===== verification/ControlPlane.thy ===== *)
theory ControlPlane
  imports Server Registration ControllerSink ObserverRun Network Storage NodePmc Container
begin

text \<open>
  The parts put together: an Evidence Profile on its way through the controller and an agent's
  poll to the kernel struct, a kernel record on its way through an observer and the
  controller sink to an accepted batch, the sequence numbers of a sink as the controller
  tracks them, and what an agent does after the controller has lost its state. The HTTP
  server library between the two programs is a parameter: that it hands the handler the
  query of the agent's URL and the entity tag, and returns the handler's answer.
\<close>

section \<open>The query of the agent's URL\<close>

lemma HEX_in: "n < 16 \<Longrightarrow> HEX ! n \<in> set HEX"
  by (rule nth_mem) (simp add: HEX_def)

lemma HEX_chars: "c \<in> set HEX \<Longrightarrow> unreserved c"
proof -
  have "list_all unreserved HEX" by code_simp
  then show "c \<in> set HEX \<Longrightarrow> unreserved c" by (simp add: list_all_iff)
qed

lemma of_char_div_16: "(of_char (c :: char) :: nat) div 16 < 16"
proof -
  have "(of_char c :: nat) < 16 * 16" by simp
  then show ?thesis by (rule less_mult_imp_div_less)
qed

lemma url_component_chars: "c \<in> set (url_component s) \<Longrightarrow> unreserved c \<or> c = CHR ''%''"
proof (induction s)
  case (Cons b s)
  have "unreserved (HEX ! (of_char b div 16))" "unreserved (HEX ! (of_char b mod 16))"
    by (intro HEX_chars HEX_in of_char_div_16) (intro HEX_chars HEX_in, simp)
  with Cons show ?case by (auto split: if_splits)
qed simp

lemma unreserved_visible: "unreserved c \<Longrightarrow> visible c"
  by (auto simp: unreserved_def visible_def in_range_def)

lemma url_component_visible: "c \<in> set (url_component s) \<Longrightarrow> visible c"
  using url_component_chars [of c s] unreserved_visible by (auto simp: visible_def)

lemma url_component_no_sep:
  "CHR ''&'' \<notin> set (url_component s)" "CHR ''='' \<notin> set (url_component s)"
  using url_component_chars [of _ s] by (force simp: unreserved_def in_range_def)+

lemma url_component_Nil: "url_component s = [] \<longleftrightarrow> s = []"
  by (cases s) auto

lemma url_component_blank: "blank (url_component s) \<longleftrightarrow> s = []"
proof (cases s)
  case Nil
  then show ?thesis by simp
next
  case (Cons c cs)
  then have "url_component s \<noteq> []" by (simp only: url_component_Nil list.distinct not_False_eq_True)
  then obtain x where "x \<in> set (url_component s)" by (meson list.set_sel(1))
  with Cons show ?thesis using url_component_visible visible_not_blank by blast
qed

lemma config_query_params:
  "query_param (Some (config_query cc)) ''agent_id'' = Some (url_component (acc_agent_id cc))"
  "query_param (Some (config_query cc)) ''node_name'' = Some (url_component (acc_node_name cc))"
proof -
  let ?a = "url_component (acc_agent_id cc)" and ?n = "url_component (acc_node_name cc)"
  have amp: "CHR ''&'' \<notin> set (''agent_id='' @ ?a)" "CHR ''&'' \<notin> set (''node_name='' @ ?n)"
    using url_component_no_sep [of "acc_agent_id cc"] url_component_no_sep [of "acc_node_name cc"] by simp_all
  have "split_on (CHR ''&'') ((''agent_id='' @ ?a) @ CHR ''&'' # (''node_name='' @ ?n))
      = [''agent_id='' @ ?a, ''node_name='' @ ?n]"
    unfolding split_on_append [OF amp(1)] split_on_no_sep [OF amp(2)] ..
  then have sp: "split_on (CHR ''&'') (config_query cc) = [''agent_id='' @ ?a, ''node_name='' @ ?n]"
    by (simp add: config_query_def)
  have "split_once (CHR ''='') (''agent_id'' @ CHR ''='' # ?a) = Some (''agent_id'', ?a)"
    "split_once (CHR ''='') (''node_name'' @ CHR ''='' # ?n) = Some (''node_name'', ?n)"
    by (rule split_once_append; simp)+
  then show "query_param (Some (config_query cc)) ''agent_id'' = Some ?a"
    "query_param (Some (config_query cc)) ''node_name'' = Some ?n"
    by (simp_all add: query_param_def sp)
qed

section \<open>Configuration\<close>

text \<open>What the agent's client reads when the controller has answered with \<open>r\<close>.\<close>

definition http_of :: "(config_response \<Rightarrow> string) \<Rightarrow> api_response \<Rightarrow> http_response" where
  "http_of to_json r = \<lparr>hr_status = resp_status r,
     hr_body = (case resp_body r of ConfigBody c \<Rightarrow> to_json c | _ \<Rightarrow> [])\<rparr>"

lemma config_handler_of_query:
  assumes "acc_agent_id cc \<noteq> []" "acc_node_name cc \<noteq> []"
  shows "http_of to_json (config_handler hok st inm (Some (config_query cc))) =
    (if if_none_match_matches inm (quoted_etag (cfg_config_hash (ctl_config st)))
     then \<lparr>hr_status = 304, hr_body = []\<rparr>
     else \<lparr>hr_status = 200, hr_body = to_json (ctl_config st)\<rparr>)"
  using assms url_component_blank [of "acc_agent_id cc"] url_component_blank [of "acc_node_name cc"]
  by (simp add: config_handler_def config_query_params config_for_def blank_def http_of_def insert_etag_def
      json_ok_def Let_def)

lemma quoted_etag_matches: "if_none_match_matches (Some (config_etag h)) (quoted_etag h)"
  using trim_quoted [of h] by (simp add: if_none_match_matches_def config_etag_def quoted_etag_def)

lemma flags_of_translation:
  "tapio_config_from_compiled config gen = Inr t \<Longrightarrow> has_valid_abi t"
  by (simp add: has_valid_abi_def from_compiled_ok(1))

text \<open>What an accepted profile, translated under a generation, asks of the kernel programs.\<close>

lemma profile_config:
  fixes generation :: u32
  assumes "profile_validate p builtins_v0 = Inr v" "tapio_config_from_compiled (compile v) (dec (unat generation)) = Inr t"
  shows "tapio_config_sized t" "tc_generation t = generation"
    "observer_enabled t TAPIO_F_NETWORK \<longleftrightarrow> rn_enabled (res_network (vp_resolved v))"
    "observer_enabled t TAPIO_F_STORAGE \<longleftrightarrow> rs_enabled (res_storage (vp_resolved v))"
    "observer_enabled t TAPIO_F_CONTAINER \<longleftrightarrow> rc_enabled (res_container (vp_resolved v))"
    "observer_enabled t TAPIO_F_NODE_PMC \<longleftrightarrow> rp_enabled (res_node_pmc (vp_resolved v))"
    "unat (tc_slow_io_threshold_ns t) = 1000000 * unat (rs_slow_io_warning_ms (res_storage (vp_resolved v)))"
    "unat (tc_io_latency_critical_ns t) = 1000000 * unat (rs_slow_io_critical_ms (res_storage (vp_resolved v)))"
    "unat (tc_rtt_spike_abs_us t) = 1000 * unat (rn_rtt_spike_abs_ms (res_network (vp_resolved v)))"
    "map sint (take (unat (tc_ignore_exit_count t)) (tc_ignore_exit_codes t))
       = map uint (rc_ignore_exit_codes (res_container (vp_resolved v)))"
proof -
  note facts = translation_facts [OF assms(2), of "[]"] and compiled = compile_facts [OF assms(1), unfolded Let_def]
  have profile: "profile_ok (vp_resolved v)" by (rule validated_ok [OF assms(1)])
  show "tapio_config_sized t" by (rule from_compiled_ok(5) [OF assms(2)])
  have "parse_uint (2 ^ 32) (dec (unat generation)) = Some (unat generation)"
    by (rule parse_uint_dec) (use unsigned_less [of generation, where 'a = nat] in simp)
  with facts show "tc_generation t = generation" by (simp add: word_unat_eq_iff)
  have "cn_enabled (comp_network (compile v)) = rn_enabled (res_network (vp_resolved v))"
    "cs_enabled (comp_storage (compile v)) = rs_enabled (res_storage (vp_resolved v))"
    "cc_enabled (comp_container (compile v)) = rc_enabled (res_container (vp_resolved v))"
    "cp_enabled (comp_node_pmc (compile v)) = rp_enabled (res_node_pmc (vp_resolved v))"
    by (simp_all add: compile_def Let_def)
  with facts show "observer_enabled t TAPIO_F_NETWORK \<longleftrightarrow> rn_enabled (res_network (vp_resolved v))"
    "observer_enabled t TAPIO_F_STORAGE \<longleftrightarrow> rs_enabled (res_storage (vp_resolved v))"
    "observer_enabled t TAPIO_F_CONTAINER \<longleftrightarrow> rc_enabled (res_container (vp_resolved v))"
    "observer_enabled t TAPIO_F_NODE_PMC \<longleftrightarrow> rp_enabled (res_node_pmc (vp_resolved v))"
    by blast+
  have "tc_slow_io_threshold_ns t = cs_slow_io_warning_ns (comp_storage (compile v))"
    "tc_io_latency_critical_ns t = cs_slow_io_critical_ns (comp_storage (compile v))"
    "tc_rtt_spike_abs_us t = cn_rtt_spike_abs_us (comp_network (compile v))"
    using assms(2) by (auto simp: tapio_config_from_compiled_def Let_def split: option.splits)
  with compiled show "unat (tc_slow_io_threshold_ns t) = 1000000 * unat (rs_slow_io_warning_ms (res_storage (vp_resolved v)))"
    "unat (tc_io_latency_critical_ns t) = 1000000 * unat (rs_slow_io_critical_ms (res_storage (vp_resolved v)))"
    "unat (tc_rtt_spike_abs_us t) = 1000 * unat (rn_rtt_spike_abs_ms (res_network (vp_resolved v)))"
    by simp_all
  have codes: "map sint (cc_ignore_exit_codes (comp_container (compile v)))
      = map uint (rc_ignore_exit_codes (res_container (vp_resolved v)))"
    using compiled by blast
  have "length (cc_ignore_exit_codes (comp_container (compile v))) \<le> 16"
    using map_eq_imp_length_eq [OF codes] profile by (simp add: profile_ok_def)
  with facts codes show "map sint (take (unat (tc_ignore_exit_count t)) (tc_ignore_exit_codes t))
       = map uint (rc_ignore_exit_codes (res_container (vp_resolved v)))"
    by simp
qed

text \<open>A configuration made from a validated profile passes every check of the agent.\<close>

lemma profile_config_checks:
  assumes "profile_validate p builtins_v0 = Inr v"
    and "config_response_from_compiled to_vec sha256 (compile v) generation = Inr c"
    and "from_json body = Inr c"
  obtains t where "check_config from_json body = Inr (generation, c, t)"
    "tapio_config_from_compiled (compile v) (dec (unat generation)) = Inr t"
    "cfg_config c = compile v" "cfg_config_hash c \<noteq> []"
proof -
  obtain h where c: "c = \<lparr>cfg_wire_version = WIRE_VERSION, cfg_version = dec (unat generation),
      cfg_config_hash = ''sha256:'' @ h, cfg_config = compile v,
      cfg_batching = \<lparr>bat_send_interval_ms = 1000, bat_max_batch_events = 256\<rparr>\<rparr>"
    using assms(2) by (auto simp: config_response_from_compiled_def config_hash_def and_then_Inr)
  have ok: "profile_ok (vp_resolved v)" by (rule validated_ok [OF assms(1)])
  have "1 \<le> rs_slow_io_warning_ms (res_storage (vp_resolved v))"
    using ok by (simp add: profile_ok_def)
  then have "0 < unat (rs_slow_io_warning_ms (res_storage (vp_resolved v)))"
    by (simp add: word_le_nat_alt)
  with compile_facts [OF assms(1)]
  have "0 < unat (cs_slow_io_warning_ns (comp_storage (compile v)))"
    "cs_slow_io_warning_ns (comp_storage (compile v)) \<le> cs_slow_io_critical_ns (comp_storage (compile v))"
    by (simp_all add: Let_def)
  then have slow: "cs_slow_io_warning_ns (comp_storage (compile v)) \<noteq> 0"
    "cs_slow_io_critical_ns (comp_storage (compile v)) \<noteq> 0"
    by (auto simp: word_le_nat_alt)
  have gen: "parse_uint (2 ^ 32) (dec (unat generation)) = Some (unat generation)"
    by (rule parse_uint_dec) (use unsigned_less [of generation, where 'a = nat] in simp)
  then obtain t where t: "tapio_config_from_compiled (compile v) (dec (unat generation)) = Inr t"
    by (simp add: tapio_config_from_compiled_def Let_def)
  have "config_response_validate c = Inr ()"
    using slow by (simp add: config_response_ok c dec_not_blank)
  with gen t assms(3) have "check_config from_json body = Inr (generation, c, t)"
    by (simp add: check_config_ok c)
  with t show ?thesis by (intro that) (simp_all add: c)
qed

section \<open>Evidence\<close>

text \<open>Events made of an observer's evidence pass the validation of the wire.\<close>

definition ships :: "string \<Rightarrow> occurrence \<Rightarrow> bool" where
  "ships segment occ = (case occurrence_to_wire_event occ of
     Inl _ \<Rightarrow> False | Inr ev \<Rightarrow> ev_observer ev = segment \<and> wire_event_validate ev = Inr ())"

lemma evidence_ships:
  assumes "segment \<in> set [''network'', ''storage'', ''container'', ''node'']"
    and "list_all (evidence segment) occs"
  shows "list_all (ships segment) occs"
proof -
  have "visible (hd segment)" "segment \<noteq> []" "CHR ''.'' \<notin> set segment"
    using assms(1) by (auto simp: visible_def)
  then have "\<not> blank segment" using visible_not_blank by (metis list.set_sel(1))
  then have "ships segment occ" if "evidence segment occ" for occ
    by (rule_tac evidence_to_wire [OF that \<open>segment \<noteq> []\<close> \<open>CHR ''.'' \<notin> set segment\<close>])
      (simp_all add: ships_def)
  with assms(2) show ?thesis by (simp add: list_all_iff)
qed

section \<open>The sink's sequence numbers as the controller sees them\<close>

lemma sorted_map_unat_image:
  assumes "sorted_wrt (<) (k # ks)" "\<forall>i\<in>set (k # ks). unat (f i) = Suc i"
  shows "card (skipped (map f (k # ks))) = card ({k .. last (k # ks)} - set (k # ks))"
proof -
  have last: "unat (last (map f (k # ks))) = Suc (last (k # ks))"
    using assms(2) last_in_set [of "k # ks"] by (simp add: last_map)
  have img: "unat ` set (map f (k # ks)) = Suc ` set (k # ks)"
    using assms(2) by (force simp: image_iff)
  have "skipped (map f (k # ks)) = Suc ` ({k .. last (k # ks)} - set (k # ks))"
    unfolding skipped_def img last using assms(2)
    by (simp add: image_set_diff [OF inj_Suc] image_Suc_atLeastAtMost)
  then show ?thesis by (simp add: card_image)
qed

lemma sorted_last: "sorted_wrt (<) (k # ks) \<Longrightarrow> k + length ks \<le> last (k # (ks :: nat list))"
proof (induction ks arbitrary: k)
  case (Cons a ks)
  then have "k < a" "a + length ks \<le> last (a # ks)" by simp_all
  then show ?case by simp
qed simp

text \<open>A sink that ships each event at once, as with a batch limit of one.\<close>

lemma shipped_at_once:
  fixes env :: sink_env
  assumes "cs_alive s" "cs_tx s" "cs_queue s = []" "sw_buffer (cs_worker s) = []" "0 < capacity"
    and "occurrence_to_wire_event occ = Inr event" "unat (snd (batching control)) = 1"
  defines "s' \<equiv> sink_step env capacity (WorkerTurn control) (sink_step env capacity (Send occ) s)"
  shows "cs_alive s' \<and> cs_tx s' \<and> cs_queue s' = [] \<and> sw_buffer (cs_worker s') = []
     \<and> length (sw_log (cs_worker s')) = Suc (length (sw_log (cs_worker s)))"
proof -
  define w where "w = (cs_worker s)\<lparr>sw_buffer := []\<rparr>"
  obtain err w' where r: "send_event_batch_with_retries env True [event] w = (err, w')" by force
  from send_batch_effect [OF r] assms(1-7) show ?thesis
    by (auto simp: s'_def sink_send_def try_enqueue_controller_event_def try_send_def worker_turn_def
        worker_event_def flush_buffer_def flush_with_def split_events_by_size_def Let_def w_def r [unfolded w_def])
qed

section \<open>Properties\<close>


text \<open>
  C19: once an agent has applied the controller's configuration, every later poll is answered 304
  and changes nothing but the counter, whatever requests the controller has served since.
\<close>

theorem applied_config_settles:
  assumes "pl_active ps = Some a" "pl_etag ps = Some (config_etag (aci_hash a))"
    and "aci_hash a = cfg_config_hash (ctl_config st)" "acc_agent_id cc \<noteq> []" "acc_node_name cc \<noteq> []"
    and "http_get connect (config_url cc) [(''If-None-Match'', config_etag (aci_hash a))] DEFAULT_MAX_RESPONSE_BYTES
          = Inr (http_of to_json (config_handler hok (serve hok st reqs) (Some (config_etag (aci_hash a)))
              (Some (config_query cc))))"
  shows "poll_step from_json accepts cc connect ps = count_fetch ''not_modified'' ps"
proof -
  have "http_of to_json (config_handler hok (serve hok st reqs) (Some (config_etag (aci_hash a)))
      (Some (config_query cc))) = \<lparr>hr_status = 304, hr_body = []\<rparr>"
    unfolding config_handler_of_query [OF assms(4,5)] using assms(3) quoted_etag_matches [of "aci_hash a"] by simp
  then show ?thesis
    using assms(2,6) by (simp add: poll_step_def fetch_once_def poll_outcome_step_def)
qed


text \<open>
  C9: whatever bytes the ring buffers get, every occurrence that one of the four observers sends
  while it runs becomes a wire event of that observer which passes the controller's validation,
  the filter for reasoning fields included.
\<close>

theorem observers_ship_valid_events:
  "list_all (ships ''network'')
     (ds_sent (fst (run_ticks (\<lambda>_. network_ops) fresh hm ticks (drain_init m (), []))))
   \<and> list_all (ships ''storage'')
     (ds_sent (fst (run_ticks (\<lambda>_. storage_ops boot) fresh hm ticks (drain_init m (), []))))
   \<and> list_all (ships ''container'')
     (ds_sent (fst (run_ticks (\<lambda>_. container_ops read keys boot) fresh hm ticks (drain_init m cache, []))))
   \<and> list_all (ships ''node'')
     (ds_sent (fst (run_ticks (pmc_ops boot) fresh hm pmc_ticks (drain_init m (), []))))"
  by (intro conjI evidence_ships run_sends_evidence)
    (rule network.observer_axioms storage.observer_axioms container.observer_axioms node_pmc.observer_axioms
      | simp add: drain_init_def)+


text \<open>
  C6: when some of the batches that a sink builds never arrive, the controller's gap total for the
  agent is exactly the number of lost batches between the first and the last that arrived,
  and it counts no regression.
\<close>

theorem controller_gaps_are_lost_batches:
  assumes "entries = sw_log (cs_worker (fold (sink_step env capacity) inputs (controller_sink_new metrics_new)))"
    and "sorted_wrt (<) (k # ks)" "last (k # ks) < length entries" "length entries < 2 ^ 64 - 1"
  shows "let t = track_all (map (\<lambda>i. batch_sequence (fst (entries ! i))) (k # ks)) in
     unat (trk_gaps_total t) = card ({k .. last (k # ks)} - set (k # ks)) \<and> trk_regressions_total t = 0"
proof -
  have "sink_inv env capacity (controller_sink_new metrics_new)"
    by (rule sink_inv_new) (simp_all add: metrics_new_def)
  from sink.inv_run [OF this, of inputs]
  have "list_all (entry_ok env) (zip [0..<length entries] entries)"
    by (simp add: sink_inv_def worker_inv_def assms(1))
  note seqs = entries_sequences [OF this]
  have le: "i \<le> last (k # ks)" if "i \<in> set (k # ks)" for i
    using that assms(2) by (cases "k # ks" rule: rev_cases) (auto simp: sorted_wrt_append intro: less_imp_le)
  define f where "f = (\<lambda>i. batch_sequence (fst (entries ! i)))"
  have f: "unat (f i) = Suc i" if "i \<in> set (k # ks)" for i
  proof -
    have i: "i < length entries" using le [OF that] assms(3) by linarith
    have "f i = map (\<lambda>e. batch_sequence (fst e)) entries ! i" using i by (simp add: f_def)
    also have "\<dots> = seqno i" unfolding seqs using i by simp
    finally show ?thesis using i assms(4) by (simp add: unat_seqno)
  qed
  have sorted: "sorted_wrt (<) (map f (k # ks))"
    unfolding sorted_wrt_map using assms(2)
    by (rule sorted_wrt_mono_rel [rotated]) (simp add: word_less_nat_alt f)
  have lt: "unat (f i) < 2 ^ 64 - 1" if "i \<in> set (k # ks)" for i
    using f [OF that] le [OF that] assms(3,4) by simp
  have ne: "\<forall>x\<in>set (map f (k # ks)). x \<noteq> - 1"
  proof
    fix x assume "x \<in> set (map f (k # ks))"
    then obtain i where "i \<in> set (k # ks)" "x = f i" by auto
    with lt [of i] show "x \<noteq> - 1" by auto
  qed
  have "length ks \<le> last (k # ks)" using sorted_last [OF assms(2)] by simp
  then have len: "length (map f ks) < 2 ^ 64" using assms(3,4) by simp
  have "unat (trk_gaps_total (track_all (f k # map f ks))) = card (skipped (f k # map f ks))
      \<and> trk_regressions_total (track_all (f k # map f ks)) = 0"
    by (rule gaps_of_increasing) (use sorted ne len in simp_all)
  moreover have "card (skipped (map f (k # ks))) = card ({k .. last (k # ks)} - set (k # ks))"
    by (rule sorted_map_unat_image [OF assms(2)]) (use f in blast)
  ultimately show ?thesis unfolding Let_def f_def [symmetric] by simp
qed

text \<open>
  C21: after the controller has restarted without its state, an agent in its heartbeat loop is
  never told to register again: each valid heartbeat is answered so that the agent goes on,
  and however many heartbeats and batches it sends, the status lists no agent.
\<close>

theorem restart_forgets_agents:
  assumes "list_all (\<lambda>tr. case snd tr of PostHeartbeat _ \<Rightarrow> True | PostEvents _ \<Rightarrow> True | _ \<Rightarrow> False) reqs"
    and "heartbeat_request_validate hb = Inr ()"
  shows "let st = serve hok (controller_new c t) reqs in
     st_agents (controller_status now st) = []
     \<and> (case fst (record_heartbeat now st hb) of
          Inl _ \<Rightarrow> False
        | Inr response \<Rightarrow> classify_heartbeat_result (Inr response) m = (ContinueBeating, m))"
proof -
  have "ctl_agents (serve hok s reqs) = ctl_agents s" for s
    using assms(1)
  proof (induction reqs arbitrary: s)
    case (Cons tr reqs)
    then have "accepted_hello (snd tr) = None" by (cases "snd tr") auto
    with Cons show ?case by (simp add: serve_def serve_agents)
  qed (simp add: serve_def)
  then have "st_agents (controller_status now (serve hok (controller_new c t) reqs)) = []"
    by (simp add: controller_status_def controller_new_def)
  then show ?thesis
    using assms(2)
    by (simp add: Let_def record_heartbeat_def heartbeat_response_accepted_def classify_heartbeat_result_def)
qed

section \<open>Witnesses\<close>

definition sample_cc :: agent_controller_config where
  "sample_cc = \<lparr>acc_endpoint = ''http://c'', acc_agent_id = ''a'', acc_node_name = ''n'',
     acc_poll_interval = 5, acc_heartbeat_interval = 5\<rparr>"

definition sample_served :: config_response where
  "sample_served = \<lparr>cfg_wire_version = WIRE_VERSION, cfg_version = dec (unat (7 :: u32)),
     cfg_config_hash = ''sha256:'', cfg_config = compile example_validated,
     cfg_batching = \<lparr>bat_send_interval_ms = 1000, bat_max_batch_events = 256\<rparr>\<rparr>"

definition answering :: "string \<Rightarrow> string \<Rightarrow> string + connection" where
  "answering bytes host_port = Inr \<lparr>cx_write_head = (\<lambda>_. None), cx_write_body = (\<lambda>_. None),
     cx_read = chunks_from [bytes]\<rparr>"

lemma sample_url: "find_sub ''/'' (''c'' @ ''/v1'' @ rest) = Some 1"
  by simp

lemma answering_get:
  "http_get (answering bytes) (config_url sample_cc) headers DEFAULT_MAX_RESPONSE_BYTES
    = read_response (chunks_from [bytes]) DEFAULT_MAX_RESPONSE_BYTES"
  by (simp add: http_get_def request_def config_url_def sample_cc_def answering_def strip_prefix_def
      starts_with_def trim_end_char_def split_target_def)


lemma applied_config_settles_witness:
  "poll_step (\<lambda>_. Inl ''eof'') (\<lambda>_. True) sample_cc (answering (''HTTP/1.1 304 Not Modified'' @ CRLF @ CRLF))
      ((poll_init idle_target ''0'')\<lparr>pl_etag := Some (config_etag ''h''),
         pl_active := Some \<lparr>aci_version = ''1'', aci_hash = ''h'', aci_flags = 0\<rparr>\<rparr>)
    = count_fetch ''not_modified'' ((poll_init idle_target ''0'')\<lparr>pl_etag := Some (config_etag ''h''),
         pl_active := Some \<lparr>aci_version = ''1'', aci_hash = ''h'', aci_flags = 0\<rparr>\<rparr>)"
proof -
  let ?st = "controller_new (config_default_v1\<lparr>cfg_config_hash := ''h''\<rparr>) 0"
  have d: "pad0 3 (dec 304) = ''304''"
    by (simp add: dec.simps digit_def pad0_def) code_simp
  have "read_response (chunks_from [''HTTP/1.1 304 Not Modified'' @ CRLF @ CRLF]) DEFAULT_MAX_RESPONSE_BYTES
      = Inr \<lparr>hr_status = 304, hr_body = []\<rparr>"
    by (rule read_response_of_text [where reason = "'' Not Modified''" and headers = "[]"])
      (unfold d, simp_all add: line_ok_def response_text_def CRLF_def in_range_def DEFAULT_MAX_RESPONSE_BYTES_def)
  also have "\<dots> = Inr (http_of (\<lambda>_. ''{}'') (config_handler (\<lambda>_. True) (serve (\<lambda>_. True) ?st [(1, GetStatus)])
      (Some (config_etag ''h'')) (Some (config_query sample_cc))))"
    using quoted_etag_matches [of "''h''"]
    by (subst config_handler_of_query) (simp_all add: sample_cc_def controller_new_def)
  finally have "http_get (answering (''HTTP/1.1 304 Not Modified'' @ CRLF @ CRLF)) (config_url sample_cc)
      [(''If-None-Match'', config_etag ''h'')] DEFAULT_MAX_RESPONSE_BYTES
      = Inr (http_of (\<lambda>_. ''{}'') (config_handler (\<lambda>_. True) (serve (\<lambda>_. True) ?st [(1, GetStatus)])
          (Some (config_etag ''h'')) (Some (config_query sample_cc))))"
    unfolding answering_get .
  then show ?thesis
    by (intro applied_config_settles [where a = "\<lparr>aci_version = ''1'', aci_hash = ''h'', aci_flags = 0\<rparr>" and st = ?st])
      (simp_all add: sample_cc_def controller_new_def)
qed



lemma restart_forgets_agents_witness:
  "st_agents (controller_status 9 (serve (\<lambda>_. True) (controller_new config_default_v1 0)
      [(1, PostHeartbeat (Decoded sample_heartbeat)), (2, PostHeartbeat (Decoded sample_heartbeat))])) = []"
  using restart_forgets_agents [of "[(1, PostHeartbeat (Decoded sample_heartbeat)), (2, PostHeartbeat (Decoded sample_heartbeat))]",
      OF _ sample_heartbeat_valid]
  by (simp add: Let_def)

definition sample_occ :: occurrence where
  "sample_occ = occurrence_with [] [] ''kernel.network.x'' SevInfo OutFailure"

definition one_by_one :: agent_control where
  "one_by_one = set_batching 1000 1 (agent_control_new ''0'')"

lemma controller_gaps_are_lost_batches_witness:
  "let entries = sw_log (cs_worker (fold (sink_step sample_env 8)
        [Send sample_occ, WorkerTurn one_by_one, Send sample_occ, WorkerTurn one_by_one,
         Send sample_occ, WorkerTurn one_by_one] (controller_sink_new metrics_new)));
       t = track_all (map (\<lambda>i. batch_sequence (fst (entries ! i))) [0, 2])
   in unat (trk_gaps_total t) = 1 \<and> trk_regressions_total t = 0"
proof -
  define event where "event = the (case occurrence_to_wire_event sample_occ of Inr e \<Rightarrow> Some e | Inl _ \<Rightarrow> None)"
  have occ: "occurrence_to_wire_event sample_occ = Inr event"
    by (simp add: event_def sample_occ_def occurrence_with_def occurrence_to_wire_event_def observer_from_type_def)
  have one: "unat (snd (batching one_by_one)) = 1"
    by (simp add: one_by_one_def batching_def set_batching_def)
  note step = shipped_at_once [OF _ _ _ _ _ occ one, of _ 8 sample_env]
  define s0 where "s0 = controller_sink_new metrics_new"
  define f where "f = (\<lambda>s. sink_step sample_env 8 (WorkerTurn one_by_one) (sink_step sample_env 8 (Send sample_occ) s))"
  have s0: "cs_alive s0" "cs_tx s0" "cs_queue s0 = []" "sw_buffer (cs_worker s0) = []" "sw_log (cs_worker s0) = []"
    by (simp_all add: s0_def controller_sink_new_def)
  have f: "cs_alive (f s) \<and> cs_tx (f s) \<and> cs_queue (f s) = [] \<and> sw_buffer (cs_worker (f s)) = []
      \<and> length (sw_log (cs_worker (f s))) = Suc (length (sw_log (cs_worker s)))"
    if "cs_alive s" "cs_tx s" "cs_queue s = []" "sw_buffer (cs_worker s) = []" for s
    unfolding f_def using step [OF that] by (simp del: sink_step.simps)
  have "length (sw_log (cs_worker (f (f (f s0))))) = 3"
    using s0 f [of s0] f [of "f s0"] f [of "f (f s0)"] by simp
  moreover have "{0..2} - {0, 2} = {1 :: nat}" by auto
  ultimately show ?thesis
    using controller_gaps_are_lost_batches [of _ sample_env 8 "[Send sample_occ, WorkerTurn one_by_one, Send sample_occ,
        WorkerTurn one_by_one, Send sample_occ, WorkerTurn one_by_one]" 0 "[2]", OF refl]
    by (simp add: f_def s0_def Let_def del: sink_step.simps)
qed

end
