(* ===== verification/Kernel.thy ===== *)
theory Kernel
  imports Ebpf
begin

text \<open>
  What the four eBPF programs share: \<open>ebpf/headers/config.h\<close> and \<open>ebpf/headers/metrics.h\<close>, and
  the ring buffer they write to. A program runs to completion at a hook; what the kernel's
  helpers answer there (clock, task, CPU, room in the ring buffer) is a \<open>probe\<close>. Maps are fields
  of the state: the bytes of the configuration map, which the agent writes, the records that
  are submitted, and the two counters of \<open>tapio_metrics\<close>, a slot per CPU.
\<close>

unbundle bit_operations_syntax

section \<open>State and helpers\<close>

record kernel_state =
  kn_config :: string
  kn_ring :: "string list"
  kn_lost :: "u64 list"
  kn_ambiguous :: "u64 list"

record probe =
  pr_cpu :: nat
  pr_now :: u64
  pr_pid_tgid :: u64
  pr_cgroup :: u64
  pr_comm :: string
  pr_reserve :: bool

text \<open>The maps as they are created: zeroed, and no record yet.\<close>

definition kernel_init :: "nat \<Rightarrow> kernel_state" where
  "kernel_init cpus =
     \<lparr>kn_config = replicate 128 (CHR 0x00), kn_ring = [], kn_lost = replicate cpus 0, kn_ambiguous = replicate cpus 0\<rparr>"

definition tapio_config_snapshot :: "string \<Rightarrow> tapio_config option" where
  "tapio_config_snapshot bytes =
     (let cfg = tapio_config_decode bytes
      in if tc_abi_version cfg = TAPIO_CONFIG_ABI_VERSION then Some cfg else None)"

text \<open>The check at the head of every program: the snapshot, if it allows the observer.\<close>

definition hook_config :: "u64 \<Rightarrow> 'm kernel_state_scheme \<Rightarrow> tapio_config option" where
  "hook_config flag st =
     (case tapio_config_snapshot (kn_config st) of
        None \<Rightarrow> None
      | Some cfg \<Rightarrow> if tc_flags cfg AND flag = 0 then None else Some cfg)"

definition tapio_clamp_ignore_exit_count :: "u32 \<Rightarrow> u32" where
  "tapio_clamp_ignore_exit_count count =
     (if count > of_nat TAPIO_CONFIG_MAX_IGNORE_EXIT_CODES then of_nat TAPIO_CONFIG_MAX_IGNORE_EXIT_CODES else count)"

text \<open>\<open>metric_inc\<close> of the CPU the program runs on; a slot that is not there is left alone.\<close>

definition metric_inc :: "nat \<Rightarrow> u64 list \<Rightarrow> u64 list" where
  "metric_inc cpu slots = slots[cpu := slots ! cpu + 1]"

text \<open>
  \<open>bpf_ringbuf_reserve\<close> and \<open>bpf_ringbuf_submit\<close> around the filling of the event: the record, or a
  lost event when there is no room.
\<close>

definition submit :: "probe \<Rightarrow> string \<Rightarrow> 'm kernel_state_scheme \<Rightarrow> 'm kernel_state_scheme" where
  "submit pr event st =
     (if pr_reserve pr then st\<lparr>kn_ring := kn_ring st @ [event]\<rparr>
      else st\<lparr>kn_lost := metric_inc (pr_cpu pr) (kn_lost st)\<rparr>)"

definition current_pid :: "probe \<Rightarrow> u32" where
  "current_pid pr = ucast (drop_bit 32 (pr_pid_tgid pr))"

text \<open>\<open>bpf_get_current_comm\<close> into an array of 16 bytes that was zeroed.\<close>

definition current_comm :: "probe \<Rightarrow> string" where
  "current_comm pr = take 16 (pr_comm pr @ replicate 16 (CHR 0x00))"

text \<open>The agent writes a configuration into the map, and drains records from the front.\<close>

definition write_config :: "tapio_config \<Rightarrow> 'm kernel_state_scheme \<Rightarrow> 'm kernel_state_scheme" where
  "write_config cfg st = st\<lparr>kn_config := tapio_config_encode cfg\<rparr>"

definition take_records :: "nat \<Rightarrow> 'm kernel_state_scheme \<Rightarrow> 'm kernel_state_scheme" where
  "take_records n st = st\<lparr>kn_ring := drop n (kn_ring st)\<rparr>"

section \<open>Lemmas\<close>

lemma length_current_comm [simp]: "length (current_comm pr) = 16"
  by (simp add: current_comm_def)

text \<open>The kernel's check is the agent's \<open>observer_enabled\<close>.\<close>

lemma hook_config_eq:
  "hook_config flag st =
     (if observer_enabled (tapio_config_decode (kn_config st)) flag then Some (tapio_config_decode (kn_config st)) else None)"
  by (simp add: hook_config_def tapio_config_snapshot_def observer_enabled_def has_valid_abi_def Let_def)

lemma hook_config_Some:
  "hook_config flag st = Some cfg \<Longrightarrow> cfg = tapio_config_decode (kn_config st) \<and> observer_enabled cfg flag"
  by (simp add: hook_config_eq split: if_splits)

lemma hook_config_of: "kn_config st = kn_config st' \<Longrightarrow> hook_config flag st = hook_config flag st'"
  by (simp add: hook_config_def)

lemma config_decode_encode: "tapio_config_sized cfg \<Longrightarrow> tapio_config_decode (tapio_config_encode cfg) = cfg"
  using cfg_abi.decode_encode [of cfg "[]"] by simp

lemma hook_config_written:
  "tapio_config_sized cfg \<Longrightarrow> hook_config flag (write_config cfg st) = (if observer_enabled cfg flag then Some cfg else None)"
  by (simp add: hook_config_eq write_config_def config_decode_encode)

text \<open>A map that was never written allows nothing.\<close>

lemma init_config_inert: "kn_config st = replicate 128 (CHR 0x00) \<Longrightarrow> hook_config flag st = None"
proof -
  assume z: "kn_config st = replicate 128 (CHR 0x00)"
  have "le_val (replicate n (CHR 0x00)) = 0" for n by (induction n) simp_all
  then have "tc_abi_version (tapio_config_decode (kn_config st)) = 0"
    by (simp add: z tapio_config_decode_def get_le_def slice_def)
  then show ?thesis by (simp add: hook_config_eq observer_enabled_def has_valid_abi_def TAPIO_CONFIG_ABI_VERSION_def)
qed

lemma submit_keeps [simp]:
  "kn_config (submit pr event st) = kn_config st" "kn_ambiguous (submit pr event st) = kn_ambiguous st"
  "kernel_state.more (submit pr event st) = kernel_state.more st"
  by (simp_all add: submit_def)

lemma submit_ring:
  "kn_ring (submit pr event st) = kn_ring st @ (if pr_reserve pr then [event] else [])"
  "kn_lost (submit pr event st) = (if pr_reserve pr then kn_lost st else metric_inc (pr_cpu pr) (kn_lost st))"
  by (simp_all add: submit_def)

text \<open>The sum over the CPUs, which the agent reads, counts every increment.\<close>

lemma metric_inc_sum: "cpu < length slots \<Longrightarrow> sum_list (metric_inc cpu slots) = sum_list slots + 1"
proof (induction slots arbitrary: cpu)
  case (Cons s slots)
  then show ?case by (cases cpu) (simp_all add: metric_inc_def)
qed simp

lemma length_metric_inc [simp]: "length (metric_inc cpu slots) = length slots"
  by (simp add: metric_inc_def)

section \<open>What a program promises the agent\<close>

text \<open>
  A program with its hooks (its \<open>step\<close>): every record that a hook adds is one that the agent
  reads as an event.
\<close>

locale record_source =
  fixes read :: "string \<Rightarrow> 'e option"
    and step :: "'h \<Rightarrow> 'm kernel_state_scheme \<Rightarrow> 'm kernel_state_scheme"
    and ok :: "'h \<Rightarrow> bool"
  assumes new_record: "ok h \<Longrightarrow> r \<in> set (kn_ring (step h st)) \<Longrightarrow> r \<notin> set (kn_ring st) \<Longrightarrow> read r \<noteq> None"
begin

lemma run_decodes:
  "list_all ok hs \<Longrightarrow> list_all (\<lambda>r. read r \<noteq> None) (kn_ring st) \<Longrightarrow> list_all (\<lambda>r. read r \<noteq> None) (kn_ring (fold step hs st))"
proof (induction hs arbitrary: st)
  case (Cons h hs)
  have "list_all (\<lambda>r. read r \<noteq> None) (kn_ring (step h st))"
    using Cons.prems new_record [of h _ st] by (auto simp: list_all_iff)
  with Cons show ?case by simp
qed simp

end

lemma submit_new: "r \<in> set (kn_ring (submit pr event st)) \<Longrightarrow> r \<notin> set (kn_ring st) \<Longrightarrow> r = event"
  by (auto simp: submit_ring split: if_splits)

lemma take_no_new: "r \<in> set (kn_ring (take_records n st)) \<Longrightarrow> r \<in> set (kn_ring st)"
  by (auto simp: take_records_def dest: in_set_dropD)

end
