(* ===== verification/KernelStorage.thy ===== *)
theory KernelStorage
  imports Kernel Storage "HOL-Library.AList"
begin

text \<open>
  \<open>ebpf/storage_monitor.c\<close>: block requests are entered in a map when they are issued and
  looked up when they complete; a slow or failed one becomes an event. The tracepoints do
  not identify the request, so the key is its device, sector, size and direction. The least
  recently used entries that the kernel evicts from the map are inputs.
\<close>

section \<open>State\<close>

record io_key =
  ik_dev_major :: u32
  ik_dev_minor :: u32
  ik_sector :: u64
  ik_nr_sector :: u32
  ik_opcode :: u8

record io_value =
  iv_issue_ns :: u64
  iv_cgroup_id :: u64
  iv_bytes :: u32
  iv_issuer_pid :: u32
  iv_opcode :: u8
  iv_ambiguous :: u8

record sto_kernel = kernel_state +
  sk_inflight :: "(io_key \<times> io_value) list"

text \<open>The fields of the tracepoints' contexts; \<open>rwbs\<close> as \<open>bpf_core_read_str\<close> copies it.\<close>

record block_rq =
  br_dev :: u32
  br_sector :: u64
  br_nr_sector :: u32
  br_rwbs :: string
  br_error :: i32

definition sto_kernel_init :: "nat \<Rightarrow> sto_kernel" where
  "sto_kernel_init cpus = kernel_state.extend (kernel_init cpus) \<lparr>sk_inflight = []\<rparr>"

section \<open>The two programs\<close>

definition rq_opcode :: "block_rq \<Rightarrow> u8 option" where
  "rq_opcode rq =
     (case br_rwbs rq of
        [] \<Rightarrow> None
      | c # _ \<Rightarrow> if c = CHR ''R'' then Some OP_READ else if c = CHR ''W'' then Some OP_WRITE else None)"

definition rq_key :: "block_rq \<Rightarrow> u8 \<Rightarrow> io_key" where
  "rq_key rq opcode =
     \<lparr>ik_dev_major = drop_bit 20 (br_dev rq), ik_dev_minor = br_dev rq AND (push_bit 20 1 - 1),
      ik_sector = br_sector rq, ik_nr_sector = br_nr_sector rq, ik_opcode = opcode\<rparr>"

definition inflight_delete :: "io_key \<Rightarrow> sto_kernel \<Rightarrow> sto_kernel" where
  "inflight_delete key st = st\<lparr>sk_inflight := AList.delete key (sk_inflight st)\<rparr>"

text \<open>\<open>room\<close>: the map can take a new entry. \<open>BPF_NOEXIST\<close> refuses a key that is there.\<close>

definition block_rq_issue :: "probe \<Rightarrow> bool \<Rightarrow> block_rq \<Rightarrow> sto_kernel \<Rightarrow> sto_kernel" where
  "block_rq_issue pr room rq st =
     (case hook_config TAPIO_F_STORAGE st of
        None \<Rightarrow> st
      | Some _ \<Rightarrow>
     (case rq_opcode rq of
        None \<Rightarrow> st
      | Some opcode \<Rightarrow>
          (let key = rq_key rq opcode;
               val = \<lparr>iv_issue_ns = pr_now pr, iv_cgroup_id = pr_cgroup pr, iv_bytes = br_nr_sector rq * 512,
                      iv_issuer_pid = current_pid pr, iv_opcode = opcode, iv_ambiguous = 0\<rparr>
           in case map_of (sk_inflight st) key of
                None \<Rightarrow> if room then st\<lparr>sk_inflight := AList.update key val (sk_inflight st)\<rparr> else st
              | Some existing \<Rightarrow>
                  st\<lparr>sk_inflight := AList.update key (existing\<lparr>iv_ambiguous := 1\<rparr>) (sk_inflight st)\<rparr>)))"

definition io_severity :: "tapio_config \<Rightarrow> i32 \<Rightarrow> u64 \<Rightarrow> u8 option" where
  "io_severity cfg error_code latency_ns =
     (if error_code \<noteq> 0 then Some STORAGE_SEVERITY_CRITICAL
      else if tc_io_latency_critical_ns cfg > 0 \<and> latency_ns \<ge> tc_io_latency_critical_ns cfg
        then Some STORAGE_SEVERITY_CRITICAL
      else if tc_slow_io_threshold_ns cfg > 0 \<and> latency_ns \<ge> tc_slow_io_threshold_ns cfg
        then Some STORAGE_SEVERITY_WARNING
      else None)"

definition io_event :: "probe \<Rightarrow> tapio_config \<Rightarrow> block_rq \<Rightarrow> io_key \<Rightarrow> io_value \<Rightarrow> u8 \<Rightarrow> storage_event" where
  "io_event pr cfg rq key val severity =
     \<lparr>se_config_generation = tc_generation cfg, se_pad0 = 0, se_timestamp_ns = pr_now pr,
      se_latency_ns = pr_now pr - iv_issue_ns val, se_cgroup_id = iv_cgroup_id val,
      se_sector = ik_sector key, se_dev_major = ik_dev_major key, se_dev_minor = ik_dev_minor key,
      se_bytes = iv_bytes val, se_pid = iv_issuer_pid val, se_error_code = br_error rq,
      se_opcode = iv_opcode val, se_severity = severity, se_comm = current_comm pr,
      se_pad = replicate 2 (CHR 0x00)\<rparr>"

definition block_rq_complete :: "probe \<Rightarrow> block_rq \<Rightarrow> sto_kernel \<Rightarrow> sto_kernel" where
  "block_rq_complete pr rq st =
     (case rq_opcode rq of
        None \<Rightarrow> st
      | Some opcode \<Rightarrow>
          (let key = rq_key rq opcode
           in case map_of (sk_inflight st) key of
                None \<Rightarrow> st
              | Some val \<Rightarrow>
             (case hook_config TAPIO_F_STORAGE st of
                None \<Rightarrow> inflight_delete key st
              | Some cfg \<Rightarrow>
                  if iv_ambiguous val \<noteq> 0
                  then inflight_delete key (st\<lparr>kn_ambiguous := metric_inc (pr_cpu pr) (kn_ambiguous st)\<rparr>)
                  else (case io_severity cfg (br_error rq) (pr_now pr - iv_issue_ns val) of
                      None \<Rightarrow> inflight_delete key st
                    | Some severity \<Rightarrow>
                        inflight_delete key
                          (submit pr (storage_event_encode (io_event pr cfg rq key val severity)) st)))))"

text \<open>
  What can happen to the program's maps. \<open>id\<close> stands for the request itself, which the programs
  do not see.
\<close>

datatype sto_hook =
    Issue nat block_rq probe bool
  | Complete nat block_rq probe
  | Evicted io_key
  | Configured tapio_config
  | Drained nat

fun sto_step :: "sto_hook \<Rightarrow> sto_kernel \<Rightarrow> sto_kernel" where
  "sto_step (Issue i rq pr room) st = block_rq_issue pr room rq st"
| "sto_step (Complete i rq pr) st = block_rq_complete pr rq st"
| "sto_step (Evicted key) st = inflight_delete key st"
| "sto_step (Configured cfg) st = write_config cfg st"
| "sto_step (Drained n) st = take_records n st"

section \<open>Lemmas on the programs\<close>

lemma map_of_inflight [simp]:
  "map_of (sk_inflight (inflight_delete key st)) = (map_of (sk_inflight st))(key := None)"
  "kn_config (inflight_delete key st) = kn_config st" "kn_ring (inflight_delete key st) = kn_ring st"
  by (simp_all add: inflight_delete_def delete_conv')

lemma sto_submit [simp]: "sk_inflight (submit pr event st) = sk_inflight st"
  by (simp add: submit_def)

lemma issue_keeps [simp]:
  "kn_config (block_rq_issue pr room rq st) = kn_config st" "kn_ring (block_rq_issue pr room rq st) = kn_ring st"
  by (simp_all add: block_rq_issue_def Let_def split: option.splits)

lemma issue_inflight:
  "map_of (sk_inflight (block_rq_issue pr room rq st)) =
     (case (hook_config TAPIO_F_STORAGE st, rq_opcode rq) of
        (Some _, Some opcode) \<Rightarrow>
          (let key = rq_key rq opcode in
           case map_of (sk_inflight st) key of
             Some existing \<Rightarrow> (map_of (sk_inflight st))(key \<mapsto> existing\<lparr>iv_ambiguous := 1\<rparr>)
           | None \<Rightarrow>
               if room then (map_of (sk_inflight st))(key \<mapsto>
                 \<lparr>iv_issue_ns = pr_now pr, iv_cgroup_id = pr_cgroup pr, iv_bytes = br_nr_sector rq * 512,
                  iv_issuer_pid = current_pid pr, iv_opcode = opcode, iv_ambiguous = 0\<rparr>)
               else map_of (sk_inflight st))
      | _ \<Rightarrow> map_of (sk_inflight st))"
  by (simp add: block_rq_issue_def Let_def update_conv' split: option.splits)

lemma complete_inflight:
  "map_of (sk_inflight (block_rq_complete pr rq st)) =
     (case rq_opcode rq of None \<Rightarrow> map_of (sk_inflight st) | Some opcode \<Rightarrow> (map_of (sk_inflight st))(rq_key rq opcode := None))"
  by (auto simp: block_rq_complete_def Let_def fun_upd_idem split: option.splits)

lemma complete_config [simp]: "kn_config (block_rq_complete pr rq st) = kn_config st"
  by (simp add: block_rq_complete_def Let_def split: option.splits)

text \<open>The record that a completion submits, if it does.\<close>

definition reported :: "probe \<Rightarrow> block_rq \<Rightarrow> sto_kernel \<Rightarrow> storage_event option" where
  "reported pr rq st =
     Option.bind (rq_opcode rq) (\<lambda>opcode.
     Option.bind (map_of (sk_inflight st) (rq_key rq opcode)) (\<lambda>val.
     Option.bind (hook_config TAPIO_F_STORAGE st) (\<lambda>cfg.
       if iv_ambiguous val \<noteq> 0 then None
       else map_option (io_event pr cfg rq (rq_key rq opcode) val)
              (io_severity cfg (br_error rq) (pr_now pr - iv_issue_ns val)))))"

lemma complete_ring:
  "kn_ring (block_rq_complete pr rq st) = kn_ring st
     @ (case reported pr rq st of None \<Rightarrow> [] | Some e \<Rightarrow> if pr_reserve pr then [storage_event_encode e] else [])"
  by (auto simp: block_rq_complete_def reported_def Let_def submit_ring split: option.splits)

text \<open>The kernel judges an event as the agent does.\<close>

lemma io_severity_agrees:
  assumes "io_severity cfg (se_error_code e) (se_latency_ns e) = Some (se_severity e)"
  shows "\<exists>a. sto_classify e = Some a
    \<and> (sa_severity a = SevCritical \<longleftrightarrow> se_severity e = STORAGE_SEVERITY_CRITICAL)
    \<and> (sa_event_type a = STORAGE_IO_ERROR \<longleftrightarrow> se_error_code e \<noteq> 0)"
  using assms
  by (auto simp: sto_classify_def has_error_def io_severity_def abi_constants STORAGE_IO_ERROR_def
      STORAGE_LATENCY_SPIKE_def split: if_splits)

section \<open>The requests themselves\<close>

text \<open>
  The requests that are in flight after a trace, with the time of their issue; and what a trace
  has to be for their latency to be exact: no request is issued on the key of another one in
  flight, and a completion has the key of its request.
\<close>

type_synonym flights = "(nat \<times> io_key \<times> u64) list"

fun track_request :: "sto_hook \<Rightarrow> flights \<Rightarrow> flights" where
  "track_request (Issue i rq pr room) fs =
     (case rq_opcode rq of None \<Rightarrow> fs | Some opcode \<Rightarrow> (i, rq_key rq opcode, pr_now pr) # fs)"
| "track_request (Complete i rq pr) fs = filter (\<lambda>(j, _). j \<noteq> i) fs"
| "track_request _ fs = fs"

fun fits :: "sto_hook \<Rightarrow> flights \<Rightarrow> bool" where
  "fits (Issue i rq pr room) fs =
     (case rq_opcode rq of None \<Rightarrow> True
      | Some opcode \<Rightarrow> list_all (\<lambda>(j, key, _). j \<noteq> i \<and> key \<noteq> rq_key rq opcode) fs)"
| "fits (Complete i rq pr) fs =
     (case rq_opcode rq of None \<Rightarrow> list_all (\<lambda>(j, _). j \<noteq> i) fs
      | Some opcode \<Rightarrow> list_all (\<lambda>(j, key, _). j = i \<longleftrightarrow> key = rq_key rq opcode) fs)"
| "fits _ fs = True"

fun one_at_a_time :: "sto_hook list \<Rightarrow> flights \<Rightarrow> bool" where
  "one_at_a_time [] fs = True"
| "one_at_a_time (h # hs) fs = (fits h fs \<and> one_at_a_time hs (track_request h fs))"

definition issue_time :: "flights \<Rightarrow> nat \<Rightarrow> u64 option" where
  "issue_time fs i = map_option snd (map_of fs i)"

text \<open>Every entry of the map is unambiguous and belongs to the one request in flight on its key.\<close>

definition matches :: "flights \<Rightarrow> sto_kernel \<Rightarrow> bool" where
  "matches fs st \<longleftrightarrow> distinct (map fst fs) \<and> distinct (map (fst \<circ> snd) fs)
     \<and> (\<forall>key val. map_of (sk_inflight st) key = Some val \<longrightarrow>
          iv_ambiguous val = 0 \<and> (\<exists>i. (i, key, iv_issue_ns val) \<in> set fs))"

lemma distinct_filter_fst: "distinct (map f fs) \<Longrightarrow> distinct (map f (filter P fs))"
  by (rule distinct_map_filter)

lemma matches_step:
  assumes "matches fs st" "fits h fs"
  shows "matches (track_request h fs) (sto_step h st)"
proof (cases h)
  case (Issue i rq pr room)
  show ?thesis
  proof (cases "rq_opcode rq")
    case None
    with assms Issue show ?thesis by (simp add: matches_def issue_inflight split: option.splits)
  next
    case (Some opcode)
    let ?key = "rq_key rq opcode"
    have new: "list_all (\<lambda>(j, key, _). j \<noteq> i \<and> key \<noteq> ?key) fs" using assms(2) Issue Some by simp
    have free: "map_of (sk_inflight st) ?key = None"
    proof (cases "map_of (sk_inflight st) ?key")
      case (Some val)
      with assms(1) obtain j where "(j, ?key, iv_issue_ns val) \<in> set fs" unfolding matches_def by blast
      with new show ?thesis by (auto simp: list_all_iff)
    qed
    have "distinct (map fst (track_request h fs))" "distinct (map (fst \<circ> snd) (track_request h fs))"
      using assms(1) new Issue Some by (auto simp: matches_def list_all_iff)
    with assms(1) free show ?thesis
      by (auto simp: matches_def Issue Some issue_inflight split: option.splits) blast+
  qed
next
  case (Complete i rq pr)
  show ?thesis
  proof (cases "rq_opcode rq")
    case None
    then have "track_request h fs = fs"
      using assms(2) Complete by (auto simp: list_all_iff intro!: filter_True)
    with assms(1) None Complete show ?thesis by (simp add: matches_def complete_inflight)
  next
    case (Some opcode)
    then have "list_all (\<lambda>(j, key, _). j = i \<longleftrightarrow> key = rq_key rq opcode) fs" using assms(2) Complete by simp
    then have "(j, key, t) \<in> set fs \<Longrightarrow> key \<noteq> rq_key rq opcode \<Longrightarrow> (j, key, t) \<in> set (track_request h fs)" for j key t
      using Complete by (auto simp: list_all_iff)
    moreover have "distinct (map fst (track_request h fs))" "distinct (map (fst \<circ> snd) (track_request h fs))"
      using assms(1) Complete by (auto simp: matches_def intro: distinct_filter_fst)
    ultimately show ?thesis
      using assms(1) unfolding matches_def by (auto simp: Complete Some complete_inflight) (metis (no_types))
  qed
next
  case (Evicted key)
  with assms(1) show ?thesis by (auto simp: matches_def)
next
  case (Configured cfg)
  with assms(1) show ?thesis by (simp add: matches_def write_config_def)
next
  case (Drained n)
  with assms(1) show ?thesis by (simp add: matches_def take_records_def)
qed

lemma matches_run:
  "matches fs st \<Longrightarrow> one_at_a_time hs fs \<Longrightarrow> matches (fold track_request hs fs) (fold sto_step hs st)"
  by (induction hs arbitrary: fs st) (simp_all add: matches_step)

lemma one_at_a_time_append: "one_at_a_time (xs @ ys) fs = (one_at_a_time xs fs \<and> one_at_a_time ys (fold track_request xs fs))"
  by (induction xs arbitrary: fs) auto

lemma matches_init: "matches [] (sto_kernel_init cpus)"
  by (simp add: matches_def sto_kernel_init_def kernel_state.defs)

lemma io_event_decodes: "sto_abi.read_struct (storage_event_encode (io_event pr cfg rq key val severity)) = Some (io_event pr cfg rq key val severity)"
  using sto_abi.read_encoded [of "io_event pr cfg rq key val severity" "[]"]
  by (simp add: storage_event_sized_def io_event_def)

interpretation sto_records: record_source sto_abi.read_struct sto_step "\<lambda>_. True"
proof
  fix h r and st :: sto_kernel
  assume r: "r \<in> set (kn_ring (sto_step h st))" "r \<notin> set (kn_ring st)"
  then show "sto_abi.read_struct r \<noteq> None"
  proof (cases h)
    case (Complete i rq pr)
    with r obtain e where "reported pr rq st = Some e" "r = storage_event_encode e"
      by (cases "reported pr rq st") (auto simp: complete_ring split: if_splits)
    then show ?thesis
      by (auto simp: reported_def bind_eq_Some_conv io_event_decodes split: if_splits)
  qed (auto simp: write_config_def dest: take_no_new)
qed

text \<open>What leaves the entry of a key as it is.\<close>

fun spares :: "io_key \<Rightarrow> sto_hook \<Rightarrow> bool" where
  "spares key (Issue i rq pr room) = (map_option (rq_key rq) (rq_opcode rq) \<noteq> Some key)"
| "spares key (Complete i rq pr) = (map_option (rq_key rq) (rq_opcode rq) \<noteq> Some key)"
| "spares key (Evicted key') = (key' \<noteq> key)"
| "spares key _ = True"

lemma spared: "spares key h \<Longrightarrow> map_of (sk_inflight (sto_step h st)) key = map_of (sk_inflight st) key"
  by (cases h) (auto simp: issue_inflight complete_inflight write_config_def take_records_def Let_def split: option.splits)

lemma spared_run:
  "list_all (spares key) hs \<Longrightarrow> map_of (sk_inflight (fold sto_step hs st)) key = map_of (sk_inflight st) key"
  by (induction hs arbitrary: st) (simp_all add: spared)

text \<open>The event of a request that was issued with room in the map and kept its key to itself.\<close>

lemma reported_of_issue:
  assumes "rq_opcode rq = Some opcode" "hook_config TAPIO_F_STORAGE st = Some cfg0"
    and "map_of (sk_inflight st) (rq_key rq opcode) = None" "list_all (spares (rq_key rq opcode)) hs"
    and "hook_config TAPIO_F_STORAGE (fold sto_step hs (block_rq_issue pr0 True rq st)) = Some cfg"
  obtains e where "reported pr (rq\<lparr>br_error := error\<rparr>) (fold sto_step hs (block_rq_issue pr0 True rq st))
      = map_option e (io_severity cfg error (pr_now pr - pr_now pr0))"
    "\<And>s. se_severity (e s) = s" "\<And>s. se_error_code (e s) = error" "\<And>s. se_latency_ns (e s) = pr_now pr - pr_now pr0"
    "\<And>s. se_config_generation (e s) = tc_generation cfg"
    "\<And>s. sto_abi.read_struct (storage_event_encode (e s)) = Some (e s)"
proof -
  define val where "val = \<lparr>iv_issue_ns = pr_now pr0, iv_cgroup_id = pr_cgroup pr0, iv_bytes = br_nr_sector rq * 512,
    iv_issuer_pid = current_pid pr0, iv_opcode = opcode, iv_ambiguous = 0\<rparr>"
  define rq' where "rq' = rq\<lparr>br_error := error\<rparr>"
  have same: "rq_opcode rq' = rq_opcode rq" "rq_key rq' opcode = rq_key rq opcode" "br_error rq' = error"
    by (simp_all add: rq_opcode_def rq_key_def rq'_def)
  have "map_of (sk_inflight (fold sto_step hs (block_rq_issue pr0 True rq st))) (rq_key rq opcode) = Some val"
    unfolding spared_run [OF assms(4)] using assms(1-3) by (simp add: issue_inflight Let_def val_def)
  then have "reported pr rq' (fold sto_step hs (block_rq_issue pr0 True rq st))
      = map_option (io_event pr cfg rq' (rq_key rq opcode) val) (io_severity cfg error (pr_now pr - pr_now pr0))"
    using assms(1,5) by (simp add: reported_def same) (simp add: val_def)
  then show ?thesis
    using io_event_decodes by (intro that [of "io_event pr cfg rq' (rq_key rq opcode) val"])
      (simp_all add: rq'_def [symmetric] io_event_decodes, simp_all add: io_event_def same val_def)
qed

section \<open>Properties\<close>

text \<open>
  C10: as long as no request is issued on the device, sector, size and direction of another one in
  flight, the event that a completion submits has the latency of its own request, whatever
  is evicted, drained or configured in between, and the severity of that latency.
\<close>

theorem io_latency_exact:
  assumes "one_at_a_time (hs @ [Complete i rq pr]) []"
  shows "let st = fold sto_step hs (sto_kernel_init cpus) in
     case drop (length (kn_ring st)) (kn_ring (sto_step (Complete i rq pr) st)) of
       [] \<Rightarrow> True
     | bytes # others \<Rightarrow> others = [] \<and>
         (case (sto_abi.read_struct bytes, issue_time (fold track_request hs []) i, hook_config TAPIO_F_STORAGE st) of
            (Some e, Some t, Some cfg) \<Rightarrow> se_latency_ns e = pr_now pr - t \<and> se_error_code e = br_error rq
              \<and> se_config_generation e = tc_generation cfg
              \<and> io_severity cfg (br_error rq) (pr_now pr - t) = Some (se_severity e)
          | _ \<Rightarrow> False)"
proof -
  define st where "st = fold sto_step hs (sto_kernel_init cpus)"
  define fs where "fs = fold track_request hs []"
  have inv: "matches fs st" and fit: "fits (Complete i rq pr) fs"
    using assms matches_run [OF matches_init] by (auto simp: one_at_a_time_append st_def fs_def)
  show ?thesis
  proof (cases "reported pr rq st")
    case (Some e)
    then obtain opcode val cfg severity where
      parts: "rq_opcode rq = Some opcode" "map_of (sk_inflight st) (rq_key rq opcode) = Some val"
      "hook_config TAPIO_F_STORAGE st = Some cfg"
      "io_severity cfg (br_error rq) (pr_now pr - iv_issue_ns val) = Some severity"
      and e: "e = io_event pr cfg rq (rq_key rq opcode) val severity"
      by (auto simp: reported_def bind_eq_Some_conv split: if_splits)
    from inv parts(2) obtain j where "(j, rq_key rq opcode, iv_issue_ns val) \<in> set fs" unfolding matches_def by blast
    moreover from this have "j = i" using fit parts(1) by (auto simp: list_all_iff)
    ultimately have "issue_time fs i = Some (iv_issue_ns val)"
      using inv by (simp add: issue_time_def matches_def)
    with Some parts io_event_decodes show ?thesis
      unfolding st_def [symmetric] fs_def [symmetric] by (simp add: Let_def complete_ring e) (simp add: io_event_def)
  next
    case None
    then show ?thesis unfolding st_def [symmetric] by (simp add: Let_def complete_ring)
  qed
qed

definition read_rq :: block_rq where
  "read_rq = \<lparr>br_dev = push_bit 20 8, br_sector = 100, br_nr_sector = 8, br_rwbs = ''R'', br_error = 0\<rparr>"

definition probe_at :: "u64 \<Rightarrow> probe" where
  "probe_at now = \<lparr>pr_cpu = 0, pr_now = now, pr_pid_tgid = 0, pr_cgroup = 1, pr_comm = ''dd'', pr_reserve = True\<rparr>"

definition slow_config :: tapio_config where
  "slow_config = tapio_config_default\<lparr>tc_abi_version := 2, tc_generation := 7, tc_flags := TAPIO_F_STORAGE,
     tc_slow_io_threshold_ns := 100, tc_io_latency_critical_ns := 1000\<rparr>"

lemma slow_config_enabled: "hook_config TAPIO_F_STORAGE (write_config slow_config st) = Some slow_config"
  by (simp add: hook_config_written slow_config_def tapio_config_sized_def tapio_config_default_def
      observer_enabled_def has_valid_abi_def TAPIO_CONFIG_ABI_VERSION_def TAPIO_F_STORAGE_def)

lemma read_rq_opcode: "rq_opcode read_rq = Some OP_READ"
  by (simp add: rq_opcode_def read_rq_def)

lemma io_latency_exact_witness:
  "let st = fold sto_step [Configured slow_config, Issue 1 read_rq (probe_at 100) True] (sto_kernel_init 1)
   in issue_time (fold track_request [Configured slow_config, Issue 1 read_rq (probe_at 100) True] []) 1 = Some 100
     \<and> length (kn_ring (sto_step (Complete 1 read_rq (probe_at 5100)) st)) \<le> 1"
proof -
  let ?hs = "[Configured slow_config, Issue 1 read_rq (probe_at 100) True]"
  have "one_at_a_time (?hs @ [Complete 1 read_rq (probe_at 5100)]) []" by (simp add: read_rq_opcode)
  from io_latency_exact [OF this, of 1]
  show ?thesis
    by (simp add: Let_def read_rq_opcode issue_time_def probe_at_def write_config_def sto_kernel_init_def
        kernel_state.defs kernel_init_def split: list.splits)
qed

text \<open>
  C26: the guard against ambiguous requests does not hold when a key is used three times: two
  requests in flight on a key, the first completes, a third is issued on it; the completion
  of the second then submits an event with the time since the third was issued.
\<close>

theorem reused_key_wrong_latency:
  assumes "rq_opcode rq = Some opcode" "hook_config TAPIO_F_STORAGE st = Some cfg"
    and "map_of (sk_inflight st) (rq_key rq opcode) = None" "pr_reserve pr5"
    and "io_severity cfg (br_error rq) (pr_now pr5 - pr_now pr4) = Some severity"
  shows "let hs = [Issue 1 rq pr1 True, Issue 2 rq pr2 True, Complete 1 rq pr3, Issue 3 rq pr4 True];
             st' = fold sto_step hs st
         in issue_time (fold track_request hs []) 2 = Some (pr_now pr2)
           \<and> map_option se_latency_ns (sto_abi.read_struct (last (kn_ring (sto_step (Complete 2 rq pr5) st'))))
               = Some (pr_now pr5 - pr_now pr4)"
proof -
  let ?k = "rq_key rq opcode"
  define s2 where "s2 = block_rq_issue pr2 True rq (block_rq_issue pr1 True rq st)"
  define s3 where "s3 = block_rq_complete pr3 rq s2"
  define s4 where "s4 = block_rq_issue pr4 True rq s3"
  have on: "hook_config TAPIO_F_STORAGE s4 = Some cfg" "hook_config TAPIO_F_STORAGE s3 = Some cfg"
    using assms(2) by (simp_all add: s4_def s3_def s2_def hook_config_def)
  have "map_of (sk_inflight s3) ?k = None" by (simp add: s3_def complete_inflight assms(1))
  then have "map_of (sk_inflight s4) ?k = Some \<lparr>iv_issue_ns = pr_now pr4, iv_cgroup_id = pr_cgroup pr4,
      iv_bytes = br_nr_sector rq * 512, iv_issuer_pid = current_pid pr4, iv_opcode = opcode, iv_ambiguous = 0\<rparr>"
    using on(2) by (simp add: s4_def issue_inflight assms(1) Let_def)
  then have "reported pr5 rq s4 = Some (io_event pr5 cfg rq ?k \<lparr>iv_issue_ns = pr_now pr4, iv_cgroup_id = pr_cgroup pr4,
      iv_bytes = br_nr_sector rq * 512, iv_issuer_pid = current_pid pr4, iv_opcode = opcode, iv_ambiguous = 0\<rparr> severity)"
    using on(1) assms(1,5) by (simp add: reported_def)
  then show ?thesis
    using assms(1,4)
    by (simp add: Let_def s2_def [symmetric] s3_def [symmetric] s4_def [symmetric] complete_ring io_event_decodes issue_time_def)
      (simp add: io_event_def)
qed

lemma reused_key_wrong_latency_witness:
  "map_option se_latency_ns (sto_abi.read_struct (last (kn_ring (fold sto_step
     [Issue 1 read_rq (probe_at 100) True, Issue 2 read_rq (probe_at 200) True, Complete 1 read_rq (probe_at 300),
      Issue 3 read_rq (probe_at 400) True, Complete 2 read_rq (probe_at 5200)]
     (write_config slow_config (sto_kernel_init 1)))))) = Some 4800"
proof -
  have free: "map_of (sk_inflight (write_config slow_config (sto_kernel_init 1))) key = None" for key
    by (simp add: write_config_def sto_kernel_init_def kernel_state.defs)
  have "io_severity slow_config (br_error read_rq) (pr_now (probe_at 5200) - pr_now (probe_at 400)) = Some STORAGE_SEVERITY_CRITICAL"
    by (simp add: io_severity_def slow_config_def read_rq_def probe_at_def)
  from reused_key_wrong_latency [OF read_rq_opcode slow_config_enabled free _ this, of "probe_at 100" "probe_at 200" "probe_at 300"]
  show ?thesis by (simp add: Let_def probe_at_def)
qed

end
