(* ===== verification/KernelContainer.thy ===== *)
theory KernelContainer
  imports Kernel Container
begin

text \<open>
  \<open>ebpf/container_monitor.c\<close>: OOM kills and abnormal process exits. What the program reads of
  the current task is a parameter.
\<close>

section \<open>OOM kills\<close>

record oom_victim =
  ov_pid :: i32
  ov_anon_rss :: u64
  ov_file_rss :: u64
  ov_shmem_rss :: u64

definition oom_kill_event :: "probe \<Rightarrow> tapio_config \<Rightarrow> oom_victim \<Rightarrow> container_event" where
  "oom_kill_event pr cfg victim =
     \<lparr>ce_config_generation = tc_generation cfg, ce_memory_limit = 0,
      ce_memory_usage = (ov_anon_rss victim + ov_file_rss victim + ov_shmem_rss victim) * 4096,
      ce_timestamp_ns = pr_now pr, ce_cgroup_id = 0, ce_event_type = CONTAINER_EVENT_OOM,
      ce_pid = ov_pid victim, ce_tid = 0, ce_exit_code = 137, ce_signal = 9\<rparr>"

definition handle_oom :: "probe \<Rightarrow> oom_victim \<Rightarrow> kernel_state \<Rightarrow> kernel_state" where
  "handle_oom pr victim st =
     (case hook_config TAPIO_F_CONTAINER st of
        None \<Rightarrow> st
      | Some cfg \<Rightarrow> submit pr (container_event_encode (oom_kill_event pr cfg victim)) st)"

section \<open>Exits\<close>

text \<open>The loop over the array of ignored codes, with its index.\<close>

fun exit_ignored :: "i32 list \<Rightarrow> u32 \<Rightarrow> u32 \<Rightarrow> i32 \<Rightarrow> bool" where
  "exit_ignored [] i count code = False"
| "exit_ignored (c # cs) i count code =
     (if i \<ge> count then False else if c = code then True else exit_ignored cs (i + 1) count code)"

definition exit_event :: "probe \<Rightarrow> tapio_config \<Rightarrow> i32 \<Rightarrow> i32 \<Rightarrow> i32 \<Rightarrow> container_event" where
  "exit_event pr cfg pid code sig =
     \<lparr>ce_config_generation = tc_generation cfg, ce_memory_limit = 0, ce_memory_usage = 0,
      ce_timestamp_ns = pr_now pr, ce_cgroup_id = pr_cgroup pr, ce_event_type = CONTAINER_EVENT_EXIT,
      ce_pid = pid, ce_tid = ucast (pr_pid_tgid pr AND 0xFFFFFFFF), ce_exit_code = code, ce_signal = sig\<rparr>"

text \<open>\<open>task\<close> is the \<open>exit_code\<close> of the current task, \<open>None\<close> when it cannot be read.\<close>

definition handle_exit :: "probe \<Rightarrow> i32 \<Rightarrow> u32 option \<Rightarrow> kernel_state \<Rightarrow> kernel_state" where
  "handle_exit pr pid task st =
     (case hook_config TAPIO_F_CONTAINER st of
        None \<Rightarrow> st
      | Some cfg \<Rightarrow>
     (case task of
        None \<Rightarrow> st
      | Some exit_code \<Rightarrow>
          (let code = drop_bit 8 exit_code; sig = exit_code AND 0x7F
           in if code = 0 \<and> sig = 0 then st
              else if exit_ignored (tc_ignore_exit_codes cfg) 0
                        (tapio_clamp_ignore_exit_count (tc_ignore_exit_count cfg)) code then st
              else submit pr (container_event_encode (exit_event pr cfg pid code sig)) st)))"

section \<open>Lemmas\<close>

lemma exit_ignored_from:
  "unat i + length cs < 2 ^ 32 \<Longrightarrow> exit_ignored cs i count code \<longleftrightarrow> code \<in> set (take (unat count - unat i) cs)"
proof (induction cs i count code rule: exit_ignored.induct)
  case (2 c cs i count code)
  show ?case
  proof (cases "i \<ge> count")
    case True
    then show ?thesis by (simp add: word_le_nat_alt)
  next
    case False
    then have "unat (i + 1) = unat i + 1" "unat count - unat i = Suc (unat count - (unat i + 1))"
      using 2(2) by (simp_all add: unat_word_ariths word_le_nat_alt)
    with False 2 show ?thesis by auto
  qed
qed simp

lemma exit_ignored_iff:
  assumes "length codes = 16"
  shows "exit_ignored codes 0 (tapio_clamp_ignore_exit_count count) code \<longleftrightarrow> code \<in> set (take (unat count) codes)"
proof -
  have "take (unat (tapio_clamp_ignore_exit_count count)) codes = take (unat count) codes"
    using assms by (auto simp: tapio_clamp_ignore_exit_count_def TAPIO_CONFIG_MAX_IGNORE_EXIT_CODES_def
        word_le_nat_alt word_less_nat_alt)
  then show ?thesis using exit_ignored_from [of 0 codes] assms by simp
qed

lemma config_codes_length: "hook_config flag st = Some cfg \<Longrightarrow> length (tc_ignore_exit_codes cfg) = 16"
proof -
  assume "hook_config flag st = Some cfg"
  then have "cfg = tapio_config_decode (kn_config st)" by (rule hook_config_Some [THEN conjunct1])
  moreover have "length (get_array n off bs :: u32 list) = n" for n off bs
    by (induction n arbitrary: off) simp_all
  ultimately show ?thesis by (simp add: tapio_config_decode_def)
qed

text \<open>What an exit adds to the ring buffer.\<close>

lemma handle_exit_ring:
  assumes "hook_config TAPIO_F_CONTAINER st = Some cfg"
  shows "kn_ring (handle_exit pr pid (Some raw) st) = kn_ring st
    @ (if (drop_bit 8 raw = 0 \<and> raw AND 0x7F = 0)
          \<or> drop_bit 8 raw \<in> set (take (unat (tc_ignore_exit_count cfg)) (tc_ignore_exit_codes cfg))
          \<or> \<not> pr_reserve pr
       then [] else [container_event_encode (exit_event pr cfg pid (drop_bit 8 raw) (raw AND 0x7F))])"
  using assms exit_ignored_iff [OF config_codes_length [OF assms]]
  by (simp add: handle_exit_def Let_def submit_ring)

lemma handle_oom_ring:
  "kn_ring (handle_oom pr victim st) = kn_ring st
     @ (case hook_config TAPIO_F_CONTAINER st of
          None \<Rightarrow> []
        | Some cfg \<Rightarrow> if pr_reserve pr then [container_event_encode (oom_kill_event pr cfg victim)] else [])"
  by (simp add: handle_oom_def submit_ring split: option.splits)

lemma container_event_decodes: "con_abi.read_struct (container_event_encode e) = Some e"
  using con_abi.read_encoded [of e "[]"] by (simp add: container_event_sized_def)

section \<open>Histories\<close>

datatype con_hook =
    OomKill oom_victim probe
  | Exit i32 "u32 option" probe
  | ConConfigured tapio_config
  | ConDrained nat

fun con_step :: "con_hook \<Rightarrow> kernel_state \<Rightarrow> kernel_state" where
  "con_step (OomKill victim pr) st = handle_oom pr victim st"
| "con_step (Exit pid task pr) st = handle_exit pr pid task st"
| "con_step (ConConfigured cfg) st = write_config cfg st"
| "con_step (ConDrained n) st = take_records n st"

interpretation con_records: record_source con_abi.read_struct con_step "\<lambda>_. True"
proof
  fix h r and st :: kernel_state
  assume r: "r \<in> set (kn_ring (con_step h st))" "r \<notin> set (kn_ring st)"
  then show "con_abi.read_struct r \<noteq> None"
  proof (cases h)
    case (OomKill victim pr)
    with r show ?thesis by (auto simp: handle_oom_ring container_event_decodes split: option.splits if_splits)
  next
    case (Exit pid task pr)
    with r show ?thesis
      by (auto simp: handle_exit_def Let_def container_event_decodes dest: submit_new split: option.splits if_splits)
  qed (auto simp: write_config_def dest: take_no_new)
qed

end
