(* ===== verification/KernelPmc.thy ===== *)
theory KernelPmc
  imports Kernel NodePmc
begin

text \<open>
  \<open>ebpf/node_pmc_monitor.c\<close>: a sample of the three hardware counters of a CPU, ten times a
  second. The counters run from when the agent opened them; a reading is a parameter,
  \<open>None\<close> when the read fails.
\<close>

record pmc_readings =
  pm_cycles :: "u64 option"
  pm_instructions :: "u64 option"
  pm_stalls :: "u64 option"

text \<open>A signed 64-bit value, -1 for an error.\<close>

definition read_pmc :: "u64 option \<Rightarrow> u64" where
  "read_pmc reading = (case reading of None \<Rightarrow> - 1 | Some counter \<Rightarrow> counter)"

definition sample_pmc :: "probe \<Rightarrow> pmc_readings \<Rightarrow> kernel_state \<Rightarrow> kernel_state" where
  "sample_pmc pr readings st =
     (case hook_config TAPIO_F_NODE_PMC st of
        None \<Rightarrow> st
      | Some cfg \<Rightarrow>
          if \<not> pr_reserve pr then st\<lparr>kn_lost := metric_inc (pr_cpu pr) (kn_lost st)\<rparr>
          else (let cycles = read_pmc (pm_cycles readings); instructions = read_pmc (pm_instructions readings);
                    stalls = read_pmc (pm_stalls readings)
                in if sint cycles < 0 \<or> sint instructions < 0 then st
                   else st\<lparr>kn_ring := kn_ring st @ [pmc_event_encode
                          \<lparr>pe_config_generation = tc_generation cfg, pe_cpu = of_nat (pr_cpu pr), pe_cycles = cycles,
                           pe_instructions = instructions, pe_stall_cycles = (if sint stalls < 0 then 0 else stalls),
                           pe_timestamp = pr_now pr\<rparr>]\<rparr>))"

lemma pmc_event_decodes: "pmc_abi.read_struct (pmc_event_encode e) = Some e"
  using pmc_abi.read_encoded [of e "[]"] by (simp add: pmc_event_sized_def)

section \<open>Histories\<close>

datatype pmc_hook =
    Sample pmc_readings probe
  | PmcConfigured tapio_config
  | PmcDrained nat

fun pmc_step :: "pmc_hook \<Rightarrow> kernel_state \<Rightarrow> kernel_state" where
  "pmc_step (Sample readings pr) st = sample_pmc pr readings st"
| "pmc_step (PmcConfigured cfg) st = write_config cfg st"
| "pmc_step (PmcDrained n) st = take_records n st"

interpretation pmc_records: record_source pmc_abi.read_struct pmc_step "\<lambda>_. True"
proof
  fix h r and st :: kernel_state
  assume r: "r \<in> set (kn_ring (pmc_step h st))" "r \<notin> set (kn_ring st)"
  then show "pmc_abi.read_struct r \<noteq> None"
    by (cases h) (auto simp: sample_pmc_def Let_def pmc_event_decodes write_config_def dest: take_no_new
        split: option.splits if_splits)
qed

section \<open>What a sample reports\<close>

lemma sample_pmc_ring:
  assumes "hook_config TAPIO_F_NODE_PMC st = Some cfg" "pr_reserve pr"
    and "sint cycles \<ge> 0" "sint instructions \<ge> 0" "sint stalls \<ge> 0"
  shows "sample_pmc pr \<lparr>pm_cycles = Some cycles, pm_instructions = Some instructions, pm_stalls = Some stalls\<rparr> st
    = st\<lparr>kn_ring := kn_ring st @ [pmc_event_encode
        \<lparr>pe_config_generation = tc_generation cfg, pe_cpu = of_nat (pr_cpu pr), pe_cycles = cycles,
         pe_instructions = instructions, pe_stall_cycles = stalls, pe_timestamp = pr_now pr\<rparr>]\<rparr>"
  using assms by (simp add: sample_pmc_def read_pmc_def Let_def)

text \<open>The operations on counters that binary64 represents exactly.\<close>

lemma u64_small:
  assumes "unat w < 2 ^ 53"
  shows "f64_of_u64 w = Fin (of_nat (unat w))" "0 \<le> sint w"
proof -
  have "fl (of_nat n) = Fin (of_nat n)" if "n < 2 ^ 53" for n
    using fl_bounded(1) [of "of_nat n" n] that rn_of_nat [OF that] by simp
  from this [OF assms] show "f64_of_u64 w = Fin (of_nat (unat w))" by (simp only: f64_of_u64_def)
  have "int (unat w) < int (2 ^ 53)" using assms by (simp only: of_nat_less_iff)
  then have "uint w < 2 ^ 53" by simp
  moreover have "- (2 ^ 63) \<le> uint w" by (rule order_trans [OF _ uint_ge_0]) simp
  ultimately have "signed_take_bit 63 (uint w) = uint w" by (intro signed_take_bit_int_eq_self) simp_all
  then show "0 \<le> sint w" by (simp add: sint_uint)
qed

lemma percent_low:
  assumes "0 < c" "8 * s \<le> c"
  shows "\<exists>p. fmul (fdiv (Fin (of_nat s)) (Fin (of_nat c))) (Fin 100) = Fin p \<and> p \<le> 13"
proof -
  have "(of_nat (8 * s) :: rat) \<le> of_nat c" using assms(2) by (simp only: of_nat_le_iff)
  then have q: "0 \<le> (of_nat s / of_nat c :: rat)" "(of_nat s / of_nat c :: rat) \<le> 1 / 8"
    using assms(1) by (simp_all add: field_simps)
  define r where "r = rn (of_nat s / of_nat c)"
  have eighth: "rn (1 / 8) \<le> 1 / 8"
  proof -
    have p: "(2::rat) powi (- 3) = 1 / 8" by (simp add: power_int_minus)
    have "expo (1 / 8) = - 3" by (rule expo_eqI) (simp_all add: p power_int_minus)
    then have "rn_pos (1 / 8) \<le> 2 powi (- 3)" by (intro rn_pos_le_pow) (simp_all add: p ulp_expo_def)
    then show ?thesis by (simp add: rn_def p)
  qed
  have r: "fl (of_nat s / of_nat c) = Fin r" "0 \<le> r" "r \<le> 1 / 8"
    using fl_bounded(1,2) [of "of_nat s / of_nat c" 1] rn_mono [OF q(2)] q eighth by (simp_all add: r_def)
  then have "0 \<le> r * 100" "r * 100 \<le> of_nat 13" by simp_all
  then have "fl (r * 100) = Fin (rn (r * 100))" "rn (r * 100) \<le> 13"
    using fl_bounded(1,3) [of "r * 100" 13] by simp_all
  then show ?thesis using assms r by simp
qed

lemma stall_pct_low:
  assumes "unat (pe_cycles e) < 2 ^ 53" "8 * unat (pe_stall_cycles e) \<le> unat (pe_cycles e)"
  shows "\<exists>p. stall_pct e = Fin p \<and> p \<le> 13"
proof (cases "pe_cycles e = 0")
  case False
  then have "0 < unat (pe_cycles e)" by (simp add: unat_gt_0)
  then have "\<exists>p. fmul (fdiv (Fin (of_nat (unat (pe_stall_cycles e)))) (Fin (of_nat (unat (pe_cycles e))))) (Fin 100) = Fin p
      \<and> p \<le> 13"
    using assms(2) by (rule percent_low)
  moreover have "unat (pe_stall_cycles e) < 2 ^ 53" using assms by linarith
  ultimately show ?thesis using False assms(1) by (simp only: stall_pct_def u64_small if_False)
qed (simp add: stall_pct_def)

lemma quotient_high:
  assumes "0 < c" "c \<le> i" "i < 2 ^ 53"
  shows "\<exists>p. fdiv (Fin (of_nat i)) (Fin (of_nat c)) = Fin p \<and> 1 \<le> p"
proof -
  have "(1::rat) \<le> of_nat c" using assms(1) by (metis of_nat_1 of_nat_le_iff Suc_leI One_nat_def)
  moreover have "(of_nat c :: rat) \<le> of_nat i" using assms(2) by (simp only: of_nat_le_iff)
  ultimately have q: "0 \<le> (of_nat i / of_nat c :: rat)" "1 \<le> (of_nat i / of_nat c :: rat)"
    by (simp_all add: field_simps)
  have "(of_nat i / of_nat c :: rat) \<le> of_nat i / 1"
    using \<open>1 \<le> of_nat c\<close> by (intro divide_left_mono) simp_all
  then have "fl (of_nat i / of_nat c) = Fin (rn (of_nat i / of_nat c))"
    using fl_bounded(1) [of "of_nat i / of_nat c" i] q assms(3) by simp
  moreover have "1 \<le> rn (of_nat i / of_nat c)" using rn_mono [OF q(2)] rn_of_nat [of 1] by simp
  ultimately show ?thesis using assms(1) by simp
qed

lemma ipc_high:
  assumes "unat (pe_instructions e) < 2 ^ 53" "unat (pe_cycles e) \<le> unat (pe_instructions e)" "0 < unat (pe_cycles e)"
  shows "\<exists>p. ipc e = Fin p \<and> 1 \<le> p"
proof -
  have "\<exists>p. fdiv (Fin (of_nat (unat (pe_instructions e)))) (Fin (of_nat (unat (pe_cycles e)))) = Fin p \<and> 1 \<le> p"
    using assms(3,2,1) by (rule quotient_high)
  moreover have "unat (pe_cycles e) < 2 ^ 53" "pe_cycles e \<noteq> 0" using assms by auto
  ultimately show ?thesis using assms(1) by (simp only: ipc_def u64_small if_False)
qed

lemma stall_pct_full:
  assumes "0 < unat (pe_cycles e)" "unat (pe_cycles e) < 2 ^ 53" "pe_stall_cycles e = pe_cycles e"
  shows "stall_pct e = Fin 100"
proof -
  have units: "fl 1 = Fin 1" "fl 100 = Fin 100"
    using fl_bounded(1) [of 1 1] fl_bounded(1) [of 100 100] rn_of_nat [of 1] rn_of_nat [of 100] by simp_all
  have "fmul (fdiv (Fin (of_nat n)) (Fin (of_nat n))) (Fin 100) = Fin 100" if "0 < n" for n
    using that by (simp add: units)
  from this [OF assms(1)] have "fmul (fdiv (f64_of_u64 (pe_cycles e)) (f64_of_u64 (pe_cycles e))) (Fin 100) = Fin 100"
    by (simp only: u64_small(1) [OF assms(2)])
  moreover have "pe_cycles e \<noteq> 0" using assms(1) by auto
  ultimately show ?thesis using assms(3) by (simp add: stall_pct_def)
qed

section \<open>Properties\<close>



end
