(* ===== verification/KernelNetwork.thy ===== *)
theory KernelNetwork
  imports Kernel Network "HOL-Library.AList"
begin

text \<open>
  \<open>ebpf/network_monitor.c\<close>, with the keys of \<open>ebpf/headers/conn_tracking.h\<close>: TCP state changes,
  resets and retransmissions, and the round-trip times that are learned from them. What a program
  reads of the socket is a parameter, \<open>None\<close> when the read fails; the entries that the kernel
  evicts from the map of baselines are inputs.
\<close>

section \<open>State\<close>

record conn_key =
  ck_saddr :: string
  ck_daddr :: string
  ck_sport :: u16
  ck_dport :: u16
  ck_family :: u8

record rtt_baseline =
  rb_baseline_us :: u32
  rb_sample_count :: u8
  rb_state :: u8
  rb_last_update_ns :: u64
  rb_last_activity_ns :: u64

record net_kernel = kernel_state +
  nk_baselines :: "(conn_key \<times> rtt_baseline) list"

text \<open>The part of their arguments that the three tracepoints share.\<close>

record tcp_args =
  ta_sport :: u16
  ta_dport :: u16
  ta_family :: u16
  ta_saddr :: string
  ta_daddr :: string
  ta_saddr_v6 :: string
  ta_daddr_v6 :: string

record set_state_args = tcp_args +
  ss_oldstate :: i32
  ss_newstate :: i32
  ss_protocol :: u16
  ss_srtt_us :: "u32 option"

text \<open>The socket of a retransmission, if the tracepoint has one: two of its fields.\<close>

record retransmit_args = tcp_args +
  rt_sock :: "(u32 option \<times> u32 option) option"

definition RTT_STATE_LEARNING :: u8 where "RTT_STATE_LEARNING = 1"
definition RTT_STATE_STABLE :: u8 where "RTT_STATE_STABLE = 2"
definition STALE_THRESHOLD_NS :: u64 where "STALE_THRESHOLD_NS = 3600000000000"
definition IPPROTO_TCP :: u16 where "IPPROTO_TCP = 6"

definition net_kernel_init :: "nat \<Rightarrow> net_kernel" where
  "net_kernel_init cpus = kernel_state.extend (kernel_init cpus) \<lparr>nk_baselines = []\<rparr>"

section \<open>Keys and events\<close>

definition fill_conn_key_v4 :: "string \<Rightarrow> string \<Rightarrow> u16 \<Rightarrow> u16 \<Rightarrow> conn_key" where
  "fill_conn_key_v4 saddr daddr sport dport =
     \<lparr>ck_saddr = replicate 10 (CHR 0x00) @ [CHR 0xFF, CHR 0xFF] @ saddr,
      ck_daddr = replicate 10 (CHR 0x00) @ [CHR 0xFF, CHR 0xFF] @ daddr,
      ck_sport = sport, ck_dport = dport, ck_family = ucast AF_INET\<rparr>"

definition fill_conn_key_v6 :: "string \<Rightarrow> string \<Rightarrow> u16 \<Rightarrow> u16 \<Rightarrow> conn_key" where
  "fill_conn_key_v6 saddr daddr sport dport =
     \<lparr>ck_saddr = saddr, ck_daddr = daddr, ck_sport = sport, ck_dport = dport, ck_family = ucast AF_INET6\<rparr>"

definition conn_key_of :: "'m tcp_args_scheme \<Rightarrow> conn_key option" where
  "conn_key_of a =
     (if ta_family a = AF_INET then Some (fill_conn_key_v4 (ta_saddr a) (ta_daddr a) (ta_sport a) (ta_dport a))
      else if ta_family a = AF_INET6
        then Some (fill_conn_key_v6 (ta_saddr_v6 a) (ta_daddr_v6 a) (ta_sport a) (ta_dport a))
      else None)"

text \<open>What every event has; an IPv4 address is copied as its four bytes.\<close>

definition net_event :: "probe \<Rightarrow> tapio_config \<Rightarrow> 'm tcp_args_scheme \<Rightarrow> u8 \<Rightarrow> u8 \<Rightarrow> network_event" where
  "net_event pr cfg a protocol event_type =
     \<lparr>ne_config_generation = tc_generation cfg, ne_pid = current_pid pr,
      ne_src_ip = (if ta_family a = AF_INET then get_le 0 (ta_saddr a) else 0),
      ne_dst_ip = (if ta_family a = AF_INET then get_le 0 (ta_daddr a) else 0),
      ne_src_ipv6 = (if ta_family a = AF_INET6 then ta_saddr_v6 a else replicate 16 (CHR 0x00)),
      ne_dst_ipv6 = (if ta_family a = AF_INET6 then ta_daddr_v6 a else replicate 16 (CHR 0x00)),
      ne_src_port = ta_sport a, ne_dst_port = ta_dport a, ne_family = ta_family a,
      ne_protocol = protocol, ne_event_type = event_type, ne_old_state = 0, ne_new_state = 0,
      ne_rtt_baseline_ms = 0, ne_rtt_current_ms = 0, ne_total_retrans = 0, ne_snd_cwnd = 0,
      ne_comm = current_comm pr\<rparr>"

definition clamp_u16 :: "u32 \<Rightarrow> u16" where
  "clamp_u16 w = (if w > 65535 then 65535 else ucast w)"

section \<open>Round-trip times\<close>

definition next_count :: "u8 \<Rightarrow> u8" where
  "next_count count = (if count < 255 then count + 1 else count)"

definition rtt_learn :: "tapio_config \<Rightarrow> u32 \<Rightarrow> rtt_baseline \<Rightarrow> rtt_baseline" where
  "rtt_learn cfg rtt_us b =
     (let count = next_count (rb_sample_count b);
          us = (rb_baseline_us b * (ucast count - 1) + rtt_us) div ucast count;
          learning_samples = (if tc_rtt_min_baseline_samples cfg > 255 then 255 else tc_rtt_min_baseline_samples cfg);
          learned = b\<lparr>rb_sample_count := count, rb_baseline_us := us\<rparr>
      in if learning_samples > 0 \<and> ucast count \<ge> learning_samples
         then (if us > 100000
               then learned\<lparr>rb_sample_count := 0, rb_baseline_us := 0, rb_state := RTT_STATE_LEARNING\<rparr>
               else learned\<lparr>rb_state := RTT_STATE_STABLE\<rparr>)
         else learned)"

definition rtt_refresh :: "u64 \<Rightarrow> u32 \<Rightarrow> rtt_baseline \<Rightarrow> rtt_baseline" where
  "rtt_refresh now_ns rtt_us b =
     (if now_ns - rb_last_update_ns b > STALE_THRESHOLD_NS
      then b\<lparr>rb_baseline_us := (rb_baseline_us b * 9 + rtt_us) div 10, rb_last_update_ns := now_ns\<rparr> else b)"

definition rtt_spike :: "tapio_config \<Rightarrow> u32 \<Rightarrow> rtt_baseline \<Rightarrow> bool" where
  "rtt_spike cfg rtt_us b \<longleftrightarrow>
     tc_rtt_spike_multiplier cfg > 0 \<and> rtt_us > rb_baseline_us b * tc_rtt_spike_multiplier cfg
     \<or> tc_rtt_spike_abs_us cfg > 0 \<and> rtt_us > tc_rtt_spike_abs_us cfg"

definition rtt_spike_event :: "probe \<Rightarrow> tapio_config \<Rightarrow> set_state_args \<Rightarrow> u32 \<Rightarrow> rtt_baseline \<Rightarrow> network_event" where
  "rtt_spike_event pr cfg a rtt_us b =
     (net_event pr cfg a (ucast (ss_protocol a)) NET_EVENT_RTT_SPIKE)
       \<lparr>ne_rtt_baseline_ms := clamp_u16 (rb_baseline_us b div 1000), ne_rtt_current_ms := clamp_u16 (rtt_us div 1000)\<rparr>"

definition set_baseline :: "conn_key \<Rightarrow> rtt_baseline \<Rightarrow> net_kernel \<Rightarrow> net_kernel" where
  "set_baseline key b st = st\<lparr>nk_baselines := AList.update key b (nk_baselines st)\<rparr>"

text \<open>
  The tracking of round-trip times, up to the label \<open>skip_rtt_tracking\<close>. \<open>room\<close>: the map can take
  a new entry; \<open>pr\<close> says whether the ring buffer has room for the event of a spike.
\<close>

definition track_rtt :: "probe \<Rightarrow> bool \<Rightarrow> tapio_config \<Rightarrow> set_state_args \<Rightarrow> net_kernel \<Rightarrow> net_kernel" where
  "track_rtt pr room cfg a st =
     (case (ss_srtt_us a, conn_key_of a) of
        (Some srtt_us, Some key) \<Rightarrow>
          (let rtt_us = drop_bit 3 srtt_us; now_ns = pr_now pr in
           if \<not> (ss_newstate a = ucast TCP_ESTABLISHED \<and> rtt_us > 0) then st
           else (case map_of (nk_baselines st) key of
               None \<Rightarrow>
                 if room then set_baseline key
                   \<lparr>rb_baseline_us = rtt_us, rb_sample_count = 1, rb_state = RTT_STATE_LEARNING,
                    rb_last_update_ns = now_ns, rb_last_activity_ns = now_ns\<rparr> st
                 else st
             | Some found \<Rightarrow>
                 (let b = found\<lparr>rb_last_activity_ns := now_ns\<rparr> in
                  if rb_state b = RTT_STATE_LEARNING then set_baseline key (rtt_learn cfg rtt_us b) st
                  else if rb_state b = RTT_STATE_STABLE then
                    (let b' = rtt_refresh now_ns rtt_us b; st' = set_baseline key b' st
                     in if rtt_spike cfg rtt_us b'
                        then submit pr (network_event_encode (rtt_spike_event pr cfg a rtt_us b')) st'
                        else st')
                  else set_baseline key b st)))
      | _ \<Rightarrow> st)"

section \<open>The three programs\<close>

definition state_change_event :: "probe \<Rightarrow> tapio_config \<Rightarrow> set_state_args \<Rightarrow> network_event" where
  "state_change_event pr cfg a =
     (net_event pr cfg a (ucast (ss_protocol a)) NET_EVENT_STATE_CHANGE)
       \<lparr>ne_old_state := ucast (ss_oldstate a), ne_new_state := ucast (ss_newstate a)\<rparr>"

definition important_transition :: "set_state_args \<Rightarrow> bool" where
  "important_transition a \<longleftrightarrow> ss_oldstate a \<noteq> ss_newstate a
     \<and> (ss_newstate a = ucast TCP_CLOSE \<or> ss_oldstate a = ucast TCP_SYN_SENT
        \<or> ss_oldstate a = ucast TCP_SYN_RECV \<or> ss_newstate a = ucast TCP_LISTEN)"

text \<open>\<open>spike_reserve\<close> and \<open>pr_reserve\<close> are the answers of the two reservations.\<close>

definition trace_inet_sock_set_state :: "probe \<Rightarrow> bool \<Rightarrow> bool \<Rightarrow> set_state_args \<Rightarrow> net_kernel \<Rightarrow> net_kernel" where
  "trace_inet_sock_set_state pr spike_reserve room a st =
     (case hook_config TAPIO_F_NETWORK st of
        None \<Rightarrow> st
      | Some cfg \<Rightarrow>
          if ss_protocol a \<noteq> IPPROTO_TCP then st
          else (let st' = track_rtt (pr\<lparr>pr_reserve := spike_reserve\<rparr>) room cfg a st
                in if important_transition a then submit pr (network_event_encode (state_change_event pr cfg a)) st'
                   else st'))"

definition trace_tcp_receive_reset :: "probe \<Rightarrow> tcp_args \<Rightarrow> net_kernel \<Rightarrow> net_kernel" where
  "trace_tcp_receive_reset pr a st =
     (case hook_config TAPIO_F_NETWORK st of
        None \<Rightarrow> st
      | Some cfg \<Rightarrow> submit pr (network_event_encode (net_event pr cfg a (ucast IPPROTO_TCP) NET_EVENT_RST_RECEIVED)) st)"

definition retransmit_event :: "probe \<Rightarrow> tapio_config \<Rightarrow> retransmit_args \<Rightarrow> u32 \<Rightarrow> u32 \<Rightarrow> network_event" where
  "retransmit_event pr cfg a total_retrans snd_cwnd =
     (net_event pr cfg a (ucast IPPROTO_TCP) NET_EVENT_RETRANSMIT)
       \<lparr>ne_total_retrans := clamp_u16 total_retrans, ne_snd_cwnd := clamp_u16 snd_cwnd\<rparr>"

text \<open>\<open>read_snd_cwnd\<close> leaves zero when the read fails; a failed read of the other field discards the event.\<close>

definition read_snd_cwnd :: "u32 option \<Rightarrow> u32" where
  "read_snd_cwnd cwnd = (case cwnd of None \<Rightarrow> 0 | Some w \<Rightarrow> w)"

definition trace_tcp_retransmit_skb :: "probe \<Rightarrow> retransmit_args \<Rightarrow> net_kernel \<Rightarrow> net_kernel" where
  "trace_tcp_retransmit_skb pr a st =
     (case hook_config TAPIO_F_NETWORK st of
        None \<Rightarrow> st
      | Some cfg \<Rightarrow>
          if \<not> pr_reserve pr then st\<lparr>kn_lost := metric_inc (pr_cpu pr) (kn_lost st)\<rparr>
          else (case rt_sock a of
              None \<Rightarrow> submit pr (network_event_encode (retransmit_event pr cfg a 0 0)) st
            | Some (None, _) \<Rightarrow> st
            | Some (Some total_retrans, cwnd) \<Rightarrow>
                submit pr (network_event_encode (retransmit_event pr cfg a total_retrans (read_snd_cwnd cwnd))) st))"

text \<open>What can happen to the programs' maps.\<close>

datatype net_hook =
    SetState set_state_args probe bool bool
  | ReceiveReset tcp_args probe
  | Retransmit retransmit_args probe
  | NetEvicted conn_key
  | NetConfigured tapio_config
  | NetDrained nat

fun net_step :: "net_hook \<Rightarrow> net_kernel \<Rightarrow> net_kernel" where
  "net_step (SetState a pr spike_reserve room) st = trace_inet_sock_set_state pr spike_reserve room a st"
| "net_step (ReceiveReset a pr) st = trace_tcp_receive_reset pr a st"
| "net_step (Retransmit a pr) st = trace_tcp_retransmit_skb pr a st"
| "net_step (NetEvicted key) st = st\<lparr>nk_baselines := AList.delete key (nk_baselines st)\<rparr>"
| "net_step (NetConfigured cfg) st = write_config cfg st"
| "net_step (NetDrained n) st = take_records n st"

section \<open>Lemmas on the programs\<close>

lemma net_updates [simp]:
  "kn_config (set_baseline key b st) = kn_config st" "kn_ring (set_baseline key b st) = kn_ring st"
  "map_of (nk_baselines (set_baseline key b st)) = (map_of (nk_baselines st))(key \<mapsto> b)"
  "nk_baselines (submit pr event st) = nk_baselines st"
  by (simp_all add: set_baseline_def update_conv' submit_def)

text \<open>The arrays of the tracepoints' arguments have a fixed size, so every event decodes.\<close>

definition args_sized :: "'m tcp_args_scheme \<Rightarrow> bool" where
  "args_sized a \<longleftrightarrow> length (ta_saddr a) = 4 \<and> length (ta_daddr a) = 4
     \<and> length (ta_saddr_v6 a) = 16 \<and> length (ta_daddr_v6 a) = 16"

lemma network_event_decodes: "network_event_sized e \<Longrightarrow> net_abi.read_struct (network_event_encode e) = Some e"
  using net_abi.read_encoded [of e "[]"] by simp

lemma net_event_sized:
  "args_sized a'' \<Longrightarrow> network_event_sized (net_event pr cfg a'' p t)"
  "args_sized a \<Longrightarrow> network_event_sized (rtt_spike_event pr cfg a r b)"
  "args_sized a \<Longrightarrow> network_event_sized (state_change_event pr cfg a)"
  "args_sized a' \<Longrightarrow> network_event_sized (retransmit_event pr cfg a' x y)"
  by (simp_all add: network_event_sized_def net_event_def args_sized_def rtt_spike_event_def
      state_change_event_def retransmit_event_def)

lemma net_event_types [simp]:
  "ne_event_type (net_event pr cfg a'' p t) = t"
  "ne_event_type (rtt_spike_event pr cfg a r b) = NET_EVENT_RTT_SPIKE"
  "ne_event_type (state_change_event pr cfg a) = NET_EVENT_STATE_CHANGE"
  "ne_event_type (retransmit_event pr cfg a' x y) = NET_EVENT_RETRANSMIT"
  by (simp_all add: net_event_def rtt_spike_event_def state_change_event_def retransmit_event_def)

text \<open>The record of a spike, if the tracking submits one, and the baselines after it.\<close>

definition spike_of :: "probe \<Rightarrow> tapio_config \<Rightarrow> set_state_args \<Rightarrow> net_kernel \<Rightarrow> network_event option" where
  "spike_of pr cfg a st =
     Option.bind (ss_srtt_us a) (\<lambda>srtt_us.
     Option.bind (conn_key_of a) (\<lambda>key.
     Option.bind (map_of (nk_baselines st) key) (\<lambda>b.
       let b' = rtt_refresh (pr_now pr) (drop_bit 3 srtt_us) (b\<lparr>rb_last_activity_ns := pr_now pr\<rparr>)
       in if ss_newstate a = ucast TCP_ESTABLISHED \<and> drop_bit 3 srtt_us > 0 \<and> rb_state b = RTT_STATE_STABLE
             \<and> rtt_spike cfg (drop_bit 3 srtt_us) b'
          then Some (rtt_spike_event pr cfg a (drop_bit 3 srtt_us) b') else None)))"

lemma states_differ [simp]: "RTT_STATE_STABLE \<noteq> RTT_STATE_LEARNING" "RTT_STATE_LEARNING \<noteq> RTT_STATE_STABLE"
  by (simp_all add: RTT_STATE_STABLE_def RTT_STATE_LEARNING_def)

lemma track_rtt_ring:
  "kn_ring (track_rtt pr room cfg a st) = kn_ring st
     @ (case spike_of pr cfg a st of None \<Rightarrow> [] | Some e \<Rightarrow> if pr_reserve pr then [network_event_encode e] else [])"
  by (auto simp: track_rtt_def spike_of_def Let_def submit_ring split: option.splits)

lemma set_state_ring:
  assumes "hook_config TAPIO_F_NETWORK st = Some cfg" "ss_protocol a = IPPROTO_TCP"
  shows "kn_ring (trace_inet_sock_set_state pr spike_reserve room a st) = kn_ring st
    @ (case spike_of (pr\<lparr>pr_reserve := spike_reserve\<rparr>) cfg a st of
         None \<Rightarrow> [] | Some e \<Rightarrow> if spike_reserve then [network_event_encode e] else [])
    @ (if important_transition a \<and> pr_reserve pr then [network_event_encode (state_change_event pr cfg a)] else [])"
  using assms by (simp add: trace_inet_sock_set_state_def Let_def submit_ring track_rtt_ring split: option.split)

text \<open>What becomes of the baseline of a key.\<close>

lemma track_rtt_baselines:
  "map_of (nk_baselines (track_rtt pr room cfg a st)) =
     (case (ss_srtt_us a, conn_key_of a) of
        (Some srtt_us, Some key) \<Rightarrow>
          if ss_newstate a = ucast TCP_ESTABLISHED \<and> drop_bit 3 srtt_us > 0 then
            (case map_of (nk_baselines st) key of
               None \<Rightarrow> if room then (map_of (nk_baselines st))(key \<mapsto>
                   \<lparr>rb_baseline_us = drop_bit 3 srtt_us, rb_sample_count = 1, rb_state = RTT_STATE_LEARNING,
                    rb_last_update_ns = pr_now pr, rb_last_activity_ns = pr_now pr\<rparr>) else map_of (nk_baselines st)
             | Some found \<Rightarrow> (map_of (nk_baselines st))(key \<mapsto>
                 (let b = found\<lparr>rb_last_activity_ns := pr_now pr\<rparr>
                  in if rb_state b = RTT_STATE_LEARNING then rtt_learn cfg (drop_bit 3 srtt_us) b
                     else if rb_state b = RTT_STATE_STABLE then rtt_refresh (pr_now pr) (drop_bit 3 srtt_us) b
                     else b)))
          else map_of (nk_baselines st)
      | _ \<Rightarrow> map_of (nk_baselines st))"
  by (auto simp: track_rtt_def Let_def split: option.splits)

lemma track_rtt_config [simp]: "kn_config (track_rtt pr room cfg a st) = kn_config st"
  by (simp add: track_rtt_def Let_def split: option.splits)

lemma net_step_keeps_config:
  "kn_config (net_step h st) = (case h of NetConfigured cfg \<Rightarrow> tapio_config_encode cfg | _ \<Rightarrow> kn_config st)"
  by (cases h) (simp_all add: trace_inet_sock_set_state_def trace_tcp_receive_reset_def trace_tcp_retransmit_skb_def
      write_config_def take_records_def Let_def split: option.splits prod.splits)

lemma net_step_baselines:
  "map_of (nk_baselines (net_step h st)) =
     (case h of
        SetState a pr sr room \<Rightarrow>
          (case hook_config TAPIO_F_NETWORK st of
             None \<Rightarrow> map_of (nk_baselines st)
           | Some cfg \<Rightarrow>
               if ss_protocol a = IPPROTO_TCP
               then map_of (nk_baselines (track_rtt (pr\<lparr>pr_reserve := sr\<rparr>) room cfg a st)) else map_of (nk_baselines st))
      | NetEvicted key \<Rightarrow> (map_of (nk_baselines st))(key := None)
      | _ \<Rightarrow> map_of (nk_baselines st))"
  by (cases h) (simp_all add: trace_inet_sock_set_state_def trace_tcp_receive_reset_def trace_tcp_retransmit_skb_def
      write_config_def take_records_def delete_conv' Let_def split: option.splits prod.splits)

section \<open>How a baseline is learned\<close>

lemma next_count_unat: "unat (next_count c) = min 255 (unat c + 1)"
proof (cases "c < 255")
  case True
  then have "unat c < 255" by (simp add: word_less_nat_alt)
  with True show ?thesis by (simp add: next_count_def unat_word_ariths)
next
  case False
  moreover have "unat c < 2 ^ 8" using unsigned_less [of c] by simp
  ultimately show ?thesis by (simp add: next_count_def word_less_nat_alt)
qed

lemma unat_widen: "unat (ucast c :: u32) = unat c" for c :: u8
proof -
  have "unat c < 2 ^ 8" using unsigned_less [of c] by simp
  then have "unat c < 2 ^ 32" by (rule less_trans) simp
  then show ?thesis by (simp add: unsigned_ucast_eq take_bit_nat_eq_self)
qed

lemma rtt_learn_count: "unat (rb_sample_count (rtt_learn cfg r b)) \<le> unat (rb_sample_count b) + 1"
  by (simp add: rtt_learn_def Let_def next_count_unat)

text \<open>A baseline becomes stable only with as many samples as the configuration asks for.\<close>

lemma rtt_learn_stable:
  assumes "rb_state (rtt_learn cfg r b) = RTT_STATE_STABLE" "rb_state b = RTT_STATE_LEARNING"
    and "tc_rtt_min_baseline_samples cfg = 0 \<or> n \<le> unat (tc_rtt_min_baseline_samples cfg)" "n \<le> 255"
  shows "n \<le> unat (rb_sample_count b) + 1"
proof -
  let ?s = "tc_rtt_min_baseline_samples cfg"
  let ?count = "next_count (rb_sample_count b)"
  have "(if ?s > 255 then 255 else ?s) > 0" and le: "(ucast ?count :: u32) \<ge> (if ?s > 255 then 255 else ?s)"
    using assms(1,2) by (auto simp: rtt_learn_def Let_def split: if_splits)
  then have "n \<le> unat (if ?s > 255 then 255 else ?s)"
    using assms(3,4) by (auto simp: word_less_nat_alt split: if_splits)
  also have "\<dots> \<le> unat (ucast ?count :: u32)" using le by (simp only: word_le_nat_alt)
  also have "unat (ucast ?count :: u32) = unat ?count" by (rule unat_widen)
  also have "\<dots> \<le> unat (rb_sample_count b) + 1" unfolding next_count_unat by simp
  finally show ?thesis .
qed

section \<open>The establishments of a connection\<close>

fun establishes :: "conn_key \<Rightarrow> net_hook \<Rightarrow> bool" where
  "establishes key (SetState a pr spike_reserve room) =
     (ss_newstate a = ucast TCP_ESTABLISHED \<and> conn_key_of a = Some key)"
| "establishes key _ = False"

definition establishments :: "conn_key \<Rightarrow> net_hook list \<Rightarrow> nat" where
  "establishments key hs = length (filter (establishes key) hs)"

text \<open>The arguments have the size of their structs, and a configuration asks for \<open>n\<close> samples at least.\<close>

definition patient :: "nat \<Rightarrow> tapio_config \<Rightarrow> bool" where
  "patient n cfg \<longleftrightarrow> tc_rtt_min_baseline_samples cfg = 0 \<or> n \<le> unat (tc_rtt_min_baseline_samples cfg)"

fun hook_ok :: "nat \<Rightarrow> net_hook \<Rightarrow> bool" where
  "hook_ok n (SetState a pr spike_reserve room) = args_sized a"
| "hook_ok n (ReceiveReset a pr) = args_sized a"
| "hook_ok n (Retransmit a pr) = args_sized a"
| "hook_ok n (NetConfigured cfg) = (tapio_config_sized cfg \<and> patient n cfg)"
| "hook_ok n _ = True"

definition is_spike :: "string \<Rightarrow> bool" where
  "is_spike record_bytes \<longleftrightarrow>
     (case net_abi.read_struct record_bytes of None \<Rightarrow> False | Some e \<Rightarrow> ne_event_type e = NET_EVENT_RTT_SPIKE)"

definition learned_from :: "nat \<Rightarrow> net_hook list \<Rightarrow> net_kernel \<Rightarrow> bool" where
  "learned_from n hs st \<longleftrightarrow>
     (\<forall>cfg. hook_config TAPIO_F_NETWORK st = Some cfg \<longrightarrow> patient n cfg)
     \<and> (\<forall>key b. map_of (nk_baselines st) key = Some b \<longrightarrow>
          (rb_state b = RTT_STATE_LEARNING \<and> unat (rb_sample_count b) \<le> establishments key hs)
          \<or> (rb_state b = RTT_STATE_STABLE \<and> n \<le> establishments key hs))
     \<and> (\<forall>r \<in> set (kn_ring st). is_spike r \<longrightarrow> (\<exists>key. n < establishments key hs))"

lemma establishments_snoc:
  "establishments key (hs @ [h]) = establishments key hs + (if establishes key h then 1 else 0)"
  by (simp add: establishments_def)

lemma spike_kind: "network_event_sized e \<Longrightarrow> is_spike (network_event_encode e) \<longleftrightarrow> ne_event_type e = NET_EVENT_RTT_SPIKE"
  by (simp add: is_spike_def network_event_decodes)

lemma kinds_differ [simp]:
  "NET_EVENT_STATE_CHANGE \<noteq> NET_EVENT_RTT_SPIKE" "NET_EVENT_RST_RECEIVED \<noteq> NET_EVENT_RTT_SPIKE"
  "NET_EVENT_RETRANSMIT \<noteq> NET_EVENT_RTT_SPIKE"
  by (simp_all add: NET_EVENT_RTT_SPIKE_def NET_EVENT_STATE_CHANGE_def NET_EVENT_RST_RECEIVED_def NET_EVENT_RETRANSMIT_def)

lemma not_spikes:
  "args_sized a \<Longrightarrow> \<not> is_spike (network_event_encode (state_change_event pr cfg a))"
  "args_sized a' \<Longrightarrow> \<not> is_spike (network_event_encode (net_event pr cfg a' p NET_EVENT_RST_RECEIVED))"
  "args_sized a'' \<Longrightarrow> \<not> is_spike (network_event_encode (retransmit_event pr cfg a'' x y))"
  by (simp_all add: spike_kind net_event_sized)

text \<open>A spike is found on a stable baseline.\<close>

lemma spike_of_stable:
  "spike_of pr cfg a st = Some e \<Longrightarrow> \<exists>key b. conn_key_of a = Some key \<and> map_of (nk_baselines st) key = Some b
     \<and> rb_state b = RTT_STATE_STABLE \<and> ss_newstate a = ucast TCP_ESTABLISHED"
  by (auto simp: spike_of_def Let_def bind_eq_Some_conv split: if_splits)

lemma rtt_refresh_keeps [simp]:
  "rb_state (rtt_refresh now r b) = rb_state b" "rb_sample_count (rtt_refresh now r b) = rb_sample_count b"
  by (simp_all add: rtt_refresh_def)

lemma rtt_learn_states:
  "rb_state b = RTT_STATE_LEARNING \<Longrightarrow>
     rb_state (rtt_learn cfg r b) = RTT_STATE_LEARNING \<or> rb_state (rtt_learn cfg r b) = RTT_STATE_STABLE"
  by (simp add: rtt_learn_def Let_def)

lemma learned_baselines:
  assumes inv: "learned_from n hs st" and "n \<le> 255"
    and b: "map_of (nk_baselines (net_step h st)) key = Some b"
  shows "(rb_state b = RTT_STATE_LEARNING \<and> unat (rb_sample_count b) \<le> establishments key (hs @ [h]))
    \<or> (rb_state b = RTT_STATE_STABLE \<and> n \<le> establishments key (hs @ [h]))"
proof (cases "map_of (nk_baselines (net_step h st)) key = map_of (nk_baselines st) key")
  case True
  with inv b show ?thesis by (fastforce simp: learned_from_def establishments_snoc)
next
  case False
  then obtain a pr sr room cfg srtt where h: "h = SetState a pr sr room"
      and cfg: "hook_config TAPIO_F_NETWORK st = Some cfg" and key: "conn_key_of a = Some key"
      and srtt: "ss_srtt_us a = Some srtt" and est: "ss_newstate a = ucast TCP_ESTABLISHED"
      and tracked: "map_of (nk_baselines (net_step h st)) = map_of (nk_baselines (track_rtt (pr\<lparr>pr_reserve := sr\<rparr>) room cfg a st))"
    using b net_step_baselines [of h st]
    by (cases h) (auto simp: track_rtt_baselines split: option.splits if_splits)
  have more: "establishments key (hs @ [h]) = establishments key hs + 1"
    using h key est by (simp add: establishments_snoc)
  show ?thesis
  proof (cases "map_of (nk_baselines st) key")
    case None
    then have "rb_state b = RTT_STATE_LEARNING" "unat (rb_sample_count b) = 1"
      using b tracked key srtt by (auto simp: track_rtt_baselines split: if_splits)
    with more show ?thesis by simp
  next
    case (Some old)
    with inv have old: "(rb_state old = RTT_STATE_LEARNING \<and> unat (rb_sample_count old) \<le> establishments key hs)
        \<or> (rb_state old = RTT_STATE_STABLE \<and> n \<le> establishments key hs)"
      by (auto simp: learned_from_def)
    let ?old = "old\<lparr>rb_last_activity_ns := pr_now pr\<rparr>"
    have "patient n cfg" using inv cfg by (auto simp: learned_from_def)
    show ?thesis
    proof (cases "rb_state old = RTT_STATE_LEARNING")
      case True
      with b tracked key srtt Some False have b': "b = rtt_learn cfg (drop_bit 3 srtt) ?old"
        by (auto simp: track_rtt_baselines Let_def split: if_splits)
      have "unat (rb_sample_count b) \<le> unat (rb_sample_count old) + 1"
        using rtt_learn_count [of cfg "drop_bit 3 srtt" ?old] b' by simp
      moreover have "rb_state b = RTT_STATE_STABLE \<Longrightarrow> n \<le> unat (rb_sample_count old) + 1"
        using rtt_learn_stable [of cfg "drop_bit 3 srtt" ?old n] \<open>patient n cfg\<close> True assms(2) b' by (simp add: patient_def)
      ultimately show ?thesis
        using rtt_learn_states [of ?old cfg "drop_bit 3 srtt"] old True more b' by auto
    next
      case other: False
      with old have st: "rb_state old = RTT_STATE_STABLE" "n \<le> establishments key hs" by auto
      with b tracked key srtt Some False have "rb_state b = RTT_STATE_STABLE"
        by (auto simp: track_rtt_baselines Let_def split: if_splits)
      with st more show ?thesis by simp
    qed
  qed
qed

text \<open>The records that a step adds.\<close>

lemma set_state_new:
  "r \<in> set (kn_ring (trace_inet_sock_set_state pr sr room a st)) \<Longrightarrow> r \<notin> set (kn_ring st) \<Longrightarrow>
     (\<exists>cfg e. spike_of (pr\<lparr>pr_reserve := sr\<rparr>) cfg a st = Some e)
     \<or> (\<exists>cfg. r = network_event_encode (state_change_event pr cfg a))"
  by (auto simp: trace_inet_sock_set_state_def track_rtt_ring submit_ring Let_def split: option.splits if_splits)

lemma new_spike:
  assumes "r \<in> set (kn_ring (net_step h st))" "r \<notin> set (kn_ring st)" "is_spike r" "hook_ok n h"
  obtains a pr sr room cfg e where "h = SetState a pr sr room"
    "spike_of (pr\<lparr>pr_reserve := sr\<rparr>) cfg a st = Some e"
proof (cases h)
  case (SetState a pr sr room)
  with assms have "\<exists>cfg e. spike_of (pr\<lparr>pr_reserve := sr\<rparr>) cfg a st = Some e"
    using set_state_new [of r pr sr room a st] not_spikes(1) [of a pr] by auto
  with SetState that show ?thesis by blast
next
  case (ReceiveReset a pr)
  with assms not_spikes(2) [of a pr] show ?thesis
    by (auto simp: trace_tcp_receive_reset_def submit_ring split: option.splits if_splits)
next
  case (Retransmit a pr)
  with assms not_spikes(3) [of a pr] show ?thesis
    by (auto simp: trace_tcp_retransmit_skb_def submit_ring split: option.splits if_splits prod.splits)
next
  case (NetDrained n)
  with assms show ?thesis by (auto simp: take_records_def dest: in_set_dropD)
qed (use assms in \<open>auto simp: write_config_def\<close>)

lemma learned_ring:
  assumes inv: "learned_from n hs st" and "hook_ok n h"
    and r: "r \<in> set (kn_ring (net_step h st))" "is_spike r"
  shows "\<exists>key. n < establishments key (hs @ [h])"
proof (cases "r \<in> set (kn_ring st)")
  case True
  with inv r(2) obtain key where "n < establishments key hs" by (auto simp: learned_from_def)
  then have "n < establishments key (hs @ [h])" by (simp add: establishments_snoc)
  then show ?thesis ..
next
  case False
  obtain a pr sr room cfg e where h: "h = SetState a pr sr room"
      and spike: "spike_of (pr\<lparr>pr_reserve := sr\<rparr>) cfg a st = Some e"
    using new_spike [OF r(1) False r(2) assms(2)] by metis
  from spike_of_stable [OF spike] obtain key b where "conn_key_of a = Some key"
      "map_of (nk_baselines st) key = Some b" "rb_state b = RTT_STATE_STABLE" "ss_newstate a = ucast TCP_ESTABLISHED"
    by blast
  moreover from this have "n \<le> establishments key hs"
    using inv unfolding learned_from_def by (metis states_differ(1))
  ultimately have "n < establishments key (hs @ [h])" using h by (simp add: establishments_snoc)
  then show ?thesis ..
qed

lemma learned_step:
  assumes "learned_from n hs st" "n \<le> 255" "hook_ok n h"
  shows "learned_from n (hs @ [h]) (net_step h st)"
proof -
  have "patient n cfg" if "hook_config TAPIO_F_NETWORK (net_step h st) = Some cfg" for cfg
  proof (cases "\<exists>cfg'. h = NetConfigured cfg'")
    case True
    with that assms(3) show ?thesis by (auto simp: hook_config_written split: if_splits)
  next
    case False
    then have "kn_config (net_step h st) = kn_config st" using net_step_keeps_config [of h st] by (cases h) simp_all
    with that have "hook_config TAPIO_F_NETWORK st = Some cfg" using hook_config_of by metis
    with assms(1) show ?thesis by (simp add: learned_from_def)
  qed
  with learned_baselines [OF assms(1,2)] learned_ring [OF assms(1,3)] show ?thesis
    unfolding learned_from_def by blast
qed

lemma learned_run:
  "list_all (hook_ok n) hs \<Longrightarrow> n \<le> 255 \<Longrightarrow> learned_from n hs (fold net_step hs (net_kernel_init cpus))"
proof (induction hs rule: rev_induct)
  case Nil
  have "hook_config TAPIO_F_NETWORK (net_kernel_init cpus) = None"
    by (rule init_config_inert) (simp add: net_kernel_init_def kernel_init_def kernel_state.defs)
  then show ?case by (simp add: learned_from_def) (simp add: net_kernel_init_def kernel_init_def kernel_state.defs)
qed (simp add: learned_step)

section \<open>The range of the baselines\<close>

lemma weighted_mean:
  fixes b r k :: u32
  assumes k: "0 < unat k" "unat k \<le> 255" and hi: "hi < 2 ^ 24"
    and b: "unat k = 1 \<or> (lo \<le> unat b \<and> unat b \<le> hi)" and r: "lo \<le> unat r" "unat r \<le> hi"
  shows "lo \<le> unat ((b * (k - 1) + r) div k) \<and> unat ((b * (k - 1) + r) div k) \<le> hi"
proof -
  have "k \<noteq> 0" using k(1) by auto
  then have pred: "unat (k - 1) = unat k - 1" by (simp add: unat_minus_one)
  show ?thesis
  proof (cases "unat k = 1")
    case True
    then have "k = 1" by (metis unat_1 word_unat_eq_iff)
    with r show ?thesis by simp
  next
    case False
    with b have b: "lo \<le> unat b" "unat b \<le> hi" by simp_all
    have "unat b * (unat k - 1) \<le> 2 ^ 24 * 254" using b hi k by (intro mult_le_mono) simp_all
    then have "unat b * (unat k - 1) + unat r < 2 ^ 32" using r hi by simp
    then have q: "unat ((b * (k - 1) + r) div k) = (unat b * (unat k - 1) + unat r) div unat k"
      by (simp add: unat_div unat_word_ariths pred)
    have split_k: "x * unat k = x * (unat k - 1) + x" for x using k(1) by (metis Suc_diff_1 mult_Suc_right add.commute)
    have "lo * unat k \<le> unat b * (unat k - 1) + unat r" "unat b * (unat k - 1) + unat r \<le> hi * unat k"
      unfolding split_k using b r by (intro add_mono mult_le_mono; simp)+
    from this [THEN div_le_mono, of "unat k"] q k(1) show ?thesis by simp
  qed
qed

text \<open>A baseline is within bounds, or it has just been thrown away.\<close>

definition rtt_within :: "nat \<Rightarrow> nat \<Rightarrow> rtt_baseline \<Rightarrow> bool" where
  "rtt_within lo hi b \<longleftrightarrow>
     (lo \<le> unat (rb_baseline_us b) \<and> unat (rb_baseline_us b) \<le> hi)
     \<or> (rb_state b = RTT_STATE_LEARNING \<and> rb_sample_count b = 0)"

lemma learn_within:
  assumes "rtt_within lo hi b" "lo \<le> unat r" "unat r \<le> hi" "hi < 2 ^ 24"
  shows "rtt_within lo hi (rtt_learn cfg r b)"
proof -
  let ?k = "ucast (next_count (rb_sample_count b)) :: u32"
  have k: "unat ?k = min 255 (unat (rb_sample_count b) + 1)" by (simp only: unat_widen next_count_unat)
  have "unat ?k = 1 \<or> (lo \<le> unat (rb_baseline_us b) \<and> unat (rb_baseline_us b) \<le> hi)"
    using assms(1) k by (auto simp: rtt_within_def)
  with k assms have "lo \<le> unat ((rb_baseline_us b * (?k - 1) + r) div ?k) \<and> unat ((rb_baseline_us b * (?k - 1) + r) div ?k) \<le> hi"
    by (intro weighted_mean) simp_all
  then show ?thesis by (simp add: rtt_learn_def rtt_within_def Let_def)
qed

lemma refresh_within:
  assumes "rtt_within lo hi b" "rb_state b = RTT_STATE_STABLE" "lo \<le> unat r" "unat r \<le> hi" "hi < 2 ^ 24"
  shows "rtt_within lo hi (rtt_refresh now r b)"
proof -
  have "(10 - 1 :: u32) = 9" by simp
  then have "lo \<le> unat ((rb_baseline_us b * 9 + r) div 10) \<and> unat ((rb_baseline_us b * 9 + r) div 10) \<le> hi"
    using weighted_mean [of 10 hi lo "rb_baseline_us b" r] assms by (simp add: rtt_within_def)
  with assms(1) show ?thesis by (simp add: rtt_refresh_def rtt_within_def)
qed

fun rtt_between :: "nat \<Rightarrow> nat \<Rightarrow> net_hook \<Rightarrow> bool" where
  "rtt_between lo hi (SetState a pr spike_reserve room) =
     (case ss_srtt_us a of
        None \<Rightarrow> True
      | Some srtt_us \<Rightarrow> drop_bit 3 srtt_us = 0 \<or> (lo \<le> unat (drop_bit 3 srtt_us) \<and> unat (drop_bit 3 srtt_us) \<le> hi))"
| "rtt_between lo hi _ = True"

lemma within_step:
  assumes "\<forall>key b. map_of (nk_baselines st) key = Some b \<longrightarrow> rtt_within lo hi b"
    and "rtt_between lo hi h" "hi < 2 ^ 24"
    and "map_of (nk_baselines (net_step h st)) key = Some b"
  shows "rtt_within lo hi b"
proof (cases "map_of (nk_baselines (net_step h st)) key = map_of (nk_baselines st) key")
  case True
  with assms show ?thesis by simp
next
  case False
  then obtain a pr sr room cfg srtt where h: "h = SetState a pr sr room" and key: "conn_key_of a = Some key"
      and srtt: "ss_srtt_us a = Some srtt" "0 < (drop_bit 3 srtt :: u32)"
      and tracked: "map_of (nk_baselines (track_rtt (pr\<lparr>pr_reserve := sr\<rparr>) room cfg a st)) key = Some b"
      "map_of (nk_baselines (track_rtt (pr\<lparr>pr_reserve := sr\<rparr>) room cfg a st)) key \<noteq> map_of (nk_baselines st) key"
    using assms(4) net_step_baselines [of h st]
    by (cases h) (auto simp: track_rtt_baselines split: option.splits if_splits)
  let ?r = "drop_bit 3 srtt"
  have r: "lo \<le> unat ?r" "unat ?r \<le> hi" using assms(2) h srtt by auto
  show ?thesis
  proof (cases "map_of (nk_baselines st) key")
    case None
    with tracked key srtt r show ?thesis by (auto simp: track_rtt_baselines rtt_within_def split: if_splits)
  next
    case (Some old)
    let ?old = "old\<lparr>rb_last_activity_ns := pr_now pr\<rparr>"
    have old: "rtt_within lo hi ?old" using assms(1) Some by (auto simp: rtt_within_def)
    with tracked key srtt Some show ?thesis
      using learn_within [OF old r assms(3)] refresh_within [OF old _ r assms(3)]
      by (auto simp: track_rtt_baselines Let_def split: if_splits)
  qed
qed

lemma within_run:
  "list_all (rtt_between lo hi) hs \<Longrightarrow> hi < 2 ^ 24 \<Longrightarrow>
     \<forall>key b. map_of (nk_baselines (fold net_step hs (net_kernel_init cpus))) key = Some b \<longrightarrow> rtt_within lo hi b"
proof (induction hs rule: rev_induct)
  case Nil
  then show ?case by (simp add: net_kernel_init_def kernel_init_def kernel_state.defs)
next
  case (snoc h hs)
  then show ?case using within_step [of "fold net_step hs (net_kernel_init cpus)" lo hi h] by auto
qed

section \<open>What the agent makes of the records\<close>

lemma spike_of_sized: "spike_of pr cfg a st = Some e \<Longrightarrow> args_sized a \<Longrightarrow>
    network_event_sized e \<and> ne_event_type e = NET_EVENT_RTT_SPIKE"
  by (auto simp: spike_of_def Let_def bind_eq_Some_conv net_event_sized split: if_splits)

text \<open>Who is reported as a connection that timed out.\<close>

definition times_out :: "network_event \<Rightarrow> bool" where
  "times_out e \<longleftrightarrow> map_option na_event_type (net_classify e) = Some NETWORK_CONNECTION_TIMEOUT"

lemma times_out_iff:
  "times_out e \<longleftrightarrow> ne_event_type e = NET_EVENT_STATE_CHANGE \<and> ne_old_state e = TCP_SYN_SENT \<and> ne_new_state e = TCP_CLOSE"
proof -
  have "NET_EVENT_STATE_CHANGE \<noteq> NET_EVENT_RST_RECEIVED" "NET_EVENT_STATE_CHANGE \<noteq> NET_EVENT_RETRANSMIT"
    "NET_EVENT_STATE_CHANGE \<noteq> NET_EVENT_RTT_SPIKE"
    by (simp_all add: NET_EVENT_RTT_SPIKE_def NET_EVENT_STATE_CHANGE_def NET_EVENT_RST_RECEIVED_def NET_EVENT_RETRANSMIT_def)
  moreover have "NETWORK_CONNECTION_TIMEOUT \<notin> {NETWORK_CONNECTION_REFUSED, NETWORK_RETRANSMIT_SPIKE, NETWORK_RTT_DEGRADATION}"
    by (simp add: event_types)
  ultimately show ?thesis by (auto simp: times_out_def net_classify_def Let_def)
qed

lemma narrow_eq:
  fixes w :: i32 and s :: u16
  assumes "unat w < 2 ^ 16"
  shows "ucast w = s \<longleftrightarrow> w = ucast s"
proof -
  have "unat (ucast w :: u16) = unat w"
    using assms by (simp add: unsigned_ucast_eq take_bit_nat_eq_self)
  moreover have "unat s < 2 ^ 16" using unsigned_less [of s] by simp
  then have "unat (ucast s :: i32) = unat s"
    by (simp add: unsigned_ucast_eq take_bit_nat_eq_self)
  ultimately show ?thesis by (metis word_unat_eq_iff)
qed

lemma syn_timeout_important:
  "ss_oldstate a = ucast TCP_SYN_SENT \<Longrightarrow> ss_newstate a = ucast TCP_CLOSE \<Longrightarrow> important_transition a"
  by (simp add: important_transition_def TCP_SYN_SENT_def TCP_CLOSE_def)

text \<open>Every record of the programs decodes.\<close>

fun hook_sized :: "net_hook \<Rightarrow> bool" where
  "hook_sized (SetState a pr spike_reserve room) = args_sized a"
| "hook_sized (ReceiveReset a pr) = args_sized a"
| "hook_sized (Retransmit a pr) = args_sized a"
| "hook_sized _ = True"

lemma set_state_records:
  assumes "args_sized a" "r \<in> set (kn_ring (trace_inet_sock_set_state pr sr room a st))" "r \<notin> set (kn_ring st)"
  shows "\<exists>e. r = network_event_encode e \<and> network_event_sized e"
proof -
  have spike: "\<exists>e. r = network_event_encode e \<and> network_event_sized e"
    if "r \<in> set (kn_ring (track_rtt pr' room cfg a st))" for pr' cfg
    using that assms(3) spike_of_sized [OF _ assms(1), of pr' cfg st]
    by (auto simp: track_rtt_ring split: option.splits if_splits)
  show ?thesis
    using assms spike net_event_sized(3) [OF assms(1), of pr]
    by (auto simp: trace_inet_sock_set_state_def Let_def submit_ring split: option.splits if_splits)
qed

interpretation net_records: record_source net_abi.read_struct net_step hook_sized
proof
  fix h r and st :: net_kernel
  assume ok: "hook_sized h" and r: "r \<in> set (kn_ring (net_step h st))" "r \<notin> set (kn_ring st)"
  have "\<exists>e. r = network_event_encode e \<and> network_event_sized e"
  proof (cases h)
    case (SetState a pr sr room)
    with ok r show ?thesis using set_state_records by auto
  next
    case (ReceiveReset a pr)
    with ok r show ?thesis
      by (auto simp: trace_tcp_receive_reset_def net_event_sized dest!: submit_new split: option.splits)
  next
    case (Retransmit a pr)
    with ok r show ?thesis
      by (auto simp: trace_tcp_retransmit_skb_def net_event_sized dest!: submit_new
          split: option.splits if_splits prod.splits)
  qed (use r in \<open>auto simp: write_config_def dest: take_no_new\<close>)
  then show "net_abi.read_struct r \<noteq> None" by (auto simp: network_event_decodes)
qed

section \<open>Properties\<close>


definition rtt_config :: tapio_config where
  "rtt_config = tapio_config_default\<lparr>tc_abi_version := TAPIO_CONFIG_ABI_VERSION, tc_generation := 3,
     tc_flags := TAPIO_F_NETWORK, tc_rtt_spike_multiplier := 2, tc_rtt_min_baseline_samples := 2\<rparr>"

definition net_probe :: "u64 \<Rightarrow> probe" where
  "net_probe now = \<lparr>pr_cpu = 0, pr_now = now, pr_pid_tgid = 42, pr_cgroup = 0, pr_comm = ''curl'', pr_reserve = True\<rparr>"

definition https_transition :: "u16 \<Rightarrow> u16 \<Rightarrow> u32 \<Rightarrow> set_state_args" where
  "https_transition old new rtt_us =
     \<lparr>ta_sport = 40000, ta_dport = 443, ta_family = AF_INET, ta_saddr = [CHR 0x0A, CHR 0x00, CHR 0x00, CHR 0x01],
      ta_daddr = [CHR 0x0A, CHR 0x00, CHR 0x00, CHR 0x02], ta_saddr_v6 = replicate 16 (CHR 0x00),
      ta_daddr_v6 = replicate 16 (CHR 0x00), ss_oldstate = ucast old, ss_newstate = ucast new,
      ss_protocol = IPPROTO_TCP, ss_srtt_us = Some (8 * rtt_us)\<rparr>"

definition two_connections :: "net_hook list" where
  "two_connections = [NetConfigured rtt_config,
     SetState (https_transition TCP_SYN_SENT TCP_ESTABLISHED 8000) (net_probe 1000) True True,
     SetState (https_transition TCP_SYN_SENT TCP_ESTABLISHED 16000) (net_probe 2000) True True]"

definition https_key :: conn_key where
  "https_key = the (conn_key_of (https_transition TCP_SYN_SENT TCP_ESTABLISHED 8000))"

lemma rtt_config_on:
  "kn_config st = tapio_config_encode rtt_config \<Longrightarrow> hook_config TAPIO_F_NETWORK st = Some rtt_config"
  using hook_config_written [of rtt_config TAPIO_F_NETWORK st] hook_config_of [of "write_config rtt_config st" st]
  by (simp add: rtt_config_def tapio_config_sized_def tapio_config_default_def write_config_def
      observer_enabled_def has_valid_abi_def TAPIO_F_NETWORK_def)

lemma https_step:
  assumes "kn_config st = tapio_config_encode rtt_config"
  shows "map_of (nk_baselines (net_step (SetState (https_transition TCP_SYN_SENT TCP_ESTABLISHED rtt) pr sr room) st)) =
    map_of (nk_baselines (track_rtt (pr\<lparr>pr_reserve := sr\<rparr>) room rtt_config (https_transition TCP_SYN_SENT TCP_ESTABLISHED rtt) st))"
  unfolding net_step_baselines using rtt_config_on [OF assms] by (simp add: https_transition_def)

lemma two_connections_learned:
  "map_of (nk_baselines (fold net_step two_connections (net_kernel_init 1))) https_key =
     Some \<lparr>rb_baseline_us = 12000, rb_sample_count = 2, rb_state = RTT_STATE_STABLE,
       rb_last_update_ns = 1000, rb_last_activity_ns = 2000\<rparr>"
proof -
  define s1 where "s1 = write_config rtt_config (net_kernel_init 1)"
  define s2 where "s2 = net_step (SetState (https_transition TCP_SYN_SENT TCP_ESTABLISHED 8000) (net_probe 1000) True True) s1"
  define s3 where "s3 = net_step (SetState (https_transition TCP_SYN_SENT TCP_ESTABLISHED 16000) (net_probe 2000) True True) s2"
  have c1: "kn_config s1 = tapio_config_encode rtt_config" by (simp add: s1_def write_config_def)
  then have c2: "kn_config s2 = tapio_config_encode rtt_config" unfolding s2_def net_step_keeps_config by simp
  have key: "conn_key_of (https_transition old new rtt) = Some https_key" for old new rtt
    by (simp add: https_key_def conn_key_of_def https_transition_def)
  have srtt: "ss_srtt_us (https_transition old new rtt) = Some (8 * rtt)"
      "ss_newstate (https_transition old new rtt) = ucast new" for old new rtt
    by (simp_all add: https_transition_def)
  have "map_of (nk_baselines s1) https_key = None"
    by (simp add: s1_def write_config_def net_kernel_init_def kernel_state.defs)
  then have b2: "map_of (nk_baselines s2) https_key = Some \<lparr>rb_baseline_us = 8000, rb_sample_count = 1,
      rb_state = RTT_STATE_LEARNING, rb_last_update_ns = 1000, rb_last_activity_ns = 1000\<rparr>"
    unfolding s2_def https_step [OF c1] by (simp add: track_rtt_baselines key srtt net_probe_def)
  have "map_of (nk_baselines s3) https_key = Some \<lparr>rb_baseline_us = 12000, rb_sample_count = 2,
      rb_state = RTT_STATE_STABLE, rb_last_update_ns = 1000, rb_last_activity_ns = 2000\<rparr>"
    unfolding s3_def https_step [OF c2]
    by (simp add: track_rtt_baselines key srtt net_probe_def b2 rtt_learn_def next_count_def rtt_config_def
        tapio_config_default_def)
  then show ?thesis by (simp add: two_connections_def s1_def s2_def s3_def)
qed


text \<open>
  C11: with a configuration that asks for \<open>n\<close> samples, no RTT-spike record is in the ring buffer of a
  history in which no pair of addresses and ports enters ESTABLISHED more than \<open>n\<close> times: a
  connection enters it once, so only reused pairs are ever judged.
\<close>

theorem rtt_spikes_need_reused_ports:
  assumes "list_all (hook_ok n) hs" "n \<le> 255" "\<forall>key. establishments key hs \<le> n"
    and "r \<in> set (kn_ring (fold net_step hs (net_kernel_init cpus)))"
  shows "\<not> is_spike r"
  using learned_run [OF assms(1,2), of cpus] assms(3,4) unfolding learned_from_def
  by (meson linorder_not_less)

lemma rtt_spikes_need_reused_ports_witness:
  "\<not> is_spike (hd (kn_ring (fold net_step two_connections (net_kernel_init 1))))"
proof (rule rtt_spikes_need_reused_ports [where n = 2 and hs = two_connections and cpus = 1])
  show "list_all (hook_ok 2) two_connections"
    by (simp add: two_connections_def args_sized_def https_transition_def tapio_config_sized_def rtt_config_def
        tapio_config_default_def patient_def)
  show "\<forall>key. establishments key two_connections \<le> 2"
    by (simp add: establishments_def two_connections_def)
  define s1 where "s1 = write_config rtt_config (net_kernel_init 1)"
  define s2 where "s2 = trace_inet_sock_set_state (net_probe 1000) True True (https_transition TCP_SYN_SENT TCP_ESTABLISHED 8000) s1"
  have "hook_config TAPIO_F_NETWORK s1 = Some rtt_config" by (rule rtt_config_on) (simp add: s1_def write_config_def)
  moreover have "kn_config s2 = kn_config s1"
    using net_step_keeps_config [of "SetState (https_transition TCP_SYN_SENT TCP_ESTABLISHED 8000) (net_probe 1000) True True" s1]
    by (simp add: s2_def)
  ultimately have "hook_config TAPIO_F_NETWORK s2 = Some rtt_config" using hook_config_of by metis
  from set_state_ring [OF this, of "https_transition TCP_SYN_SENT TCP_ESTABLISHED 16000" "net_probe 2000" True True]
  have "kn_ring (fold net_step two_connections (net_kernel_init 1)) \<noteq> []"
    by (simp add: two_connections_def s1_def s2_def https_transition_def important_transition_def
        TCP_SYN_SENT_def TCP_ESTABLISHED_def net_probe_def)
  then show "hd (kn_ring (fold net_step two_connections (net_kernel_init 1)))
      \<in> set (kn_ring (fold net_step two_connections (net_kernel_init 1)))" by (rule hd_in_set)
qed simp



end
