(* ===== verification/Pipeline.thy ===== *)
theory Pipeline
  imports ControlPlane KernelStorage KernelContainer KernelPmc KernelNetwork
begin

text \<open>
  From the Evidence Profile to the occurrence: an accepted profile is compiled, translated and
  written to the configuration map of a kernel program; what happens in the kernel becomes a
  record, which the observer drains and turns into an occurrence. The theorems say what a
  threshold of the profile means for what the agent reports.
\<close>

section \<open>A record and its occurrence\<close>

lemma drained_records:
  "length records \<le> 2048 \<Longrightarrow>
     ds_sent (fst (observer_tick ops fresh readings records st)) =
     ds_sent (fold (process_record ops fresh) records (loss_check ops readings st))"
  by (simp add: tick_sent MAX_DRAIN_PER_TICK_def)

lemma process_anomaly:
  "ob_read ops item = Some e \<Longrightarrow> ob_classify ops e = Some a \<Longrightarrow>
     ds_sent (process_record ops fresh item st) =
       ds_sent st @ [fst (ob_build ops (ds_cache st) (fresh (length (ds_sent st))) e a)]"
  by (simp add: process_record_def Let_def split_def)

text \<open>What a reader of the occurrences sees first: type, severity and the generation that judged it.\<close>

definition headline :: "occurrence \<Rightarrow> string \<times> severity \<times> json option" where
  "headline occ = (occ_type occ, occ_severity occ, generation_of occ)"

lemma storage_headline:
  assumes "sto_classify e = Some a"
  shows "headline (fst (ob_build (storage_ops boot) c f e a))
    = (sa_event_type a, sa_severity a, Some (json_u32 (se_config_generation e)))"
proof -
  have cl: "ob_classify (storage_ops boot) e = Some a" using assms by (simp add: storage_ops_def)
  show ?thesis
    using storage.built_generation [OF cl, of c f] storage.built_type [OF cl, of c f]
    by (simp add: headline_def) (simp add: storage_ops_def sto_build_occurrence_def builder_defs)
qed

lemma container_headline:
  assumes "con_classify e = Some a"
  shows "headline (fst (ob_build (container_ops read keys boot) c f e a))
    = (coa_event_type a, coa_severity a, Some (json_u32 (ce_config_generation e)))"
proof -
  have cl: "ob_classify (container_ops read keys boot) e = Some a" using assms by (simp add: container_ops_def)
  show ?thesis
    using container.built_generation [OF cl, of c f] container.built_type [OF cl, of c f]
    by (simp add: headline_def) (simp add: container_ops_def con_build_occurrence_def builder_defs split_def Let_def)
qed

lemma no_record: "ds_sent (fst (observer_tick ops fresh readings [] (drain_init m c))) = []"
  by (simp add: drained_records drain_init_def)

text \<open>A tick that finds one record, an anomaly, sends its occurrence.\<close>

lemma one_record:
  assumes "ob_read ops item = Some e" "ob_classify ops e = Some a"
    and "\<And>c f. headline (fst (ob_build ops c f e a)) = h"
  shows "map headline (ds_sent (fst (observer_tick ops fresh readings [item] (drain_init m c)))) = [h]"
proof -
  have "ds_sent (fst (observer_tick ops fresh readings [item] (drain_init m c)))
      = ds_sent (process_record ops fresh item (loss_check ops readings (drain_init m c)))"
    by (simp add: drained_records)
  also have "\<dots> = ds_sent (drain_init m c)
      @ [fst (ob_build ops c (fresh (length (ds_sent (drain_init m c)))) e a)]"
    using process_anomaly [OF assms(1,2), of fresh "loss_check ops readings (drain_init m c)"]
    by (simp add: drain_init_def)
  finally show ?thesis using assms(3) by (simp add: drain_init_def)
qed

section \<open>Storage\<close>

text \<open>What the thresholds of a profile say of a request, in the units of the profile.\<close>

definition io_verdict :: "resolved_storage \<Rightarrow> i32 \<Rightarrow> nat \<Rightarrow> (string \<times> severity) option" where
  "io_verdict storage error latency_ns =
     (if error \<noteq> 0 then Some (STORAGE_IO_ERROR, SevCritical)
      else if 1000000 * unat (rs_slow_io_critical_ms storage) \<le> latency_ns then Some (STORAGE_LATENCY_SPIKE, SevCritical)
      else if 1000000 * unat (rs_slow_io_warning_ms storage) \<le> latency_ns then Some (STORAGE_LATENCY_SPIKE, SevWarning)
      else None)"

lemma io_severity_of_profile:
  fixes generation :: u32
  assumes "profile_validate p builtins_v0 = Inr v" "tapio_config_from_compiled (compile v) (dec (unat generation)) = Inr t"
  shows "io_severity t error latency = map_option
     (\<lambda>(_, severity). if severity = SevCritical then STORAGE_SEVERITY_CRITICAL else STORAGE_SEVERITY_WARNING)
     (io_verdict (res_storage (vp_resolved v)) error (unat latency))"
proof -
  note cfg = profile_config [OF assms]
  have "profile_ok (vp_resolved v)" by (rule validated_ok [OF assms(1)])
  then have "1 \<le> rs_slow_io_warning_ms (res_storage (vp_resolved v))"
    "rs_slow_io_warning_ms (res_storage (vp_resolved v)) \<le> rs_slow_io_critical_ms (res_storage (vp_resolved v))"
    by (auto simp: profile_ok_def thresholds_ordered_def)
  then have "0 < unat (tc_slow_io_threshold_ns t)" "0 < unat (tc_io_latency_critical_ns t)"
    using cfg(7,8) by (simp_all add: word_le_nat_alt)
  then show ?thesis
    using cfg(7,8) by (simp add: io_severity_def io_verdict_def word_le_nat_alt word_less_nat_alt)
qed

text \<open>The agent classifies an event as the thresholds say.\<close>

lemma verdict_classified:
  assumes "io_verdict storage error latency = Some (event_type, severity)" "se_error_code e = error"
    and "se_severity e = (if severity = SevCritical then STORAGE_SEVERITY_CRITICAL else STORAGE_SEVERITY_WARNING)"
  shows "\<exists>a. sto_classify e = Some a \<and> sa_event_type a = event_type \<and> sa_severity a = severity"
proof (cases "error = 0")
  case True
  have differ: "STORAGE_SEVERITY_WARNING \<noteq> STORAGE_SEVERITY_CRITICAL"
    by (simp add: STORAGE_SEVERITY_CRITICAL_def STORAGE_SEVERITY_WARNING_def)
  have "event_type = STORAGE_LATENCY_SPIKE" "severity = SevCritical \<or> severity = SevWarning"
    using assms(1) True unfolding io_verdict_def by (simp_all split: if_splits)
  then show ?thesis using True assms(2,3) differ by (cases "severity = SevCritical") (simp_all add: sto_classify_def has_error_def)
next
  case False
  then have "event_type = STORAGE_IO_ERROR" "severity = SevCritical"
    using assms(1) unfolding io_verdict_def by simp_all
  then show ?thesis using False assms(2) by (simp add: sto_classify_def has_error_def)
qed

text \<open>A request from its issue to its completion, with the configuration unchanged in between.\<close>

fun keeps_config :: "sto_hook \<Rightarrow> bool" where
  "keeps_config (Configured cfg) = False"
| "keeps_config _ = True"

lemma sto_step_config: "keeps_config h \<Longrightarrow> kn_config (sto_step h st) = kn_config st"
  by (cases h) (simp_all add: take_records_def)

lemma sto_run_config: "list_all keeps_config hs \<Longrightarrow> kn_config (fold sto_step hs st) = kn_config st"
  by (induction hs arbitrary: st) (simp_all add: sto_step_config)

text \<open>The records that a hook adds to the ring buffer.\<close>

definition added :: "'m kernel_state_scheme \<Rightarrow> 'n kernel_state_scheme \<Rightarrow> string list" where
  "added st st' = drop (length (kn_ring st)) (kn_ring st')"

section \<open>Exits\<close>

text \<open>What the ignored codes of a profile say of an exit status of the kernel: the code above the signal.\<close>

definition exit_verdict :: "resolved_container \<Rightarrow> u32 \<Rightarrow> (string \<times> severity) option" where
  "exit_verdict settings status =
     (let code = unat status div 256; sig = unat status mod 128 in
      if code = 0 \<and> sig = 0 then None
      else if code \<in> unat ` set (rc_ignore_exit_codes settings) then None
      else Some (CONTAINER_ABNORMAL_EXIT, if sig = 0 then SevWarning else SevError))"

lemma status_parts:
  fixes status :: u32
  shows "unat (drop_bit 8 status) = unat status div 256" "unat (status AND 0x7F) = unat status mod 128"
    "sint (drop_bit 8 status) = int (unat status div 256)"
proof -
  show d: "unat (drop_bit 8 status) = unat status div 256"
    unfolding unat_drop_bit_eq by (simp add: drop_bit_eq_div)
  have "status AND 0x7F = take_bit 7 status" by (simp add: take_bit_eq_mask mask_numeral)
  then show "unat (status AND 0x7F) = unat status mod 128" by (simp add: unsigned_take_bit_eq take_bit_nat_def)
  have "unat status < 2 ^ 32" using unsigned_less [of status] by simp
  then have "unat (drop_bit 8 status) < 2 ^ 31" unfolding d by simp
  then have "int (unat (drop_bit 8 status)) < 2 ^ 31" by (metis of_nat_less_numeral_power_cancel_iff of_nat_numeral)
  then have "uint (drop_bit 8 status) < 2 ^ 31" by simp
  moreover have "- (2 ^ 31) \<le> uint (drop_bit 8 status)" by (rule order_trans [OF _ uint_ge_0]) simp
  ultimately have "signed_take_bit 31 (uint (drop_bit 8 status)) = uint (drop_bit 8 status)"
    by (intro signed_take_bit_int_eq_self) simp_all
  then show "sint (drop_bit 8 status) = int (unat status div 256)" by (simp add: sint_uint d [symmetric])
qed

lemma ignored_codes:
  fixes codes :: "i32 list" and given :: "u8 list"
  assumes "map sint codes = map uint given"
  shows "code \<in> set codes \<longleftrightarrow> sint code \<in> uint ` set given"
proof -
  have "code \<in> set codes \<longleftrightarrow> sint code \<in> sint ` set codes" by (auto simp: image_iff dest: signed_word_eqI)
  also have "sint ` set codes = uint ` set given" using arg_cong [OF assms, of set] by simp
  finally show ?thesis .
qed

lemma con_classify_exit:
  "code \<noteq> 0 \<or> sig \<noteq> 0 \<Longrightarrow> \<exists>a. con_classify (exit_event pr cfg pid code sig) = Some a
     \<and> coa_event_type a = CONTAINER_ABNORMAL_EXIT \<and> coa_severity a = (if sig = 0 then SevWarning else SevError)"
  by (auto simp: con_classify_def exit_event_def CONTAINER_EVENT_OOM_def CONTAINER_EVENT_EXIT_def)

text \<open>The records of an exit under the configuration of a profile.\<close>

lemma exit_records:
  fixes generation :: u32
  assumes "profile_validate p builtins_v0 = Inr v" "rc_enabled (res_container (vp_resolved v))"
      "tapio_config_from_compiled (compile v) (dec (unat generation)) = Inr t" "pr_reserve pr"
  shows "added st (handle_exit pr pid (Some status) (write_config t st)) =
    (case exit_verdict (res_container (vp_resolved v)) status of
       None \<Rightarrow> []
     | Some _ \<Rightarrow> [container_event_encode (exit_event pr t pid (drop_bit 8 status) (status AND 0x7F))])"
proof -
  note cfg = profile_config [OF assms(1,3)]
  let ?given = "rc_ignore_exit_codes (res_container (vp_resolved v))"
  have on: "hook_config TAPIO_F_CONTAINER (write_config t st) = Some t"
    using cfg(1,5) assms(2) by (simp add: hook_config_written)
  have "drop_bit 8 status \<in> set (take (unat (tc_ignore_exit_count t)) (tc_ignore_exit_codes t))
      \<longleftrightarrow> int (unat status div 256) \<in> uint ` set ?given"
    unfolding ignored_codes [OF cfg(10)] status_parts(3) ..
  also have "\<dots> \<longleftrightarrow> unat status div 256 \<in> unat ` set ?given"
  proof -
    have "uint ` set ?given = int ` unat ` set ?given" by (simp add: image_image)
    then show ?thesis by (simp only: inj_image_mem_iff [OF inj_of_nat])
  qed
  finally have ignored: "drop_bit 8 status \<in> set (take (unat (tc_ignore_exit_count t)) (tc_ignore_exit_codes t))
      \<longleftrightarrow> unat status div 256 \<in> unat ` set ?given" .
  have zero: "drop_bit 8 status = 0 \<longleftrightarrow> unat status div 256 = 0" "status AND 0x7F = 0 \<longleftrightarrow> unat status mod 128 = 0"
    unfolding status_parts(1,2) [symmetric] unat_eq_0 by (rule refl)+
  have ring: "kn_ring (write_config t st) = kn_ring st" by (simp add: write_config_def)
  have one: "drop (length xs) (xs @ (if A \<or> B \<or> \<not> pr_reserve pr then [] else [x])) =
      (case (if A then None else if B then None else Some y) of None \<Rightarrow> [] | Some _ \<Rightarrow> [x])"
    for A B and xs :: "string list" and x and y :: "string \<times> severity"
    using assms(4) by simp
  show ?thesis
    unfolding added_def handle_exit_ring [OF on] ignored zero exit_verdict_def Let_def ring by (rule one)
qed

section \<open>Properties\<close>

text \<open>
  C2: from profile to occurrence: with an accepted profile's configuration in the kernel, a request
  that keeps its key to itself becomes an occurrence exactly when it fails or takes at least
  the profile's milliseconds, critical from the critical threshold on, under the generation
  of the configuration.
\<close>

theorem slow_io_to_occurrence:
  fixes generation :: u32 and pr0 pr :: probe and i :: nat
  assumes profile: "profile_validate p builtins_v0 = Inr v" "rs_enabled (res_storage (vp_resolved v))"
      "tapio_config_from_compiled (compile v) (dec (unat generation)) = Inr t"
    and request: "rq_opcode rq = Some opcode" "map_of (sk_inflight st) (rq_key rq opcode) = None"
      "list_all (spares (rq_key rq opcode)) hs" "list_all keeps_config hs" "pr_reserve pr"
  defines "st' \<equiv> fold sto_step (Issue i rq pr0 True # hs) (write_config t st)"
  shows "map headline (ds_sent (fst (observer_tick (storage_ops boot) fresh readings
           (added st' (sto_step (Complete i (rq\<lparr>br_error := error\<rparr>) pr) st')) (drain_init m ()))))
    = (case io_verdict (res_storage (vp_resolved v)) error (unat (pr_now pr - pr_now pr0)) of
         None \<Rightarrow> [] | Some (event_type, severity) \<Rightarrow> [(event_type, severity, Some (json_u32 generation))])"
proof -
  note cfg = profile_config [OF profile(1,3)]
  let ?issued = "block_rq_issue pr0 True rq (write_config t st)"
  let ?latency = "pr_now pr - pr_now pr0"
  have on: "hook_config TAPIO_F_STORAGE (write_config t st) = Some t"
    using cfg(1,4) profile(2) by (simp add: hook_config_written)
  have "kn_config st' = kn_config (write_config t st)"
    using sto_run_config [OF request(4)] by (simp add: st'_def)
  with on have on': "hook_config TAPIO_F_STORAGE st' = Some t" using hook_config_of by metis
  have free: "map_of (sk_inflight (write_config t st)) (rq_key rq opcode) = None"
    using request(2) by (simp add: write_config_def)
  have st': "st' = fold sto_step hs ?issued" by (simp add: st'_def)
  obtain e where rep: "reported pr (rq\<lparr>br_error := error\<rparr>) st' = map_option e (io_severity t error ?latency)"
      and e: "\<And>s. se_severity (e s) = s" "\<And>s. se_error_code (e s) = error" "\<And>s. se_latency_ns (e s) = ?latency"
        "\<And>s. se_config_generation (e s) = generation" "\<And>s. sto_abi.read_struct (storage_event_encode (e s)) = Some (e s)"
    using reported_of_issue [OF request(1) on free request(3) on' [unfolded st'], folded st'] cfg(2) by metis
  have sev: "io_severity t error ?latency = map_option
      (\<lambda>(_, severity). if severity = SevCritical then STORAGE_SEVERITY_CRITICAL else STORAGE_SEVERITY_WARNING)
      (io_verdict (res_storage (vp_resolved v)) error (unat ?latency))"
    by (rule io_severity_of_profile [OF profile(1,3)])
  have records: "added st' (sto_step (Complete i (rq\<lparr>br_error := error\<rparr>) pr) st')
      = (case io_severity t error ?latency of None \<Rightarrow> [] | Some s \<Rightarrow> [storage_event_encode (e s)])"
    using request(5) by (simp add: added_def complete_ring rep split: option.split)
  show ?thesis
  proof (cases "io_verdict (res_storage (vp_resolved v)) error (unat ?latency)")
    case None
    with sev records show ?thesis by (simp add: no_record)
  next
    case (Some verdict)
    obtain event_type severity where verdict: "verdict = (event_type, severity)" by force
    define s where "s = (if severity = SevCritical then STORAGE_SEVERITY_CRITICAL else STORAGE_SEVERITY_WARNING)"
    have s: "io_severity t error ?latency = Some s" using sev Some verdict by (simp add: s_def)
    obtain a where a: "sto_classify (e s) = Some a" "sa_event_type a = event_type" "sa_severity a = severity"
      using verdict_classified [OF Some [unfolded verdict] e(2)] e(1) by (auto simp: s_def)
    have "map headline (ds_sent (fst (observer_tick (storage_ops boot) fresh readings [storage_event_encode (e s)] (drain_init m ()))))
        = [(sa_event_type a, sa_severity a, Some (json_u32 (se_config_generation (e s))))]"
      by (rule one_record [OF _ _ storage_headline [OF a(1)]]) (simp_all add: storage_ops_def e(5) a(1))
    with Some verdict records s a(2,3) e(4) show ?thesis by simp
  qed
qed

lemma profile_translates: "\<exists>t. tapio_config_from_compiled config (dec (unat (generation :: u32))) = Inr t"
proof -
  have "parse_uint (2 ^ 32) (dec (unat generation)) = Some (unat generation)"
    by (rule parse_uint_dec) (use unsigned_less [of generation, where 'a = nat] in simp)
  then show ?thesis by (simp add: tapio_config_from_compiled_def Let_def)
qed

text \<open>The example profile warns from 150 and is critical from 400 milliseconds on; a read takes 200.\<close>

lemma slow_io_to_occurrence_witness:
  "\<exists>t. tapio_config_from_compiled (compile example_validated) (dec (unat (7::u32))) = Inr t
    \<and> map headline (ds_sent (fst (observer_tick (storage_ops 0) (\<lambda>_. ([], 0)) None
         (added (fold sto_step [Issue 1 read_rq (probe_at 1000) True] (write_config t (sto_kernel_init 1)))
            (sto_step (Complete 1 (read_rq\<lparr>br_error := 0\<rparr>) (probe_at 200001000))
               (fold sto_step [Issue 1 read_rq (probe_at 1000) True] (write_config t (sto_kernel_init 1)))))
         (drain_init metrics_new ()))))
      = [(STORAGE_LATENCY_SPIKE, SevWarning, Some (json_u32 7))]"
proof -
  obtain t where t: "tapio_config_from_compiled (compile example_validated) (dec (unat (7::u32))) = Inr t"
    using profile_translates by blast
  have storage: "rs_enabled (res_storage (vp_resolved example_validated))"
      "io_verdict (res_storage (vp_resolved example_validated)) 0 200000000 = Some (STORAGE_LATENCY_SPIKE, SevWarning)"
    by (simp_all add: example_validated_def merge_profile_def merge_storage_def example_overrides_def no_overrides_def
        production_default_def io_verdict_def)
  have "map_of (sk_inflight (sto_kernel_init 1)) key = None" for key
    by (simp add: sto_kernel_init_def kernel_state.defs)
  moreover have "pr_now (probe_at 200001000) - pr_now (probe_at 1000) = 200000000" "pr_reserve (probe_at 200001000)"
    by (simp_all add: probe_at_def)
  ultimately show ?thesis
    using slow_io_to_occurrence [OF example_valid storage(1) t read_rq_opcode, of "sto_kernel_init 1" "[]" "probe_at 200001000"
        0 "\<lambda>_. ([], 0)" None 1 "probe_at 1000" 0 metrics_new] storage(2) t
    by simp
qed

text \<open>
  C3: from profile to occurrence: with an accepted profile's configuration in the kernel, an exit
  becomes an occurrence exactly when its code or its signal is not zero and its code is none of
  the profile's ignored ones; a signal makes it an error, a code alone a warning.
\<close>

theorem exit_to_occurrence:
  fixes generation :: u32
  assumes "profile_validate p builtins_v0 = Inr v" "rc_enabled (res_container (vp_resolved v))"
      "tapio_config_from_compiled (compile v) (dec (unat generation)) = Inr t" "pr_reserve pr"
  shows "map headline (ds_sent (fst (observer_tick (container_ops read keys boot) fresh readings
           (added st (handle_exit pr pid (Some status) (write_config t st))) (drain_init m c))))
    = (case exit_verdict (res_container (vp_resolved v)) status of
         None \<Rightarrow> [] | Some (event_type, severity) \<Rightarrow> [(event_type, severity, Some (json_u32 generation))])"
proof (cases "exit_verdict (res_container (vp_resolved v)) status")
  case None
  then show ?thesis unfolding exit_records [OF assms] by (simp add: no_record)
next
  case (Some verdict)
  let ?e = "exit_event pr t pid (drop_bit 8 status) (status AND 0x7F)"
  have parts: "drop_bit 8 status = 0 \<longleftrightarrow> unat status div 256 = 0" "status AND 0x7F = 0 \<longleftrightarrow> unat status mod 128 = 0"
    unfolding status_parts(1,2) [symmetric] unat_eq_0 by (rule refl)+
  have "drop_bit 8 status \<noteq> 0 \<or> status AND 0x7F \<noteq> 0"
    using Some unfolding parts exit_verdict_def Let_def by (simp split: if_splits)
  then obtain a where a: "con_classify ?e = Some a" "coa_event_type a = CONTAINER_ABNORMAL_EXIT"
      "coa_severity a = (if status AND 0x7F = 0 then SevWarning else SevError)"
    using con_classify_exit by blast
  have "map headline (ds_sent (fst (observer_tick (container_ops read keys boot) fresh readings
      [container_event_encode ?e] (drain_init m c)))) = [(coa_event_type a, coa_severity a, Some (json_u32 (ce_config_generation ?e)))]"
    by (rule one_record [OF _ _ container_headline [OF a(1)]]) (simp_all add: container_ops_def container_event_decodes a(1))
  moreover have "verdict = (coa_event_type a, coa_severity a)"
    using Some unfolding a(2,3) parts exit_verdict_def Let_def by (auto split: if_splits)
  moreover have "ce_config_generation ?e = generation"
    using profile_config(2) [OF assms(1,3)] by (simp add: exit_event_def)
  ultimately show ?thesis unfolding exit_records [OF assms] Some by simp
qed

text \<open>A profile that ignores the codes 0 and 143, as the one of the crate's own test does.\<close>

definition ignoring_overrides :: profile_overrides where
  "ignoring_overrides = no_overrides\<lparr>po_container := \<lparr>co_enabled = None, co_ignore_exit_codes = Some [0, 143]\<rparr>\<rparr>"

definition ignoring_validated :: validated_profile where
  "ignoring_validated = \<lparr>vp_resolved = merge_profile ignoring_overrides production_default\<rparr>"

lemma ignoring_valid:
  "profile_validate (profile_document ignoring_overrides) builtins_v0 = Inr ignoring_validated"
  unfolding validate_ok_iff
  by (simp add: profile_document_def ignoring_validated_def overrides_in_range_def thresholds_ordered_def
      merge_profile_def merge_network_def merge_storage_def merge_container_def merge_node_pmc_def
      network_in_range_def storage_in_range_def container_in_range_def node_pmc_in_range_def
      ignoring_overrides_def no_overrides_def production_default_def word_le_nat_alt)

lemma ignoring_codes:
  "rc_enabled (res_container (vp_resolved ignoring_validated))"
  "set (rc_ignore_exit_codes (res_container (vp_resolved ignoring_validated))) = {0, 143}"
  by (simp_all add: ignoring_validated_def ignoring_overrides_def no_overrides_def merge_profile_def merge_container_def
      production_default_def)

lemma exit_to_occurrence_witness:
  "\<exists>t. tapio_config_from_compiled (compile ignoring_validated) (dec (unat (7::u32))) = Inr t
    \<and> map headline (ds_sent (fst (observer_tick (container_ops (\<lambda>_. None) (\<lambda>_. []) 0) (\<lambda>_. ([], 0)) None
         (added (kernel_init 1) (handle_exit (probe_at 5) 42 (Some 256) (write_config t (kernel_init 1))))
         (drain_init metrics_new []))))
      = [(CONTAINER_ABNORMAL_EXIT, SevWarning, Some (json_u32 7))]"
proof -
  obtain t where t: "tapio_config_from_compiled (compile ignoring_validated) (dec (unat (7::u32))) = Inr t"
    using profile_translates by blast
  have "exit_verdict (res_container (vp_resolved ignoring_validated)) 256 = Some (CONTAINER_ABNORMAL_EXIT, SevWarning)"
    by (simp add: exit_verdict_def ignoring_codes)
  moreover have "pr_reserve (probe_at 5)" by (simp add: probe_at_def)
  ultimately show ?thesis
    using exit_to_occurrence [OF ignoring_valid ignoring_codes(1) t, of "probe_at 5" "\<lambda>_. None" "\<lambda>_. []" 0
        "\<lambda>_. ([], 0)" None "kernel_init 1" 42 256 metrics_new "[]"] t
    by simp
qed



text \<open>
  C22: whatever the kernel programs are called with, from any history of calls, configurations and
  drained records, every record in their ring buffers is one that the agent's observer decodes:
  no record of theirs is ever counted as malformed.
\<close>

theorem kernel_records_well_formed:
  assumes "list_all hook_sized net_history"
  shows "malformed_in network_ops (kn_ring (fold net_step net_history (net_kernel_init cpus))) = 0
    \<and> malformed_in (storage_ops boot) (kn_ring (fold sto_step sto_history (sto_kernel_init cpus))) = 0
    \<and> malformed_in (container_ops read keys boot) (kn_ring (fold con_step con_history (kernel_init cpus))) = 0
    \<and> malformed_in (pmc_ops boot thresholds) (kn_ring (fold pmc_step pmc_history (kernel_init cpus))) = 0"
proof -
  have none: "malformed_in ops items = 0" if "list_all (\<lambda>r. ob_read ops r \<noteq> None) items"
    for ops :: "('e, 'a, 'c) observer_ops" and items
    using that by (auto simp: malformed_in_def list_all_iff filter_empty_conv)
  have init: "kn_ring (net_kernel_init cpus) = []" "kn_ring (sto_kernel_init cpus) = []" "kn_ring (kernel_init cpus) = []"
    by (simp_all add: net_kernel_init_def sto_kernel_init_def kernel_init_def kernel_state.defs)
  have sources: "ob_read network_ops = net_abi.read_struct" "ob_read (storage_ops boot) = sto_abi.read_struct"
    "ob_read (container_ops read keys boot) = con_abi.read_struct" "ob_read (pmc_ops boot thresholds) = pmc_abi.read_struct"
    by (simp_all add: network_ops_def storage_ops_def container_ops_def pmc_ops_def)
  have "list_all (\<lambda>r. net_abi.read_struct r \<noteq> None) (kn_ring (fold net_step net_history (net_kernel_init cpus)))"
    by (rule net_records.run_decodes [OF assms]) (simp add: init)
  moreover have "list_all (\<lambda>r. sto_abi.read_struct r \<noteq> None) (kn_ring (fold sto_step sto_history (sto_kernel_init cpus)))"
    by (rule sto_records.run_decodes) (simp_all add: init list_all_iff)
  moreover have "list_all (\<lambda>r. con_abi.read_struct r \<noteq> None) (kn_ring (fold con_step con_history (kernel_init cpus)))"
    by (rule con_records.run_decodes) (simp_all add: init list_all_iff)
  moreover have "list_all (\<lambda>r. pmc_abi.read_struct r \<noteq> None) (kn_ring (fold pmc_step pmc_history (kernel_init cpus)))"
    by (rule pmc_records.run_decodes) (simp_all add: init list_all_iff)
  ultimately show ?thesis by (intro conjI none) (simp_all only: sources)
qed

lemma kernel_records_well_formed_witness:
  "malformed_in network_ops (kn_ring (fold net_step two_connections (net_kernel_init 1))) = 0"
  using kernel_records_well_formed [of two_connections 1 0 "[]" "\<lambda>_. None" "\<lambda>_. []" "[]"]
  by (simp add: two_connections_def args_sized_def https_transition_def)

end
