(* ===== verification/Timestamps.thy ===== *)
theory Timestamps
  imports Occurrence WireEvents "HOL-Library.Product_Lexorder"
begin

text \<open>
  The order of timestamp texts. The command line tool compares and sorts occurrences by the
  text of their timestamps (\<open>tapio-cli/src/main.rs\<close>); here the order of the texts that
  \<open>unix_nanos_to_rfc3339\<close> writes is shown to be the order of the times, also against a
  text with the shorter fractions that chrono's \<open>to_rfc3339\<close> documents.
\<close>

section \<open>Order of texts\<close>

lemma append_less: "length a = length b \<Longrightarrow> a @ x < b @ y \<longleftrightarrow> a < b \<or> a = b \<and> x < y"
  for a b x y :: string
  by (induction a b rule: list_induct2) auto

lemma append_le: "length a = length b \<Longrightarrow> a @ x \<le> b @ y \<longleftrightarrow> a < b \<or> a = b \<and> x \<le> y"
  for a b x y :: string
  by (auto simp: le_less append_less)

lemma digit_less: "is_digit c \<Longrightarrow> is_digit d \<Longrightarrow> c < d \<longleftrightarrow> digit_val c < digit_val d"
  by (auto simp: less_char_def is_digit_def digit_val_def)

lemma digits_val_bound: "list_all is_digit s \<Longrightarrow> digits_val s < 10 ^ length s"
proof (induction s)
  case (Cons c s)
  then have s: "digits_val s < 10 ^ length s" "digit_val c \<le> 9" using digit_val_less [of c] by auto
  have "digit_val c * 10 ^ length s \<le> 9 * 10 ^ length s" using s(2) by (rule mult_le_mono1)
  with s(1) have "digit_val c * 10 ^ length s + digits_val s < 9 * 10 ^ length s + 10 ^ length s"
    by (rule add_le_less_mono [rotated])
  then show ?case by (simp add: digits_val_Cons)
qed simp

lemma digits_order:
  "length a = length b \<Longrightarrow> list_all is_digit a \<Longrightarrow> list_all is_digit b \<Longrightarrow>
     a < b \<longleftrightarrow> digits_val a < digits_val b"
proof (induction a b rule: list_induct2)
  case (Cons c a d b)
  define k :: nat where "k = 10 ^ length a"
  have bounds: "digits_val a < k" "digits_val b < k"
    using Cons digits_val_bound [of a] digits_val_bound [of b] by (simp_all add: k_def)
  have cd: "c < d \<longleftrightarrow> digit_val c < digit_val d" "c = d \<longleftrightarrow> digit_val c = digit_val d"
    using Cons.prems digit_less is_digit_digit_val by (simp, metis list.pred_inject(2))
  have step: "digit_val x * k + digits_val u < digit_val y * k + digits_val v"
    if "digit_val x < digit_val y" "digits_val u < k" for x y u v
  proof -
    have "Suc (digit_val x) * k \<le> digit_val y * k" using that(1) by (intro mult_le_mono1) simp
    with that(2) show ?thesis by simp
  qed
  consider "digit_val c < digit_val d" | "digit_val c = digit_val d" | "digit_val d < digit_val c" by linarith
  then show ?case
  proof cases
    case 1
    from step [OF this bounds(1), of b] 1 show ?thesis
      using Cons.hyps by (simp add: digits_val_Cons k_def cd)
  next
    case 2
    with Cons show ?thesis by (simp add: digits_val_Cons cd)
  next
    case 3
    from step [OF this bounds(2), of a] 3 show ?thesis
      using Cons.hyps by (simp add: digits_val_Cons k_def cd)
  qed
qed simp

lemma pad0_less:
  assumes "m < 10 ^ w" "n < 10 ^ w" "0 < w"
  shows "pad0 w (dec m) @ x < pad0 w (dec n) @ y \<longleftrightarrow> m < n \<or> m = n \<and> x < y"
proof -
  have len: "length (pad0 w (dec m)) = length (pad0 w (dec n))"
    using assms by (simp add: pad0_dec_length)
  have lt: "pad0 w (dec m) < pad0 w (dec n) \<longleftrightarrow> m < n"
    using digits_order [OF len] by (simp add: pad0_digits)
  have "pad0 w (dec m) = pad0 w (dec n) \<longleftrightarrow> m = n"
    by (metis digits_val_pad0 digits_val_dec)
  with append_less [OF len] lt show ?thesis by simp
qed

section \<open>Dates\<close>

lemma next_date_later: "1 \<le> m \<Longrightarrow> m \<le> 12 \<Longrightarrow> (y, m, d) < next_date (y, m, d)"
  by (simp add: next_date_def)

lemma civil_strict: "civil_from_days (int k) < civil_from_days (int (Suc k))"
proof -
  obtain y m d where c: "civil_from_days (int k) = (y, m, d)" by (metis prod_cases3)
  have "1 \<le> m" "m \<le> 12" by (rule civil_ranges [OF _ c], simp)+
  moreover have "civil_from_days (int (Suc k)) = next_date (y, m, d)"
    using next_day [of "int k"] by (simp add: c algebra_simps)
  ultimately show ?thesis unfolding c by (simp add: next_date_later)
qed

lemma civil_less: "civil_from_days (int j) < civil_from_days (int k) \<longleftrightarrow> j < k"
  using lift_Suc_mono_less_iff [of "\<lambda>k. civil_from_days (int k)", OF civil_strict] .

lemma civil_eq: "civil_from_days (int j) = civil_from_days (int k) \<longleftrightarrow> j = k"
  by (metis civil_less less_irrefl nat_neq_iff)

section \<open>Instants\<close>

text \<open>The text of a second since the epoch, with the text of its fraction.\<close>

definition instant_text :: "nat \<Rightarrow> string \<Rightarrow> string" where
  "instant_text secs fr =
     (case civil_from_days (int (secs div 86400)) of (y, m, d) \<Rightarrow>
        timestamp_text y m d (secs mod 86400 div 3600) (secs mod 86400 mod 3600 div 60)
          (secs mod 86400 mod 60) fr)"

lemma two_digits: "n < 100 \<Longrightarrow> (n :: nat) < 10 ^ 2"
  by simp

lemma date_less:
  assumes "0 \<le> y" "y < 10000" "0 \<le> m" "m < 100" "0 \<le> d" "d < 100"
    and "0 \<le> y'" "y' < 10000" "0 \<le> m'" "m' < 100" "0 \<le> d'" "d' < 100"
  shows "pad0 4 (dec_int y) @ ''-'' @ pad0 2 (dec_int m) @ ''-'' @ pad0 2 (dec_int d) @ x
       < pad0 4 (dec_int y') @ ''-'' @ pad0 2 (dec_int m') @ ''-'' @ pad0 2 (dec_int d') @ x'
     \<longleftrightarrow> (y, m, d) < (y', m', d') \<or> (y, m, d) = (y', m', d') \<and> x < x'"
proof -
  have nats: "dec_int v = dec (nat v)" if "0 \<le> v" for v using that by (simp add: dec_int_def)
  have four: "nat v < 10 ^ 4" if "v < 10000" for v using that by simp
  have two: "nat v < 10 ^ 2" if "v < 100" for v using that by simp
  have order: "nat a < nat b \<longleftrightarrow> a < b" "nat a = nat b \<longleftrightarrow> a = b" if "0 \<le> a" "0 \<le> b" for a b
    using that by auto
  show ?thesis
    using assms by (auto simp: nats pad0_less four two order)
qed

lemma clock_less:
  assumes "h < 100" "n < 100" "s < 100" "h' < 100" "n' < 100" "s' < 100"
  shows "pad0 2 (dec h) @ '':'' @ pad0 2 (dec n) @ '':'' @ pad0 2 (dec s) @ x
       < pad0 2 (dec h') @ '':'' @ pad0 2 (dec n') @ '':'' @ pad0 2 (dec s') @ x'
     \<longleftrightarrow> (h, n, s) < (h', n', s') \<or> (h, n, s) = (h', n', s') \<and> x < x'"
  using assms by (auto simp: pad0_less two_digits)

lemma clock_order:
  fixes a b :: nat
  defines "c \<equiv> \<lambda>t. (t div 3600, t mod 3600 div 60, t mod 60)"
  shows "c a < c b \<longleftrightarrow> a < b" "c a = c b \<longleftrightarrow> a = b"
proof -
  have parts: "t = t div 3600 * 3600 + t mod 3600 div 60 * 60 + t mod 60 \<and> t mod 3600 div 60 < 60 \<and> t mod 60 < 60"
    for t :: nat
  proof -
    have "t mod 60 = t mod 3600 mod 60" by (simp add: mod_mod_cancel)
    moreover have "t mod 3600 < 3600" by simp
    ultimately show ?thesis
      using div_mult_mod_eq [of t 3600] div_mult_mod_eq [of "t mod 3600" 60] by linarith
  qed
  show eq: "c a = c b \<longleftrightarrow> a = b"
    using parts [of a] parts [of b] by (auto simp: c_def)
  have less: "a < b" if "c a < c b" for a b
  proof -
    have "a div 3600 < b div 3600 \<or> a div 3600 = b div 3600
        \<and> (a mod 3600 div 60 < b mod 3600 div 60 \<or> a mod 3600 div 60 = b mod 3600 div 60 \<and> a mod 60 < b mod 60)"
      using that by (auto simp: c_def)
    then show ?thesis using parts [of a] parts [of b] by (elim disjE conjE) linarith+
  qed
  show "c a < c b \<longleftrightarrow> a < b"
    using less [of a b] less [of b a] eq by (meson linorder_cases less_asym)
qed

lemma split_order:
  fixes s t :: nat
  shows "s < t \<longleftrightarrow> s div 86400 < t div 86400 \<or> s div 86400 = t div 86400 \<and> s mod 86400 < t mod 86400"
    and "s = t \<longleftrightarrow> s div 86400 = t div 86400 \<and> s mod 86400 = t mod 86400"
proof -
  have parts: "s = s div 86400 * 86400 + s mod 86400" "t = t div 86400 * 86400 + t mod 86400"
    "s mod 86400 < 86400" "t mod 86400 < 86400" by simp_all
  then show "s < t \<longleftrightarrow> s div 86400 < t div 86400 \<or> s div 86400 = t div 86400 \<and> s mod 86400 < t mod 86400"
    by linarith
  from parts show "s = t \<longleftrightarrow> s div 86400 = t div 86400 \<and> s mod 86400 = t mod 86400" by metis
qed

lemma instant_less:
  assumes "s < 213504 * 86400" "t < 213504 * 86400"
  shows "instant_text s f < instant_text t g \<longleftrightarrow> s < t \<or> s = t \<and> f @ ''+00:00'' < g @ ''+00:00''"
proof -
  define clk where "clk = (\<lambda>u :: nat. (u mod 86400 div 3600, u mod 86400 mod 3600 div 60, u mod 86400 mod 60))"
  obtain y m d where a: "civil_from_days (int (s div 86400)) = (y, m, d)" by (metis prod_cases3)
  obtain y' m' d' where b: "civil_from_days (int (t div 86400)) = (y', m', d')" by (metis prod_cases3)
  have days: "s div 86400 \<le> 213503" "t div 86400 \<le> 213503" using assms by simp_all
  have ya: "0 \<le> y" "y < 10000" by (rule civil_year_bounds [OF _ _ a]; use days in simp)+
  have yb: "0 \<le> y'" "y' < 10000" by (rule civil_year_bounds [OF _ _ b]; use days in simp)+
  have ra: "1 \<le> m" "m \<le> 12" "1 \<le> d" "d \<le> 31" by (rule civil_ranges [OF _ a]; simp)+
  have rb: "1 \<le> m'" "m' \<le> 12" "1 \<le> d'" "d' \<le> 31" by (rule civil_ranges [OF _ b]; simp)+
  have m: "0 \<le> m" "m < 100" "0 \<le> d" "d < 100" "0 \<le> m'" "m' < 100" "0 \<le> d'" "d' < 100"
    using ra rb by simp_all
  have small: "u mod 86400 div 3600 < 100" "u mod 86400 mod 3600 div 60 < 100" "u mod 86400 mod 60 < 100" for u :: nat
    by (simp_all add: less_mult_imp_div_less less_trans [OF mod_less_divisor])
  have clk: "clk s < clk t \<longleftrightarrow> s mod 86400 < t mod 86400" "clk s = clk t \<longleftrightarrow> s mod 86400 = t mod 86400"
    unfolding clk_def by (rule clock_order)+
  have dates: "(y, m, d) < (y', m', d') \<longleftrightarrow> s div 86400 < t div 86400"
    "(y, m, d) = (y', m', d') \<longleftrightarrow> s div 86400 = t div 86400"
    by (simp_all only: a [symmetric] b [symmetric] civil_less civil_eq)
  have "instant_text s f < instant_text t g \<longleftrightarrow> (y, m, d) < (y', m', d') \<or> (y, m, d) = (y', m', d')
      \<and> (clk s < clk t \<or> clk s = clk t \<and> f @ ''+00:00'' < g @ ''+00:00'')"
    unfolding instant_text_def a b prod.case timestamp_text_def append_assoc append_Cons append_Nil clk_def
      date_less [OF ya(1,2) m(1-4) yb(1,2) m(5-8), unfolded append_Cons append_Nil]
      clock_less [OF small [of s] small [of t], unfolded append_Cons append_Nil] Cons_less_Cons
    by simp
  also have "\<dots> \<longleftrightarrow> s < t \<or> s = t \<and> f @ ''+00:00'' < g @ ''+00:00''"
    unfolding dates clk using split_order [of s t] by blast
  finally show ?thesis .
qed

section \<open>Fractions\<close>

definition nanos_text :: "nat \<Rightarrow> string" where
  "nanos_text n = (if n = 0 then [] else ''.'' @ pad0 9 (dec n))"

text \<open>
  The fraction that chrono documents for \<open>to_rfc3339\<close>: none, three, six or nine digits, as
  many as the nanoseconds need.
\<close>

definition auto_si :: "nat \<Rightarrow> string" where
  "auto_si n =
     (if n = 0 then []
      else if n mod 1000000 = 0 then ''.'' @ pad0 3 (dec (n div 1000000))
      else if n mod 1000 = 0 then ''.'' @ pad0 6 (dec (n div 1000))
      else ''.'' @ pad0 9 (dec n))"

lemma sign_before_digits:
  assumes "0 < w" "n < 10 ^ w"
  shows "''+00:00'' < pad0 w (dec n) @ x" "\<not> pad0 w (dec n) @ x < ''+00:00''"
proof -
  have "pad0 w (dec n) \<noteq> []" by (simp add: pad0_not_Nil)
  then obtain c s where cs: "pad0 w (dec n) = c # s" by (cases "pad0 w (dec n)") auto
  have "list_all is_digit (pad0 w (dec n))" by (simp add: pad0_digits)
  then have "is_digit c" unfolding cs by simp
  then have "CHR ''+'' < c" by (simp add: is_digit_def less_char_def)
  then show "''+00:00'' < pad0 w (dec n) @ x" "\<not> pad0 w (dec n) @ x < ''+00:00''"
    unfolding cs by auto
qed

lemma nanos_less:
  assumes "a < 10 ^ 9" "b < 10 ^ 9"
  shows "nanos_text a @ ''+00:00'' < nanos_text b @ ''+00:00'' \<longleftrightarrow> a < b"
proof -
  have "CHR ''+'' < CHR ''.''" by (simp add: less_char_def)
  with assms show ?thesis
    by (auto simp: nanos_text_def pad0_less simp del: power_numeral)
qed

lemma digits_val_append: "digits_val (a @ b) = digits_val a * 10 ^ length b + digits_val b"
  by (induction a) (simp_all add: digits_val_Cons power_add algebra_simps)

lemma pad0_split:
  assumes "n < 10 ^ (v + w)" "0 < v" "0 < w"
  shows "pad0 (v + w) (dec n) = pad0 v (dec (n div 10 ^ w)) @ pad0 w (dec (n mod 10 ^ w))"
    (is "?whole = ?parts")
proof -
  have top: "n div 10 ^ w < 10 ^ v" using assms(1) by (simp add: less_mult_imp_div_less power_add)
  have len: "length ?whole = length ?parts" using assms top by (simp add: pad0_dec_length)
  have val: "digits_val ?whole = digits_val ?parts"
    using assms by (simp add: digits_val_append pad0_dec_length div_mult_mod_eq)
  have "list_all is_digit ?whole" "list_all is_digit ?parts" by (simp_all add: pad0_digits)
  with digits_order [OF len] digits_order [OF len [symmetric]] val show ?thesis
    by (metis less_irrefl linorder_cases)
qed

lemma short_fraction_less:
  assumes "a < 10 ^ (v + w)" "q < 10 ^ v" "0 < v" "0 < w"
  shows "pad0 (v + w) (dec a) @ ''+00:00'' < pad0 v (dec q) @ ''+00:00'' \<longleftrightarrow> a < q * 10 ^ w"
proof -
  have top: "a div 10 ^ w < 10 ^ v" using assms(1) by (simp add: less_mult_imp_div_less power_add)
  have "pad0 (v + w) (dec a) @ ''+00:00'' < pad0 v (dec q) @ ''+00:00'' \<longleftrightarrow> a div 10 ^ w < q"
    unfolding pad0_split [OF assms(1,3,4)] append_assoc pad0_less [OF top assms(2,3)]
    using sign_before_digits(2) [OF assms(4), of "a mod 10 ^ w"] by simp
  also have "\<dots> \<longleftrightarrow> a < q * 10 ^ w" by (simp add: div_less_iff_less_mult)
  finally show ?thesis .
qed

lemma auto_less:
  assumes "a < 10 ^ 9" "b < 10 ^ 9"
  shows "nanos_text a @ ''+00:00'' < auto_si b @ ''+00:00'' \<longleftrightarrow> a < b"
proof -
  have plus: "CHR ''+'' < CHR ''.''" by (simp add: less_char_def)
  consider "b = 0" | "b \<noteq> 0" "a = 0" | q where "a \<noteq> 0" "b \<noteq> 0" "b = q * 10 ^ 6"
    | q where "a \<noteq> 0" "b mod 1000000 \<noteq> 0" "b = q * 10 ^ 3" | "a \<noteq> 0" "b mod 1000 \<noteq> 0"
  proof -
    have "\<exists>q. b = q * 10 ^ 6" if "b mod 1000000 = 0"
      by (rule exI [of _ "b div 1000000"]) (use that in auto)
    moreover have "\<exists>q. b = q * 10 ^ 3" if "b mod 1000 = 0"
      by (rule exI [of _ "b div 1000"]) (use that in auto)
    ultimately show ?thesis using that by metis
  qed
  then show ?thesis
  proof cases
    case 1
    with plus show ?thesis by (auto simp: nanos_text_def auto_si_def)
  next
    case 2
    with plus show ?thesis by (auto simp: nanos_text_def auto_si_def)
  next
    case (3 q)
    then have "q < 10 ^ 3" using assms(2) by simp
    with 3 short_fraction_less [of a 3 6 q] assms(1) show ?thesis by (simp add: nanos_text_def auto_si_def)
  next
    case (4 q)
    then have "q < 10 ^ 6" using assms(2) by simp
    with 4 short_fraction_less [of a 6 3 q] assms(1) show ?thesis by (simp add: nanos_text_def auto_si_def)
  next
    case 5
    have "b mod 1000000 mod 1000 = b mod 1000" by (rule mod_mod_cancel) simp
    then have "b mod 1000000 \<noteq> 0" "b \<noteq> 0" using 5 by auto
    with 5 nanos_less [OF assms] show ?thesis by (simp add: nanos_text_def auto_si_def)
  qed
qed

lemma rfc3339_instant:
  "unix_nanos_to_rfc3339 w
     = instant_text (unat w div 1000000000) (nanos_text (unat w mod 1000000000))"
proof -
  obtain y m d where c: "civil_from_days (int (unat w div 1000000000 div 86400)) = (y, m, d)" by (metis prod_cases3)
  have "unat w div 1000000000 mod 86400 mod 60 = unat w div 1000000000 mod 86400 mod 3600 mod 60"
    by (simp add: mod_mod_cancel)
  with c show ?thesis
    by (simp add: unix_nanos_to_rfc3339_def instant_text_def timestamp_text_def nanos_text_def Let_def)
qed

lemma u64_seconds: "unat (w :: u64) div 1000000000 < 213504 * 86400"
  using unat_u64_le [of w] by linarith

text \<open>A time in nanoseconds since the epoch as chrono's \<open>to_rfc3339\<close> documents it.\<close>

definition chrono_rfc3339 :: "nat \<Rightarrow> string" where
  "chrono_rfc3339 n = instant_text (n div 1000000000) (auto_si (n mod 1000000000))"

lemma before_cutoff:
  assumes "n < 2 ^ 64"
  shows "unix_nanos_to_rfc3339 w < chrono_rfc3339 n \<longleftrightarrow> unat w < n"
proof -
  have "n div 1000000000 < 213504 * 86400" by (rule less_mult_imp_div_less) (use assms in simp)
  then have "unix_nanos_to_rfc3339 w < chrono_rfc3339 n \<longleftrightarrow>
      unat w div 1000000000 < n div 1000000000
      \<or> unat w div 1000000000 = n div 1000000000 \<and> unat w mod 1000000000 < n mod 1000000000"
    using u64_seconds [of w] auto_less [of "unat w mod 1000000000" "n mod 1000000000"]
    by (simp add: rfc3339_instant chrono_rfc3339_def instant_less)
  also have "\<dots> \<longleftrightarrow> unat w < n"
    using div_mult_mod_eq [of "unat w" 1000000000] div_mult_mod_eq [of n 1000000000]
      mod_less_divisor [of 1000000000 "unat w"] mod_less_divisor [of 1000000000 n] by linarith
  finally show ?thesis .
qed

lemma rfc3339_less: "unix_nanos_to_rfc3339 v < unix_nanos_to_rfc3339 w \<longleftrightarrow> v < w"
proof -
  have "unix_nanos_to_rfc3339 v < unix_nanos_to_rfc3339 w \<longleftrightarrow>
      unat v div 1000000000 < unat w div 1000000000
      \<or> unat v div 1000000000 = unat w div 1000000000 \<and> unat v mod 1000000000 < unat w mod 1000000000"
    using u64_seconds [of v] u64_seconds [of w] nanos_less [of "unat v mod 1000000000" "unat w mod 1000000000"]
    by (simp add: rfc3339_instant instant_less)
  also have "\<dots> \<longleftrightarrow> unat v < unat w"
    using div_mult_mod_eq [of "unat v" 1000000000] div_mult_mod_eq [of "unat w" 1000000000]
      mod_less_divisor [of 1000000000 "unat v"] mod_less_divisor [of 1000000000 "unat w"] by linarith
  finally show ?thesis by (simp add: word_less_nat_alt)
qed

section \<open>Properties\<close>

text \<open>
  C27: the timestamp texts of two occurrences compare, byte by byte, as their times do, over the
  whole range of 64-bit nanoseconds, whether or not their fractions are zero.
\<close>

theorem timestamps_sort_by_time:
  "(unix_nanos_to_rfc3339 v < unix_nanos_to_rfc3339 w \<longleftrightarrow> v < w)
     \<and> (unix_nanos_to_rfc3339 v = unix_nanos_to_rfc3339 w \<longleftrightarrow> v = w)"
  by (metis rfc3339_less less_irrefl linorder_cases)

end
