(* ===== verification/HashEntry.thy ===== *)
theory HashEntry
  imports Prelude
begin

text \<open>
  \<open>HashMap::entry(k).or_insert(d)\<close> followed by an update of the value, on an association
  list in the order of first insertion. The order in which a \<open>HashMap\<close> is iterated is not
  specified; where the sources iterate, the models take the order as a parameter.
\<close>

fun entry :: "'k \<Rightarrow> 'v \<Rightarrow> ('v \<Rightarrow> 'v) \<Rightarrow> ('k \<times> 'v) list \<Rightarrow> ('k \<times> 'v) list" where
  "entry k d f [] = [(k, f d)]"
| "entry k d f ((a, v) # m) = (if a = k then (a, f v) # m else (a, v) # entry k d f m)"

text \<open>Grouping a list by a key: the value of a key is folded over the elements that have it.\<close>

definition group_by :: "('x \<Rightarrow> 'k) \<Rightarrow> 'v \<Rightarrow> ('x \<Rightarrow> 'v \<Rightarrow> 'v) \<Rightarrow> 'x list \<Rightarrow> ('k \<times> 'v) list" where
  "group_by key d g xs = fold (\<lambda>x. entry (key x) d (g x)) xs []"

lemma entry_get:
  "map_of (entry k d f m) j = (if j = k then Some (f (case map_of m k of None \<Rightarrow> d | Some v \<Rightarrow> v)) else map_of m j)"
  by (induction m) (auto split: option.splits)

lemma entry_keys: "fst ` set (entry k d f m) = insert k (fst ` set m)"
  by (induction k d f m rule: entry.induct) (auto split: if_splits)

lemma entry_distinct: "distinct (map fst m) \<Longrightarrow> distinct (map fst (entry k d f m))"
proof (induction m)
  case (Cons av m)
  have "a \<notin> fst ` set (entry k d f m)" if "a \<notin> fst ` set m" "a \<noteq> k" for a
    using that entry_keys [of k d f m] by auto
  with Cons show ?case by (cases av) auto
qed simp

lemma group_by_snoc: "group_by key d g (xs @ [x]) = entry (key x) d (g x) (group_by key d g xs)"
  by (simp add: group_by_def)

lemma group_by_Nil [simp]: "group_by key d g [] = []"
  by (simp add: group_by_def)

lemma group_distinct: "distinct (map fst (group_by key d g xs))"
  by (induction xs rule: rev_induct) (simp_all add: group_by_snoc entry_distinct)

lemma group_keys: "fst ` set (group_by key d g xs) = key ` set xs"
  by (induction xs rule: rev_induct) (simp_all add: group_by_snoc entry_keys)

lemma group_get:
  "map_of (group_by key d g xs) k =
     (if k \<in> key ` set xs then Some (fold g (filter (\<lambda>x. key x = k) xs) d) else None)"
proof (induction xs rule: rev_induct)
  case (snoc x xs)
  have none: "filter (\<lambda>y. key y = key x) xs = []" if "key x \<notin> key ` set xs"
    using that by (auto simp: filter_empty_conv image_iff)
  show ?case using snoc
    by (cases "k = key x"; cases "key x \<in> key ` set xs") (simp_all add: group_by_snoc entry_get none)
qed simp

lemma group_mem:
  "(k, v) \<in> set (group_by key d g xs) \<longleftrightarrow> k \<in> key ` set xs \<and> v = fold g (filter (\<lambda>x. key x = k) xs) d"
proof -
  have "(k, v) \<in> set (group_by key d g xs) \<longleftrightarrow> map_of (group_by key d g xs) k = Some v"
    using group_distinct [of key d g xs] by simp
  then show ?thesis by (auto simp: group_get)
qed

text \<open>A measure of the values that every update raises by a weight adds up to the total weight.\<close>

lemma entry_sum:
  fixes m :: "'v \<Rightarrow> nat"
  assumes "m d = 0" "\<And>v. m (f v) = m v + w"
  shows "sum_list (map (\<lambda>kv. m (snd kv)) (entry k d f l)) = sum_list (map (\<lambda>kv. m (snd kv)) l) + w"
  using assms by (induction l) auto

lemma group_sum:
  fixes m :: "'v \<Rightarrow> nat"
  assumes "m d = 0" "\<And>x v. m (g x v) = m v + w x"
  shows "sum_list (map (\<lambda>kv. m (snd kv)) (group_by key d g xs)) = sum_list (map w xs)"
  by (induction xs rule: rev_induct) (simp_all add: group_by_snoc entry_sum [where m = m, OF assms(1) assms(2)])

text \<open>Counting.\<close>

lemma fold_Suc: "fold (\<lambda>_. Suc) xs n = n + length xs"
  by (induction xs arbitrary: n) simp_all

lemma fold_max: "fold (\<lambda>x. max (f x)) xs a = Max (set (a # map f xs))" for f :: "'x \<Rightarrow> 'a :: linorder"
proof (induction xs arbitrary: a)
  case (Cons x xs)
  have "Max (insert (max (f x) a) (f ` set xs)) = Max (insert a (insert (f x) (f ` set xs)))"
    by (cases "f ` set xs = {}") (auto simp: max.assoc max.left_commute max.commute)
  with Cons show ?case by simp
qed simp

end
