(* ===== verification/Cli.thy ===== *)
theory Cli
  imports Timestamps HashEntry Bytes
begin

text \<open>
  \<open>tapio-cli/src/main.rs\<close>: the command line tool that reads the occurrences that the file
  sink has written. A command's result is the lines it prints and how it ends; a slice at an
  index inside a character, or an out-of-range duration, ends the process by a panic. JSON
  decoding and encoding, the clock with chrono's arithmetic, and the iteration order of
  \<open>HashMap\<close> are parameters. Warnings on standard error are not modelled.
\<close>

section \<open>Ends of a command\<close>

datatype cli_error =
    DirUnreadable string
  | InvalidDuration string
  | InvalidDurationNumber string
  | DurationNotPositive string
  | UnknownDurationUnit string
  | EncodeFailed string
  | StdinUnreadable string

datatype 'a outcome_of = Done 'a | Failed cli_error | Panicked

definition then_do :: "'a outcome_of \<Rightarrow> ('a \<Rightarrow> 'b outcome_of) \<Rightarrow> 'b outcome_of" where
  "then_do r f = (case r of Done x \<Rightarrow> f x | Failed e \<Rightarrow> Failed e | Panicked \<Rightarrow> Panicked)"

lemma then_do_simps [simp]: "then_do (Done x) f = f x" "then_do (Failed e) f = Failed e" "then_do Panicked f = Panicked"
  by (simp_all add: then_do_def)

text \<open>Printing line after line: what was printed before a failure stays printed.\<close>

fun print_lines :: "string outcome_of list \<Rightarrow> string list \<times> unit outcome_of" where
  "print_lines [] = ([], Done ())"
| "print_lines (Done l # ls) = (let (printed, end) = print_lines ls in (l # printed, end))"
| "print_lines (Failed e # ls) = ([], Failed e)"
| "print_lines (Panicked # ls) = ([], Panicked)"

lemma print_lines_done [simp]: "print_lines (map Done ls) = (ls, Done ())"
  by (induction ls) simp_all

lemma print_lines_append: "print_lines (map Done xs @ ys) = (let (printed, end) = print_lines ys in (xs @ printed, end))"
  by (induction xs) (simp_all add: Let_def split_def)

section \<open>Strings\<close>

text \<open>\<open>str::is_char_boundary\<close>, and \<open>format!("{:<n}")\<close>, which counts characters.\<close>

definition char_boundary :: "nat \<Rightarrow> string \<Rightarrow> bool" where
  "char_boundary i s \<longleftrightarrow> i = 0 \<or> i = length s \<or> i < length s \<and> \<not> is_cont (s ! i)"

definition pad_right :: "nat \<Rightarrow> string \<Rightarrow> string" where
  "pad_right n s = s @ replicate (n - length (filter (\<lambda>c. \<not> is_cont c) s)) (CHR '' '')"

text \<open>A line of \<open>n\<close> box-drawing dashes.\<close>

definition dashes :: "nat \<Rightarrow> string" where
  "dashes n = concat (replicate n [char_of (0xE2 :: nat), char_of (0x94 :: nat), char_of (0x80 :: nat)])"

definition format_timestamp :: "string \<Rightarrow> string outcome_of" where
  "format_timestamp ts =
     (if 19 \<le> length ts then (if char_boundary 19 ts then Done (take 19 ts) else Panicked) else Done ts)"

definition severity_label :: "severity \<Rightarrow> string" where
  "severity_label s = (case s of SevDebug \<Rightarrow> ''DEBUG'' | SevInfo \<Rightarrow> ''INFO'' | SevWarning \<Rightarrow> ''WARNING''
     | SevError \<Rightarrow> ''ERROR'' | SevCritical \<Rightarrow> ''CRITICAL'')"

definition observer_category :: "string \<Rightarrow> string" where
  "observer_category occurrence_type =
     (case split_on (CHR ''.'') occurrence_type of _ # obs # _ \<Rightarrow> obs | _ \<Rightarrow> ''unknown'')"

definition category :: "occurrence \<Rightarrow> string" where
  "category occ = observer_category (occ_type occ)"

definition matches_filter :: "occurrence \<Rightarrow> string list \<Rightarrow> bool" where
  "matches_filter occ filters \<longleftrightarrow> filters = [] \<or> category occ \<in> set filters"

definition health_status :: "nat \<Rightarrow> nat \<Rightarrow> string" where
  "health_status total_count total_critical =
     (if total_critical \<ge> 3 \<or> total_count \<ge> 20 then ''critical''
      else if total_count > 0 then ''degraded''
      else ''healthy'')"

section \<open>Durations\<close>

datatype duration_unit = Seconds | Minutes | Hours | Days

text \<open>
  \<open>mk\<close> is chrono's constructor of a duration, which panics (\<open>None\<close>) outside its range.
\<close>

definition parse_duration :: "(duration_unit \<Rightarrow> int \<Rightarrow> 'd option) \<Rightarrow> string \<Rightarrow> 'd outcome_of" where
  "parse_duration mk text =
     (let s = trim text in
      if length s < 2 then Failed (InvalidDuration s)
      else if \<not> char_boundary (length s - 1) s then Panicked
      else (let num_str = take (length s - 1) s; unit_str = drop (length s - 1) s in
        case parse_i64 num_str of
          None \<Rightarrow> Failed (InvalidDurationNumber num_str)
        | Some num \<Rightarrow>
            if num \<le> 0 then Failed (DurationNotPositive s)
            else (case (if unit_str = ''s'' then Some Seconds else if unit_str = ''m'' then Some Minutes
                        else if unit_str = ''h'' then Some Hours else if unit_str = ''d'' then Some Days else None) of
                    None \<Rightarrow> Failed (UnknownDurationUnit unit_str)
                  | Some unit \<Rightarrow> (case mk unit num of None \<Rightarrow> Panicked | Some d \<Rightarrow> Done d))))"

section \<open>Reading the data directory\<close>

text \<open>
  A directory as one \<open>read_dir\<close> sees it: an entry is a file name with what reading the file
  gives, or an error.
\<close>

record dir_file =
  df_name :: string
  df_read :: "string + string"

datatype dir_listing = MissingDir | UnreadableDir string | Listing "(string + dir_file) list"

text \<open>\<open>Path::extension\<close> of a file name.\<close>

definition path_extension :: "string \<Rightarrow> string option" where
  "path_extension name =
     (if name = ''..'' then None
      else (case split_once (CHR ''.'') (rev name) of
              None \<Rightarrow> None
            | Some (after, before) \<Rightarrow> if before = [] then None else Some (rev after)))"

datatype read_occurrence_error = ReadFailed string | ParseFailed string | InvalidOccurrence "string list"

definition read_occurrence_file ::
  "(string \<Rightarrow> string + occurrence) \<Rightarrow> dir_file \<Rightarrow> read_occurrence_error + occurrence" where
  "read_occurrence_file from_json file =
     (case df_read file of
        Inl e \<Rightarrow> Inl (ReadFailed e)
      | Inr data \<Rightarrow>
          (case from_json data of
             Inl e \<Rightarrow> Inl (ParseFailed e)
           | Inr occ \<Rightarrow>
               (case occurrence_validate occ of
                  Inl errors \<Rightarrow> Inl (InvalidOccurrence errors)
                | Inr _ \<Rightarrow> Inr occ)))"

text \<open>The occurrences of the entries that can be read; the others are skipped with a warning.\<close>

definition occurrence_of_entry :: "(string \<Rightarrow> string + occurrence) \<Rightarrow> string + dir_file \<Rightarrow> occurrence option" where
  "occurrence_of_entry from_json ent =
     (case ent of
        Inl _ \<Rightarrow> None
      | Inr file \<Rightarrow>
          if path_extension (df_name file) = Some ''json''
          then (case read_occurrence_file from_json file of Inl _ \<Rightarrow> None | Inr occ \<Rightarrow> Some occ)
          else None)"

definition load_occurrences :: "(string \<Rightarrow> string + occurrence) \<Rightarrow> dir_listing \<Rightarrow> occurrence list outcome_of" where
  "load_occurrences from_json dir =
     (case dir of
        MissingDir \<Rightarrow> Done []
      | UnreadableDir e \<Rightarrow> Failed (DirUnreadable e)
      | Listing entries \<Rightarrow> Done (List.map_filter (occurrence_of_entry from_json) entries))"

section \<open>Printing an occurrence\<close>

definition write_occurrence :: "(occurrence \<Rightarrow> string + string) \<Rightarrow> bool \<Rightarrow> occurrence \<Rightarrow> string outcome_of list" where
  "write_occurrence to_json json occ =
     (if json then [case to_json occ of Inl e \<Rightarrow> Failed (EncodeFailed e) | Inr text \<Rightarrow> Done text]
      else then_do (format_timestamp (occ_timestamp occ))
             (\<lambda>ts. Done (ts @ '' '' @ pad_right 8 (severity_label (occ_severity occ)) @ ''  '' @ occ_type occ))
           # (case occ_error occ of None \<Rightarrow> [] | Some err \<Rightarrow> [Done (''  '' @ oe_message err)]))"

text \<open>A result decides the lines; its failure ends the command before any line.\<close>

definition lines_of :: "'a outcome_of \<Rightarrow> ('a \<Rightarrow> string outcome_of list) \<Rightarrow> string outcome_of list" where
  "lines_of r f = (case r of Done x \<Rightarrow> f x | Failed e \<Rightarrow> [Failed e] | Panicked \<Rightarrow> [Panicked])"

lemma lines_of_simps [simp]: "lines_of (Done x) f = f x" "lines_of (Failed e) f = [Failed e]" "lines_of Panicked f = [Panicked]"
  by (simp_all add: lines_of_def)

section \<open>Status\<close>

text \<open>\<open>Iterator::max\<close>.\<close>

definition max_text :: "string list \<Rightarrow> string option" where
  "max_text xs = (case xs of [] \<Rightarrow> None | x # ys \<Rightarrow> Some (fold max ys x))"

text \<open>
  The groups are sorted by their distinct keys, so the order of the hash map does not matter.
\<close>

definition status_line :: "string \<times> occurrence list \<Rightarrow> string outcome_of" where
  "status_line g = (case g of (name, occs) \<Rightarrow>
     then_do (format_timestamp (unwrap_or (max_text (map occ_timestamp occs)) ''-''))
       (\<lambda>seen. Done (pad_right 12 name @ '' '' @ pad_right 5 (dec (length occs)) @ ''  '' @ seen)))"

definition cmd_status :: "(string \<Rightarrow> string + occurrence) \<Rightarrow> dir_listing \<Rightarrow> string list \<times> unit outcome_of" where
  "cmd_status from_json dir = print_lines (lines_of (load_occurrences from_json dir) (\<lambda>occurrences.
     if occurrences = [] then [Done ''no anomalies recorded'']
     else [Done ''Observer     Count  Last Seen'', Done (dashes 9 @ ''    '' @ dashes 5 @ ''  '' @ dashes 9)]
          @ map status_line (sort_key fst (group_by category [] (\<lambda>occ l. l @ [occ]) occurrences))
          @ [Done (dashes 9 @ ''    '' @ dashes 5), Done (''total        '' @ dec (length occurrences))]))"

section \<open>Recent\<close>

text \<open>\<open>sort_by(|a, b| key(b).cmp(&key(a)))\<close>: descending and stable.\<close>

definition sort_desc :: "('a \<Rightarrow> 'k :: linorder) \<Rightarrow> 'a list \<Rightarrow> 'a list" where
  "sort_desc key xs = rev (sort_key key (rev xs))"

text \<open>\<open>cutoff d\<close> is \<open>(Utc::now() - d).to_rfc3339()\<close>, which panics (\<open>None\<close>) outside chrono's range.\<close>

definition in_window :: "(duration_unit \<Rightarrow> int \<Rightarrow> 'd option) \<Rightarrow> ('d \<Rightarrow> string option) \<Rightarrow> string option
     \<Rightarrow> occurrence list \<Rightarrow> occurrence list outcome_of" where
  "in_window mk cutoff since occurrences =
     (case since of
        None \<Rightarrow> Done occurrences
      | Some text \<Rightarrow> then_do (parse_duration mk text) (\<lambda>d.
          case cutoff d of
            None \<Rightarrow> Panicked
          | Some cutoff_str \<Rightarrow> Done (filter (\<lambda>occ. cutoff_str \<le> occ_timestamp occ) occurrences)))"

definition recent_occurrences :: "(duration_unit \<Rightarrow> int \<Rightarrow> 'd option) \<Rightarrow> ('d \<Rightarrow> string option) \<Rightarrow> string option
     \<Rightarrow> occurrence list \<Rightarrow> occurrence list outcome_of" where
  "recent_occurrences mk cutoff since occurrences =
     then_do (in_window mk cutoff since occurrences) (\<lambda>kept. Done (take 20 (sort_desc occ_timestamp kept)))"

definition cmd_recent ::
  "(string \<Rightarrow> string + occurrence) \<Rightarrow> (occurrence \<Rightarrow> string + string) \<Rightarrow> (duration_unit \<Rightarrow> int \<Rightarrow> 'd option)
     \<Rightarrow> ('d \<Rightarrow> string option) \<Rightarrow> dir_listing \<Rightarrow> bool \<Rightarrow> string option \<Rightarrow> string list \<times> unit outcome_of" where
  "cmd_recent from_json to_json mk cutoff dir json since =
     print_lines (lines_of (load_occurrences from_json dir) (\<lambda>occurrences.
       if occurrences = [] then [Done ''no anomalies recorded'']
       else lines_of (recent_occurrences mk cutoff since occurrences)
              (\<lambda>shown. concat (map (write_occurrence to_json json) shown))))"

section \<open>Health\<close>

record observer_stats =
  os_count :: nat
  os_critical_count :: nat
  os_last_seen :: string
  os_type_counts :: "(string \<times> nat) list"

definition stats_empty :: observer_stats where
  "stats_empty = \<lparr>os_count = 0, os_critical_count = 0, os_last_seen = [], os_type_counts = []\<rparr>"

definition is_critical :: "occurrence \<Rightarrow> bool" where
  "is_critical occ \<longleftrightarrow> occ_severity occ = SevCritical"

definition stats_step :: "occurrence \<Rightarrow> observer_stats \<Rightarrow> observer_stats" where
  "stats_step occ s =
     \<lparr>os_count = os_count s + 1,
      os_critical_count = (if is_critical occ then os_critical_count s + 1 else os_critical_count s),
      os_last_seen = (if os_last_seen s < occ_timestamp occ then occ_timestamp occ else os_last_seen s),
      os_type_counts = entry (occ_type occ) 0 Suc (os_type_counts s)\<rparr>"

definition observer_stats_of :: "occurrence list \<Rightarrow> (string \<times> observer_stats) list" where
  "observer_stats_of recent = group_by category stats_empty stats_step recent"

definition categories :: "string list" where
  "categories = [''network'', ''container'', ''storage'', ''node'']"

text \<open>\<open>Iterator::max_by_key\<close>: the last of the greatest.\<close>

definition max_by :: "('a \<Rightarrow> nat) \<Rightarrow> 'a list \<Rightarrow> 'a option" where
  "max_by key xs = (case xs of [] \<Rightarrow> None | x # ys \<Rightarrow> Some (fold (\<lambda>y acc. if key acc \<le> key y then y else acc) ys x))"

definition type_count :: "string \<times> nat \<Rightarrow> string" where
  "type_count tc = fst tc @ '' ('' @ dec (snd tc) @ '')''"

definition drill_lines :: "((string \<times> nat) list \<Rightarrow> (string \<times> nat) list) \<Rightarrow> observer_stats \<Rightarrow> string outcome_of list" where
  "drill_lines order s =
     [Done (''  anomalies:  '' @ dec (os_count s)), Done (''  critical:   '' @ dec (os_critical_count s)),
      then_do (format_timestamp (os_last_seen s)) (\<lambda>seen. Done (''  last seen:  '' @ seen)), Done []]
     @ map (\<lambda>(t, c). Done (''  '' @ t @ ''  ('' @ dec c @ '')'')) (sort_desc snd (order (os_type_counts s)))"

definition summary_line ::
  "((string \<times> nat) list \<Rightarrow> (string \<times> nat) list) \<Rightarrow> string \<Rightarrow> observer_stats option \<Rightarrow> string outcome_of" where
  "summary_line order cat stats =
     (case stats of
        None \<Rightarrow> Done (pad_right 12 cat @ '' '' @ pad_right 9 (dec 0) @ ''  '' @ pad_right 20 ''-'' @ '' '' @ ''-'')
      | Some s \<Rightarrow> then_do (format_timestamp (os_last_seen s)) (\<lambda>seen.
          Done (pad_right 12 cat @ '' '' @ pad_right 9 (dec (os_count s)) @ ''  '' @ pad_right 20 seen @ '' ''
            @ (case max_by snd (order (os_type_counts s)) of None \<Rightarrow> [] | Some tc \<Rightarrow> type_count tc))))"

definition stat_total :: "(observer_stats \<Rightarrow> nat) \<Rightarrow> (string \<times> observer_stats) list \<Rightarrow> nat" where
  "stat_total f stats = sum_list (map (\<lambda>cat. case map_of stats cat of None \<Rightarrow> 0 | Some s \<Rightarrow> f s) categories)"

definition overall_line :: "nat \<Rightarrow> nat \<Rightarrow> string" where
  "overall_line total_count total_critical =
     ''overall: '' @ health_status total_count total_critical @ '' ('' @ dec total_count @ '' anomalies, ''
     @ dec total_critical @ '' critical in last hour)''"

definition cmd_health ::
  "(string \<Rightarrow> string + occurrence) \<Rightarrow> string \<Rightarrow> ((string \<times> nat) list \<Rightarrow> (string \<times> nat) list)
     \<Rightarrow> dir_listing \<Rightarrow> string option \<Rightarrow> string list \<times> unit outcome_of" where
  "cmd_health from_json one_hour_ago order dir observer_filter =
     print_lines (lines_of (load_occurrences from_json dir) (\<lambda>occurrences.
       let stats = observer_stats_of (filter (\<lambda>occ. one_hour_ago \<le> occ_timestamp occ) occurrences) in
       case observer_filter of
         Some f \<Rightarrow>
           [Done (''Observer: '' @ f), Done []]
           @ (case map_of stats f of
                None \<Rightarrow> [Done ''  no anomalies in last hour'']
              | Some s \<Rightarrow> drill_lines order s)
       | None \<Rightarrow>
           [Done ''Observer     Anomalies  Last Seen            Most Frequent'',
            Done (dashes 9 @ ''    '' @ dashes 9 @ ''  '' @ dashes 9 @ ''            '' @ dashes 13)]
           @ map (\<lambda>cat. summary_line order cat (map_of stats cat)) categories
           @ [Done [], Done (overall_line (stat_total os_count stats) (stat_total os_critical_count stats))]))"

section \<open>Watch\<close>

text \<open>
  The names of the files seen so far; what has been printed; how the command has ended, once
  it has. Each tick lists the directory anew.
\<close>

record watch_state =
  wt_seen :: "string list"
  wt_printed :: "string list"
  wt_end :: "unit outcome_of option"

text \<open>Files found at start-up are not shown; an error then ends the command.\<close>

fun mark_existing :: "(string + dir_file) list \<Rightarrow> string list \<Rightarrow> string list outcome_of" where
  "mark_existing [] seen = Done seen"
| "mark_existing (Inl e # es) seen = Failed (DirUnreadable e)"
| "mark_existing (Inr file # es) seen = mark_existing es (List.insert (df_name file) seen)"

definition watch_start :: "dir_listing \<Rightarrow> watch_state" where
  "watch_start dir =
     (case (case dir of MissingDir \<Rightarrow> Done [] | UnreadableDir e \<Rightarrow> Failed (DirUnreadable e)
            | Listing es \<Rightarrow> mark_existing es []) of
        Done seen \<Rightarrow> \<lparr>wt_seen = seen, wt_printed = [], wt_end = None\<rparr>
      | Failed e \<Rightarrow> \<lparr>wt_seen = [], wt_printed = [], wt_end = Some (Failed e)\<rparr>
      | Panicked \<Rightarrow> \<lparr>wt_seen = [], wt_printed = [], wt_end = Some Panicked\<rparr>)"

fun scan_entries ::
  "(string \<Rightarrow> string + occurrence) \<Rightarrow> (string + dir_file) list \<Rightarrow> string list \<Rightarrow> occurrence list
     \<Rightarrow> string list \<times> occurrence list" where
  "scan_entries from_json [] seen new_occs = (seen, new_occs)"
| "scan_entries from_json (Inl e # es) seen new_occs = scan_entries from_json es seen new_occs"
| "scan_entries from_json (Inr file # es) seen new_occs =
     (if df_name file \<in> set seen then scan_entries from_json es seen new_occs
      else scan_entries from_json es (df_name file # seen)
             (case occurrence_of_entry from_json (Inr file) of
                None \<Rightarrow> new_occs
              | Some occ \<Rightarrow> new_occs @ [occ]))"

definition watch_tick ::
  "(string \<Rightarrow> string + occurrence) \<Rightarrow> (occurrence \<Rightarrow> string + string) \<Rightarrow> bool \<Rightarrow> string list
     \<Rightarrow> dir_listing \<Rightarrow> watch_state \<Rightarrow> watch_state" where
  "watch_tick from_json to_json json filters dir st =
     (case (wt_end st, dir) of
        (None, Listing es) \<Rightarrow>
          (let (seen, new_occs) = scan_entries from_json es (wt_seen st) [];
               shown = filter (\<lambda>occ. matches_filter occ filters) (sort_key occ_timestamp new_occs);
               (printed, end) = print_lines (concat (map (write_occurrence to_json json) shown))
           in \<lparr>wt_seen = seen, wt_printed = wt_printed st @ printed,
               wt_end = (if end = Done () then None else Some end)\<rparr>)
      | _ \<Rightarrow> st)"

definition watch_filters :: "bool \<Rightarrow> bool \<Rightarrow> bool \<Rightarrow> bool \<Rightarrow> string list" where
  "watch_filters network container storage node =
     (if network then [''network''] else []) @ (if container then [''container''] else [])
     @ (if storage then [''storage''] else []) @ (if node then [''node''] else [])"

section \<open>Lemmas\<close>

lemma sort_desc_set [simp]: "set (sort_desc key xs) = set xs"
  by (simp add: sort_desc_def)

lemma sort_desc_length [simp]: "length (sort_desc key xs) = length xs"
  by (simp add: sort_desc_def)

lemma sort_desc_sorted: "sorted_wrt (\<lambda>a b. key b \<le> key a) (sort_desc key xs)"
proof -
  have "sorted_wrt (\<lambda>a b. key a \<le> key b) (sort_key key (rev xs))"
    using sorted_sort_key [of key "rev xs"] by (simp add: sorted_wrt_map)
  then show ?thesis by (simp add: sort_desc_def sorted_wrt_rev)
qed

lemma stats_folds:
  "os_count (fold stats_step occs s) = os_count s + length occs"
  "os_critical_count (fold stats_step occs s) = os_critical_count s + length (filter is_critical occs)"
  "os_last_seen (fold stats_step occs s) = fold max (map occ_timestamp occs) (os_last_seen s)"
  "os_type_counts (fold stats_step occs s) = fold (\<lambda>occ. entry (occ_type occ) 0 Suc) occs (os_type_counts s)"
  by (induction occs arbitrary: s) (auto simp: stats_step_def max_def)

lemma stats_of:
  "map_of (observer_stats_of recent) cat =
     (if cat \<in> category ` set recent then Some (fold stats_step (filter (\<lambda>occ. category occ = cat) recent) stats_empty)
      else None)"
  by (simp add: observer_stats_of_def group_get)

lemma stat_total_count:
  assumes "\<And>s occ. f (stats_step occ s) = f s + (if P occ then 1 else 0)" "f stats_empty = 0"
  shows "stat_total f (observer_stats_of recent)
     = length (filter (\<lambda>occ. P occ \<and> category occ \<in> set categories) recent)"
proof -
  have fold: "f (fold stats_step occs s) = f s + length (filter P occs)" for occs s
    by (induction occs arbitrary: s) (simp_all add: assms(1))
  have one: "(case map_of (observer_stats_of recent) cat of None \<Rightarrow> 0 | Some s \<Rightarrow> f s)
      = length (filter (\<lambda>occ. P occ \<and> category occ = cat) recent)" for cat
  proof (cases "cat \<in> category ` set recent")
    case True
    then show ?thesis by (simp add: stats_of fold assms(2) conj_commute)
  next
    case False
    then have "filter (\<lambda>occ. P occ \<and> category occ = cat) recent = []" by (auto simp: filter_empty_conv)
    with False show ?thesis by (simp add: stats_of)
  qed
  have split: "length (filter (\<lambda>occ. P occ \<and> category occ \<in> set cats) recent)
      = sum_list (map (\<lambda>cat. length (filter (\<lambda>occ. P occ \<and> category occ = cat) recent)) cats)"
    if "distinct cats" for cats
    using that
  proof (induction cats)
    case (Cons c cats)
    have "length (filter (\<lambda>occ. P occ \<and> category occ \<in> set (c # cats)) recent)
        = length (filter (\<lambda>occ. P occ \<and> category occ = c) recent)
          + length (filter (\<lambda>occ. P occ \<and> category occ \<in> set cats) recent)"
      using Cons.prems by (induction recent) auto
    with Cons show ?case by simp
  qed simp
  have "distinct categories" by (simp add: categories_def)
  from split [OF this] show ?thesis by (simp add: stat_total_def one)
qed

text \<open>A file that has been seen is ignored.\<close>

definition forget :: "string \<Rightarrow> dir_listing \<Rightarrow> dir_listing" where
  "forget name dir =
     (case dir of
        Listing es \<Rightarrow> Listing (filter (\<lambda>e. case e of Inl _ \<Rightarrow> True | Inr f \<Rightarrow> df_name f \<noteq> name) es)
      | _ \<Rightarrow> dir)"

lemma scan_forget:
  "name \<in> set seen \<Longrightarrow>
     scan_entries from_json (filter (\<lambda>e. case e of Inl _ \<Rightarrow> True | Inr f \<Rightarrow> df_name f \<noteq> name) es) seen acc
       = scan_entries from_json es seen acc"
  by (induction from_json es seen acc rule: scan_entries.induct) auto

lemma scan_seen: "set seen \<subseteq> set (fst (scan_entries from_json es seen acc))"
proof (induction from_json es seen acc rule: scan_entries.induct)
  case (3 from_json f es seen acc)
  then show ?case by (cases "df_name f \<in> set seen") auto
qed simp_all

lemma tick_forget:
  "name \<in> set (wt_seen st) \<Longrightarrow>
     watch_tick from_json to_json json filters (forget name dir) st = watch_tick from_json to_json json filters dir st"
  by (auto simp: watch_tick_def forget_def scan_forget split: dir_listing.splits option.splits)

lemma tick_seen: "set (wt_seen st) \<subseteq> set (wt_seen (watch_tick from_json to_json json filters dir st))"
proof (cases "wt_end st = None \<and> (\<exists>es. dir = Listing es)")
  case True
  then obtain es where "wt_end st = None" "dir = Listing es" by blast
  with scan_seen [of "wt_seen st" from_json es "[]"] show ?thesis
    by (simp add: watch_tick_def Let_def split_def)
next
  case False
  then show ?thesis by (cases dir; cases "wt_end st") (auto simp: watch_tick_def)
qed

lemma run_forget:
  "name \<in> set (wt_seen st) \<Longrightarrow>
     fold (watch_tick from_json to_json json filters) (map (forget name) dirs) st
       = fold (watch_tick from_json to_json json filters) dirs st"
proof (induction dirs arbitrary: st)
  case (Cons dir dirs)
  with tick_seen [of st from_json to_json json filters dir] show ?case by (auto simp: tick_forget)
qed simp

definition unit_text :: "duration_unit \<Rightarrow> string" where
  "unit_text u = (case u of Seconds \<Rightarrow> ''s'' | Minutes \<Rightarrow> ''m'' | Hours \<Rightarrow> ''h'' | Days \<Rightarrow> ''d'')"

lemma unit_text_eqs:
  "u = ''s'' \<Longrightarrow> u = unit_text Seconds" "u = ''m'' \<Longrightarrow> u = unit_text Minutes"
  "u = ''h'' \<Longrightarrow> u = unit_text Hours" "u = ''d'' \<Longrightarrow> u = unit_text Days"
  by (simp_all add: unit_text_def)

lemma parse_duration_cases:
  assumes "2 \<le> length (trim text)"
  shows "parse_duration mk text =
     (if is_cont (last (trim text)) then Panicked
      else case parse_i64 (butlast (trim text)) of
        None \<Rightarrow> Failed (InvalidDurationNumber (butlast (trim text)))
      | Some num \<Rightarrow>
          if num \<le> 0 then Failed (DurationNotPositive (trim text))
          else (case find (\<lambda>u. unit_text u = [last (trim text)]) [Seconds, Minutes, Hours, Days] of
                  None \<Rightarrow> Failed (UnknownDurationUnit [last (trim text)])
                | Some unit \<Rightarrow> (case mk unit num of None \<Rightarrow> Panicked | Some d \<Rightarrow> Done d)))"
proof -
  define s where "s = trim text"
  have len: "2 \<le> length s" "s \<noteq> []" using assms by (auto simp: s_def)
  have drop: "drop (length s - 1) s = [last s]" using len by (cases s rule: rev_cases) simp_all
  have bound: "char_boundary (length s - 1) s \<longleftrightarrow> \<not> is_cont (last s)"
    using len by (auto simp: char_boundary_def last_conv_nth)
  have take: "take (length s - 1) s = butlast s" by (simp add: butlast_conv_take)
  show ?thesis
    unfolding parse_duration_def s_def [symmetric] Let_def drop take bound
    using len by (auto simp: unit_text_def split: option.splits)
qed

lemma find_unit: "find (\<lambda>u. unit_text u = [c]) [Seconds, Minutes, Hours, Days] = Some u \<longleftrightarrow> unit_text u = [c]"
  by (cases u) (auto simp: unit_text_def)

lemma find_no_unit: "find (\<lambda>u. unit_text u = [c]) [Seconds, Minutes, Hours, Days] = None \<longleftrightarrow> (\<forall>u. unit_text u \<noteq> [c])"
  using find_unit [of c] by (metis not_Some_eq)

lemma take_newest:
  assumes "\<And>a b. a \<in> set xs \<Longrightarrow> b \<in> set xs \<Longrightarrow> key a \<le> key b \<longleftrightarrow> t a \<le> (t b :: 'k :: linorder)"
  shows "sorted_wrt (\<lambda>a b. t b \<le> t a) (take n (sort_desc key xs))"
    "a \<in> set (take n (sort_desc key xs)) \<Longrightarrow> b \<in> set xs - set (take n (sort_desc key xs)) \<Longrightarrow> t b \<le> t a"
    "set (take n (sort_desc key xs)) \<subseteq> set xs"
    "length (take n (sort_desc key xs)) = min n (length xs)"
proof -
  let ?l = "sort_desc key xs"
  have "sorted_wrt (\<lambda>a b. t b \<le> t a) ?l"
    using sort_desc_sorted [of key xs] by (rule sorted_wrt_mono_rel [rotated]) (simp add: assms)
  then have parts: "sorted_wrt (\<lambda>a b. t b \<le> t a) (take n ?l @ drop n ?l)" by simp
  then show "sorted_wrt (\<lambda>a b. t b \<le> t a) (take n ?l)" unfolding sorted_wrt_append by blast
  show "set (take n ?l) \<subseteq> set xs" using set_take_subset [of n ?l] by simp
  show "length (take n ?l) = min n (length xs)" by simp
  have "set xs = set (take n ?l) \<union> set (drop n ?l)"
    using set_append [of "take n ?l" "drop n ?l"] by simp
  with parts show "a \<in> set (take n ?l) \<Longrightarrow> b \<in> set xs - set (take n ?l) \<Longrightarrow> t b \<le> t a"
    unfolding sorted_wrt_append by blast
qed

section \<open>Properties\<close>

text \<open>
  C28: \<open>tapio recent --since\<close>, which compares texts only, shows exactly the newest twenty of the
  occurrences whose time lies in the window, newest first, when their timestamps are those
  that the agent writes and the cutoff is printed as chrono documents it.
\<close>

theorem recent_shows_newest_in_window:
  assumes "list_all (\<lambda>occ. occ_timestamp occ = unix_nanos_to_rfc3339 (time occ)) occs"
    and "parse_duration mk since = Done d" "cutoff d = Some (chrono_rfc3339 n)" "n < 2 ^ 64"
  shows "case recent_occurrences mk cutoff (Some since) occs of
       Done shown \<Rightarrow>
         sorted_wrt (\<lambda>a b. time b \<le> time a) shown
         \<and> set shown \<subseteq> {occ \<in> set occs. n \<le> unat (time occ)}
         \<and> length shown = min 20 (length (filter (\<lambda>occ. n \<le> unat (time occ)) occs))
         \<and> list_all (\<lambda>a. list_all (\<lambda>b. b \<in> set shown \<or> unat (time b) < n \<or> time b \<le> time a) occs) shown
     | _ \<Rightarrow> False"
proof -
  have ts: "occ_timestamp occ = unix_nanos_to_rfc3339 (time occ)" if "occ \<in> set occs" for occ
    using assms(1) that by (simp add: list_all_iff)
  have keep: "chrono_rfc3339 n \<le> occ_timestamp occ \<longleftrightarrow> n \<le> unat (time occ)" if "occ \<in> set occs" for occ
    using before_cutoff [OF assms(4), of "time occ"] by (simp add: ts [OF that] not_less [symmetric])
  define kept where "kept = filter (\<lambda>occ. n \<le> unat (time occ)) occs"
  have "filter (\<lambda>occ. chrono_rfc3339 n \<le> occ_timestamp occ) occs = kept"
    unfolding kept_def by (rule filter_cong) (simp_all add: keep)
  then have r: "recent_occurrences mk cutoff (Some since) occs = Done (take 20 (sort_desc occ_timestamp kept))"
    by (simp add: recent_occurrences_def in_window_def assms(2,3))
  have order: "occ_timestamp a \<le> occ_timestamp b \<longleftrightarrow> time a \<le> time b" if "a \<in> set kept" "b \<in> set kept" for a b
    using that rfc3339_less [of "time b" "time a"] by (simp add: kept_def ts not_less [symmetric])
  note newest = take_newest [where xs = kept and key = occ_timestamp and t = time and n = 20, OF order]
  have "set (take 20 (sort_desc occ_timestamp kept)) \<subseteq> {occ \<in> set occs. n \<le> unat (time occ)}"
    using newest(3) by (auto simp: kept_def)
  moreover have "list_all (\<lambda>a. list_all (\<lambda>b. b \<in> set (take 20 (sort_desc occ_timestamp kept)) \<or> unat (time b) < n
      \<or> time b \<le> time a) occs) (take 20 (sort_desc occ_timestamp kept))"
    unfolding list_all_iff using newest(2) by (force simp: kept_def not_less)
  ultimately show ?thesis unfolding r outcome_of.case using newest(1,4) by (auto simp: kept_def)
qed

text \<open>
  The statistics behind \<open>tapio health\<close> are exact: an observer is listed when it has a recent
  occurrence, with the number of its occurrences, of its critical ones, the greatest of its
  timestamps and the number of occurrences of each type; the overall totals count the
  occurrences of the four known observers.
\<close>

theorem health_statistics_exact:
  "(case map_of (observer_stats_of recent) cat of
      None \<Rightarrow> cat \<notin> category ` set recent
    | Some s \<Rightarrow> (let own = filter (\<lambda>occ. category occ = cat) recent in
        own \<noteq> [] \<and> os_count s = length own \<and> os_critical_count s = length (filter is_critical own)
        \<and> os_last_seen s = Max (set (map occ_timestamp own))
        \<and> map_of (os_type_counts s) t
            = (if t \<in> occ_type ` set own then Some (length (filter (\<lambda>occ. occ_type occ = t) own)) else None)))
     \<and> stat_total os_count (observer_stats_of recent)
         = length (filter (\<lambda>occ. category occ \<in> set categories) recent)
     \<and> stat_total os_critical_count (observer_stats_of recent)
         = length (filter (\<lambda>occ. is_critical occ \<and> category occ \<in> set categories) recent)"
proof (intro conjI)
  define own where "own = filter (\<lambda>occ. category occ = cat) recent"
  have types: "map_of (fold (\<lambda>occ. entry (occ_type occ) 0 Suc) own []) t
      = (if t \<in> occ_type ` set own then Some (length (filter (\<lambda>occ. occ_type occ = t) own)) else None)"
    using group_get [of occ_type 0 "\<lambda>_. Suc" own t] by (simp add: group_by_def fold_Suc)
  have last: "fold max (map occ_timestamp own) [] = Max (set (map occ_timestamp own))" if "own \<noteq> []"
  proof -
    have "fold max (map occ_timestamp own) [] = Max (insert [] (set (map occ_timestamp own)))"
      using fold_max [of "\<lambda>x. x" "map occ_timestamp own" "[]"] by simp
    also have "\<dots> = Max (set (map occ_timestamp own))" using that by (subst Max_insert) (auto simp: max_def)
    finally show ?thesis .
  qed
  have "own \<noteq> []" if "cat \<in> category ` set recent" using that by (auto simp: own_def filter_empty_conv)
  then show "case map_of (observer_stats_of recent) cat of
      None \<Rightarrow> cat \<notin> category ` set recent
    | Some s \<Rightarrow> (let own = filter (\<lambda>occ. category occ = cat) recent in
        own \<noteq> [] \<and> os_count s = length own \<and> os_critical_count s = length (filter is_critical own)
        \<and> os_last_seen s = Max (set (map occ_timestamp own))
        \<and> map_of (os_type_counts s) t
            = (if t \<in> occ_type ` set own then Some (length (filter (\<lambda>occ. occ_type occ = t) own)) else None))"
    unfolding own_def [symmetric] Let_def using types last
    by (simp add: stats_of stats_folds own_def [symmetric]) (simp add: stats_empty_def)
next
  show "stat_total os_count (observer_stats_of recent) = length (filter (\<lambda>occ. category occ \<in> set categories) recent)"
    using stat_total_count [of os_count "\<lambda>_. True" recent] by (simp add: stats_step_def stats_empty_def)
  show "stat_total os_critical_count (observer_stats_of recent)
      = length (filter (\<lambda>occ. is_critical occ \<and> category occ \<in> set categories) recent)"
    using stat_total_count [of os_critical_count is_critical recent] by (simp add: stats_step_def stats_empty_def)
qed

text \<open>
  What \<open>tapio watch\<close> has seen once it never reads again: with a name among the seen ones, any
  later ticks print the same whether or not the directory still lists that file, so a file
  that was read while the agent was still writing it is lost to the stream.
\<close>

theorem watch_never_rereads:
  assumes "wt_end st = None" "df_name f \<notin> set (wt_seen st)"
    and "occurrence_of_entry from_json (Inr f) = None"
  shows "let tick = watch_tick from_json to_json json filters; st1 = tick (Listing [Inr f]) st in
     wt_printed st1 = wt_printed st \<and> wt_end st1 = None
     \<and> fold tick dirs st1 = fold tick (map (forget (df_name f)) dirs) st1"
proof -
  have st1: "watch_tick from_json to_json json filters (Listing [Inr f]) st
      = st\<lparr>wt_seen := df_name f # wt_seen st\<rparr>"
    using assms by (simp add: watch_tick_def)
  show ?thesis unfolding Let_def st1 using assms(1) by (simp add: run_forget)
qed

text \<open>
  Parsing a duration panics exactly when its last character is not ASCII or chrono's
  constructor is out of range, and returns exactly for a positive number with one of the
  four units.
\<close>

theorem parse_duration_outcomes:
  "(parse_duration mk text = Panicked \<longleftrightarrow> 2 \<le> length (trim text) \<and> (is_cont (last (trim text))
      \<or> (\<exists>u num. trim text = butlast (trim text) @ unit_text u \<and> parse_i64 (butlast (trim text)) = Some num
           \<and> 0 < num \<and> mk u num = None)))
   \<and> (parse_duration mk text = Done d \<longleftrightarrow> 2 \<le> length (trim text)
      \<and> (\<exists>u num. trim text = butlast (trim text) @ unit_text u \<and> parse_i64 (butlast (trim text)) = Some num
           \<and> 0 < num \<and> mk u num = Some d))"
proof (cases "2 \<le> length (trim text)")
  case False
  then show ?thesis by (simp add: parse_duration_def Let_def)
next
  case True
  define s where "s = trim text"
  have ne: "s \<noteq> []" using True by (auto simp: s_def)
  have unit: "s = butlast s @ unit_text u \<longleftrightarrow> unit_text u = [last s]" for u
    using append_butlast_last_id [OF ne] by (metis same_append_eq)
  have ascii: "\<not> is_cont (last s)" if "unit_text u = [last s]" for u
  proof -
    have "last s = hd (unit_text u)" by (simp add: that)
    then show ?thesis by (cases u) (simp_all add: unit_text_def is_cont_def in_range_def)
  qed
  have len: "2 \<le> length s" using True by (simp add: s_def)
  note pd = parse_duration_cases [OF True, of mk, folded s_def]
  have "(parse_duration mk text = Panicked \<longleftrightarrow> is_cont (last s)
      \<or> (\<exists>u num. unit_text u = [last s] \<and> parse_i64 (butlast s) = Some num \<and> 0 < num \<and> mk u num = None))
    \<and> (parse_duration mk text = Done d \<longleftrightarrow>
        (\<exists>u num. unit_text u = [last s] \<and> parse_i64 (butlast s) = Some num \<and> 0 < num \<and> mk u num = Some d))"
  proof (cases "is_cont (last s)")
    case True
    with ascii show ?thesis by (auto simp: pd)
  next
    case nc: False
    show ?thesis
    proof (cases "parse_i64 (butlast s)")
      case None
      with nc show ?thesis by (simp add: pd)
    next
      case (Some num)
      show ?thesis
      proof (cases "find (\<lambda>u. unit_text u = [last s]) [Seconds, Minutes, Hours, Days]")
        case none: None
        then have "\<forall>u. unit_text u \<noteq> [last s]" by (rule find_no_unit [THEN iffD1])
        moreover have "parse_duration mk text = (if num \<le> 0 then Failed (DurationNotPositive s)
            else Failed (UnknownDurationUnit [last s]))"
          unfolding pd if_not_P [OF nc] Some none by simp
        ultimately show ?thesis using nc by (cases "num \<le> 0") simp_all
      next
        case (Some u)
        then have u: "unit_text u = [last s]" by (rule find_unit [THEN iffD1])
        then have only: "unit_text v = [last s] \<longleftrightarrow> v = u" for v
          unfolding u [symmetric] by (cases u; cases v) (simp_all add: unit_text_def)
        show ?thesis
          using nc Some \<open>parse_i64 (butlast s) = Some num\<close>
          by (simp add: pd only not_le del: find.simps split: option.split)
      qed
    qed
  qed
  then show ?thesis using len unfolding s_def [symmetric] unit by simp
qed

section \<open>Witnesses\<close>

definition timed :: "u64 \<Rightarrow> occurrence" where
  "timed w = occurrence_with [] (unix_nanos_to_rfc3339 w) ''kernel.network.x'' SevInfo OutFailure"

lemma recent_shows_newest_in_window_witness:
  "case recent_occurrences (\<lambda>_ n. Some n) (\<lambda>_. Some (chrono_rfc3339 6)) (Some ''5m'') [timed 5, timed 7] of
     Done shown \<Rightarrow> length shown = 1 | _ \<Rightarrow> False"
proof -
  have time: "timestamp_to_unix_nanos (occ_timestamp (timed w)) = w" for w
    by (simp add: timed_def occurrence_with_def timestamp_roundtrip_lemma)
  have "visible (CHR ''5'')" "visible (CHR ''m'')" by (simp_all add: visible_def)
  then have "trim ''5m'' = ''5m''" by (intro trim_visible_ends) simp_all
  then have "parse_duration (\<lambda>_ n. Some n) ''5m'' = Done 5"
    by (simp add: parse_duration_def char_boundary_def is_cont_def in_range_def parse_i64_def parse_uint_def
        strip_plus_def parse_digits_def is_digit_def digits_val_def digit_val_def)
  from recent_shows_newest_in_window [where time = "\<lambda>occ. timestamp_to_unix_nanos (occ_timestamp occ)" and n = 6,
      OF _ this, of "[timed 5, timed 7]" "\<lambda>_. Some (chrono_rfc3339 6)"]
  show ?thesis
    by (auto simp: time timed_def occurrence_with_def timestamp_roundtrip_lemma split: outcome_of.splits)
qed

lemma watch_never_rereads_witness:
  "wt_printed (fold (watch_tick (\<lambda>t. if t = ''{}'' then Inr (timed 7) else Inl ''eof'') (\<lambda>_. Inr ''{}'') True [])
     [Listing [Inr \<lparr>df_name = ''a.json'', df_read = Inr ''{''\<rparr>], Listing [Inr \<lparr>df_name = ''a.json'', df_read = Inr ''{}''\<rparr>]]
     (watch_start MissingDir)) = []"
  using watch_never_rereads [of "watch_start MissingDir" "\<lparr>df_name = ''a.json'', df_read = Inr ''{''\<rparr>"
      "\<lambda>t. if t = ''{}'' then Inr (timed 7) else Inl ''eof''" "\<lambda>_. Inr ''{}''" True "[]"
      "[Listing [Inr \<lparr>df_name = ''a.json'', df_read = Inr ''{}''\<rparr>]]"]
  by (simp add: watch_start_def occurrence_of_entry_def read_occurrence_file_def Let_def forget_def watch_tick_def)

end
