(* ===== verification/Mcp.thy ===== *)
theory Mcp
  imports Cli Json
begin

text \<open>
  The MCP server of \<open>tapio-cli/src/main.rs\<close>: JSON-RPC 2.0 over standard input and output,
  one request per line. The parameters of the tool (\<open>Cli\<close>), the JSON parser and printers
  and the version of the package are gathered in \<open>mcp_env\<close>.
\<close>

record 'd mcp_env =
  me_version :: string
  me_parse :: "string \<Rightarrow> string + json"
  me_from_json :: "string \<Rightarrow> string + occurrence"
  me_to_string :: "occurrence list \<Rightarrow> string + string"
  me_to_string_pretty :: "json \<Rightarrow> string + string"
  me_mk :: "duration_unit \<Rightarrow> int \<Rightarrow> 'd option"
  me_cutoff :: "'d \<Rightarrow> string option"
  me_one_hour_ago :: string
  me_order :: "(string \<times> nat \<times> nat) list \<Rightarrow> (string \<times> nat \<times> nat) list"

section \<open>Values\<close>

text \<open>\<open>as_str\<close>, \<open>as_f64\<close>, \<open>as_u64\<close>, and the saturating cast of a float to \<open>i64\<close>.\<close>

definition as_str :: "json \<Rightarrow> string option" where
  "as_str j = (case j of JStr s \<Rightarrow> Some s | _ \<Rightarrow> None)"

definition as_f64 :: "json \<Rightarrow> f64 option" where
  "as_f64 j = (case j of JPos w \<Rightarrow> Some (f64_of_u64 w) | JNeg i \<Rightarrow> Some (fl (of_int i)) | JFloat x \<Rightarrow> Some x | _ \<Rightarrow> None)"

definition as_u64 :: "json \<Rightarrow> u64 option" where
  "as_u64 j = (case j of JPos w \<Rightarrow> Some w | _ \<Rightarrow> None)"

definition f64_as_i64 :: "f64 \<Rightarrow> int" where
  "f64_as_i64 x =
     (case x of
        NaN \<Rightarrow> 0
      | Inf negative \<Rightarrow> if negative then - (2 ^ 63) else 2 ^ 63 - 1
      | Fin r \<Rightarrow> max (- (2 ^ 63)) (min (2 ^ 63 - 1) (if r < 0 then - floor (- r) else floor r)))"

definition get_str :: "json \<Rightarrow> string \<Rightarrow> string option" where
  "get_str j key = (case json_get j key of None \<Rightarrow> None | Some v \<Rightarrow> as_str v)"

section \<open>Responses\<close>

definition json_of_option :: "json option \<Rightarrow> json" where
  "json_of_option j = (case j of None \<Rightarrow> JNull | Some v \<Rightarrow> v)"

definition mcp_result_response :: "json option \<Rightarrow> json \<Rightarrow> json" where
  "mcp_result_response req_id result =
     json_object [(''jsonrpc'', JStr ''2.0''), (''id'', json_of_option req_id), (''result'', result)]"

definition json_of_int :: "int \<Rightarrow> json" where
  "json_of_int i = (if i < 0 then JNeg i else JPos (word_of_int i))"

definition mcp_error_response :: "json option \<Rightarrow> int \<Rightarrow> string \<Rightarrow> json" where
  "mcp_error_response req_id code message =
     json_object [(''jsonrpc'', JStr ''2.0''), (''id'', json_of_option req_id),
       (''error'', json_object [(''code'', json_of_int code), (''message'', JStr message)])]"

definition text_content :: "string \<Rightarrow> string \<times> json" where
  "text_content content =
     (''content'', JArr [json_object [(''type'', JStr ''text''), (''text'', JStr content)]])"

definition initialize_result :: "string \<Rightarrow> json" where
  "initialize_result version = json_object
     [(''protocolVersion'', JStr ''2024-11-05''),
      (''capabilities'', json_object [(''tools'', json_object [])]),
      (''serverInfo'', json_object [(''name'', JStr ''tapio''), (''version'', JStr version)])]"

definition tool :: "string \<Rightarrow> string \<Rightarrow> (string \<times> json) list \<Rightarrow> json" where
  "tool name description properties = json_object
     [(''name'', JStr name), (''description'', JStr description),
      (''inputSchema'', json_object [(''type'', JStr ''object''), (''properties'', json_object properties)])]"

definition choice_of :: "string list \<Rightarrow> json" where
  "choice_of options = json_object
     [(''type'', JStr ''string''), (''enum'', JArr (map JStr options)), (''default'', JStr ''all'')]"

definition tools_list :: json where
  "tools_list = json_object [(''tools'', JArr
     [tool ''tapio_recent_anomalies'' ''Get recent kernel anomalies from the last N minutes''
        [(''minutes'', json_object [(''type'', JStr ''number''), (''default'', JPos 5),
            (''description'', JStr ''Time window in minutes'')]),
         (''observer'', choice_of [''network'', ''container'', ''storage'', ''node'', ''all'']),
         (''severity'', choice_of [''warning'', ''error'', ''critical'', ''all''])],
      tool ''tapio_node_health'' ''Get current node health summary across all observers'' [],
      tool ''tapio_watch_stream'' ''Get the most recent anomalies (snapshot, not streaming)''
        [(''observer'', json_object [(''type'', JStr ''string''), (''description'', JStr ''Filter by observer'')]),
         (''max_events'', json_object [(''type'', JStr ''number''), (''default'', JPos 50),
            (''description'', JStr ''Maximum events to return'')])]])]"

section \<open>Tools\<close>

definition encoded :: "string + string \<Rightarrow> (string \<Rightarrow> json) \<Rightarrow> json outcome_of" where
  "encoded r f = (case r of Inl e \<Rightarrow> Failed (EncodeFailed e) | Inr content \<Rightarrow> Done (f content))"

definition severity_name :: "severity \<Rightarrow> string" where
  "severity_name s = (case s of SevWarning \<Rightarrow> ''warning'' | SevError \<Rightarrow> ''error'' | SevCritical \<Rightarrow> ''critical''
     | _ \<Rightarrow> ''other'')"

definition recent_anomalies :: "'d mcp_env \<Rightarrow> dir_listing \<Rightarrow> json \<Rightarrow> json outcome_of" where
  "recent_anomalies env dir args =
     (let minutes = unwrap_or (Option.bind (json_get args ''minutes'') as_f64) (Fin 5);
          observer = unwrap_or (get_str args ''observer'') ''all'';
          sev = unwrap_or (get_str args ''severity'') ''all''
      in then_do (load_occurrences (me_from_json env) dir) (\<lambda>occs.
         case Option.bind (me_mk env Seconds (f64_as_i64 (fmul minutes (Fin 60)))) (me_cutoff env) of
           None \<Rightarrow> Panicked
         | Some cutoff \<Rightarrow>
             (let in_time = filter (\<lambda>occ. cutoff \<le> occ_timestamp occ) occs;
                  observed = (if observer \<noteq> ''all'' then filter (\<lambda>occ. category occ = observer) in_time else in_time);
                  chosen = (if sev \<noteq> ''all'' then filter (\<lambda>occ. severity_name (occ_severity occ) = sev) observed
                            else observed)
              in encoded (me_to_string env (sort_desc occ_timestamp chosen))
                   (\<lambda>content. json_object [text_content content]))))"

definition count_occurrence :: "occurrence \<Rightarrow> nat \<times> nat \<Rightarrow> nat \<times> nat" where
  "count_occurrence occ n = (fst n + 1, if is_critical occ then snd n + 1 else snd n)"

definition by_observer :: "occurrence list \<Rightarrow> (string \<times> nat \<times> nat) list" where
  "by_observer recent = group_by category (0, 0) count_occurrence recent"

definition health_json :: "((string \<times> nat \<times> nat) list \<Rightarrow> (string \<times> nat \<times> nat) list) \<Rightarrow> occurrence list \<Rightarrow> json" where
  "health_json order recent =
     (let counts = by_observer recent;
          total = sum_list (map (\<lambda>kv. fst (snd kv)) counts);
          total_critical = sum_list (map (\<lambda>kv. snd (snd kv)) counts)
      in json_object
        [(''status'', JStr (health_status total total_critical)),
         (''total_anomalies_1h'', JPos (word_of_nat total)),
         (''total_critical_1h'', JPos (word_of_nat total_critical)),
         (''observers'', JArr (map (\<lambda>(k, count, critical). json_object
            [(''name'', JStr k), (''anomalies'', JPos (word_of_nat count)), (''critical'', JPos (word_of_nat critical))])
            (order counts)))])"

definition node_health :: "'d mcp_env \<Rightarrow> dir_listing \<Rightarrow> json outcome_of" where
  "node_health env dir = then_do (load_occurrences (me_from_json env) dir) (\<lambda>occs.
     encoded (me_to_string_pretty env (health_json (me_order env)
         (filter (\<lambda>occ. me_one_hour_ago env \<le> occ_timestamp occ) occs)))
       (\<lambda>content. json_object [text_content content]))"

definition watch_stream :: "'d mcp_env \<Rightarrow> dir_listing \<Rightarrow> json \<Rightarrow> json outcome_of" where
  "watch_stream env dir args =
     (let max_events = unat (unwrap_or (Option.bind (json_get args ''max_events'') as_u64) 50)
      in then_do (load_occurrences (me_from_json env) dir) (\<lambda>occs.
         let observed = (case get_str args ''observer'' of None \<Rightarrow> occs
                         | Some obs \<Rightarrow> filter (\<lambda>occ. category occ = obs) occs)
         in encoded (me_to_string env (take max_events (sort_desc occ_timestamp observed)))
              (\<lambda>content. json_object [text_content content])))"

definition mcp_call_tool :: "'d mcp_env \<Rightarrow> dir_listing \<Rightarrow> string \<Rightarrow> json \<Rightarrow> json outcome_of" where
  "mcp_call_tool env dir name args =
     (if name = ''tapio_recent_anomalies'' then recent_anomalies env dir args
      else if name = ''tapio_node_health'' then node_health env dir
      else if name = ''tapio_watch_stream'' then watch_stream env dir args
      else Done (json_object [text_content (''Unknown tool: '' @ name), (''isError'', JBool True)]))"

section \<open>Requests\<close>

definition error_text :: "cli_error \<Rightarrow> string" where
  "error_text e = (case e of
     DirUnreadable m \<Rightarrow> m | EncodeFailed m \<Rightarrow> m | StdinUnreadable m \<Rightarrow> m
   | InvalidDuration s \<Rightarrow> ''invalid duration: '' @ s
   | InvalidDurationNumber s \<Rightarrow> ''invalid duration number: '' @ s
   | DurationNotPositive s \<Rightarrow> ''duration must be positive: '' @ s
   | UnknownDurationUnit u \<Rightarrow> ''unknown duration unit: '' @ u @ '' (use s/m/h/d)'')"

definition mcp_handle_request :: "'d mcp_env \<Rightarrow> dir_listing \<Rightarrow> json \<Rightarrow> json option outcome_of" where
  "mcp_handle_request env dir request =
     (let req_id = json_get request ''id'';
          meth = unwrap_or (get_str request ''method'') [];
          params = unwrap_or (json_get request ''params'') (json_object [])
      in if req_id = None then Done None
         else if meth = ''initialize'' then Done (Some (mcp_result_response req_id (initialize_result (me_version env))))
         else if meth = ''tools/list'' then Done (Some (mcp_result_response req_id tools_list))
         else if meth = ''tools/call'' then
           (let tool_name = unwrap_or (get_str params ''name'') [];
                args = unwrap_or (json_get params ''arguments'') (json_object [])
            in case mcp_call_tool env dir tool_name args of
                 Done result \<Rightarrow> Done (Some (mcp_result_response req_id result))
               | Failed e \<Rightarrow> Done (Some (mcp_error_response req_id (- 32603)
                   (''Tool call failed for '' @ [CHR 0x27] @ tool_name @ [CHR 0x27] @ '': '' @ error_text e)))
               | Panicked \<Rightarrow> Panicked)
         else Done (Some (mcp_error_response req_id (- 32601) (''Method not found: '' @ meth))))"

definition mcp_handle_line :: "'d mcp_env \<Rightarrow> dir_listing \<Rightarrow> string \<Rightarrow> json option outcome_of" where
  "mcp_handle_line env dir line =
     (case me_parse env line of
        Inl _ \<Rightarrow> Done (Some (mcp_error_response None (- 32700) ''Parse error''))
      | Inr request \<Rightarrow> mcp_handle_request env dir request)"

text \<open>The loop over the lines of standard input, each with the directory as it is then.\<close>

fun cmd_mcp :: "'d mcp_env \<Rightarrow> (string + string \<times> dir_listing) list \<Rightarrow> json list \<times> unit outcome_of" where
  "cmd_mcp env [] = ([], Done ())"
| "cmd_mcp env (Inl e # ls) = ([], Failed (StdinUnreadable e))"
| "cmd_mcp env (Inr (line, dir) # ls) =
     (if trim line = [] then cmd_mcp env ls
      else case mcp_handle_line env dir (trim line) of
             Done None \<Rightarrow> cmd_mcp env ls
           | Done (Some response) \<Rightarrow> (let (responses, end) = cmd_mcp env ls in (response # responses, end))
           | Failed e \<Rightarrow> ([], Failed e)
           | Panicked \<Rightarrow> ([], Panicked))"

section \<open>Lemmas\<close>

lemma object_get:
  "json_get (json_object [(a, x), (b, y), (c, z)]) k
     = (if k = c then Some z else if k = b then Some y else if k = a then Some x else None)"
  by (simp add: json_get_object)

lemma result_fields:
  "json_get (mcp_result_response i r) ''jsonrpc'' = Some (JStr ''2.0'')"
  "json_get (mcp_result_response i r) ''id'' = Some (json_of_option i)"
  "json_get (mcp_result_response i r) ''result'' = Some r"
  "json_get (mcp_result_response i r) ''error'' = None"
  by (simp_all add: mcp_result_response_def object_get)

lemma error_fields:
  "json_get (mcp_error_response i code m) ''jsonrpc'' = Some (JStr ''2.0'')"
  "json_get (mcp_error_response i code m) ''id'' = Some (json_of_option i)"
  "json_get (mcp_error_response i code m) ''result'' = None"
  "json_get (mcp_error_response i code m) ''error'' \<noteq> None"
  by (simp_all add: mcp_error_response_def object_get)

lemmas response_fields = result_fields error_fields

text \<open>Only the window of recent anomalies can panic.\<close>

lemma encoded_no_panic [simp]: "encoded r f \<noteq> Panicked"
  by (simp add: encoded_def split: sum.splits)

lemma then_do_Panicked: "then_do r f = Panicked \<longleftrightarrow> r = Panicked \<or> (\<exists>x. r = Done x \<and> f x = Panicked)"
  by (cases r) simp_all

lemma load_no_panic [simp]: "load_occurrences from_json dir \<noteq> Panicked"
  by (simp add: load_occurrences_def split: dir_listing.splits)

lemma tool_panic:
  "mcp_call_tool env dir name args = Panicked \<Longrightarrow>
     name = ''tapio_recent_anomalies''
     \<and> Option.bind (me_mk env Seconds (f64_as_i64 (fmul (unwrap_or (Option.bind (json_get args ''minutes'') as_f64) (Fin 5))
           (Fin 60)))) (me_cutoff env) = None"
  by (auto simp: mcp_call_tool_def recent_anomalies_def node_health_def watch_stream_def then_do_Panicked Let_def
      split: if_splits option.splits)

lemma by_observer_totals:
  "sum_list (map (\<lambda>kv. fst (snd kv)) (by_observer recent)) = length recent"
  "sum_list (map (\<lambda>kv. snd (snd kv)) (by_observer recent)) = length (filter is_critical recent)"
proof -
  show "sum_list (map (\<lambda>kv. fst (snd kv)) (by_observer recent)) = length recent"
    using group_sum [of fst "(0, 0)" count_occurrence "\<lambda>_. 1" category recent]
    by (simp add: by_observer_def count_occurrence_def sum_list_triv)
  have "sum_list (map (\<lambda>occ. if is_critical occ then 1 else 0) recent) = length (filter is_critical recent)"
    by (induction recent) simp_all
  then show "sum_list (map (\<lambda>kv. snd (snd kv)) (by_observer recent)) = length (filter is_critical recent)"
    using group_sum [of snd "(0, 0)" count_occurrence "\<lambda>occ. if is_critical occ then 1 else 0" category recent]
    by (simp add: by_observer_def count_occurrence_def)
qed

section \<open>Properties\<close>

text \<open>
  The server answers every line but a notification with exactly one response, which carries
  the version 2.0, the identifier of the request (null when the line does not parse) and
  either a result or an error; only a time window outside chrono's range can end it.
\<close>

theorem mcp_answers_each_request:
  "case mcp_handle_line env dir line of
     Done None \<Rightarrow> (case me_parse env line of Inr request \<Rightarrow> json_get request ''id'' = None | Inl _ \<Rightarrow> False)
   | Done (Some response) \<Rightarrow>
       json_get response ''jsonrpc'' = Some (JStr ''2.0'')
       \<and> (json_get response ''result'' = None \<longleftrightarrow> json_get response ''error'' \<noteq> None)
       \<and> json_get response ''id''
           = (case me_parse env line of Inl _ \<Rightarrow> Some JNull | Inr request \<Rightarrow> json_get request ''id'')
       \<and> (case me_parse env line of Inl _ \<Rightarrow> True | Inr request \<Rightarrow> json_get request ''id'' \<noteq> None)
   | Failed _ \<Rightarrow> False
   | Panicked \<Rightarrow> (case me_parse env line of
         Inl _ \<Rightarrow> False
       | Inr request \<Rightarrow> (let args = unwrap_or (json_get (unwrap_or (json_get request ''params'') (json_object [])) ''arguments'')
                            (json_object [])
           in get_str request ''method'' = Some ''tools/call''
              \<and> Option.bind (me_mk env Seconds (f64_as_i64 (fmul (unwrap_or (Option.bind (json_get args ''minutes'') as_f64)
                   (Fin 5)) (Fin 60)))) (me_cutoff env) = None))"
proof (cases "me_parse env line")
  case (Inl e)
  then show ?thesis by (simp add: mcp_handle_line_def response_fields json_of_option_def)
next
  case (Inr request)
  define meth where "meth = unwrap_or (get_str request ''method'') []"
  have call: "get_str request ''method'' = Some ''tools/call''" if "meth = ''tools/call''"
    using that by (cases "get_str request ''method''") (simp_all add: meth_def)
  show ?thesis
  proof (cases "json_get request ''id''")
    case None
    with Inr show ?thesis by (simp add: mcp_handle_line_def mcp_handle_request_def Let_def)
  next
    case (Some i)
    define args where "args = unwrap_or (json_get (unwrap_or (json_get request ''params'') (json_object [])) ''arguments'') (json_object [])"
    define name where "name = unwrap_or (get_str (unwrap_or (json_get request ''params'') (json_object [])) ''name'') []"
    note unfold = mcp_handle_line_def mcp_handle_request_def Inr Some Let_def meth_def [symmetric] args_def [symmetric]
      name_def [symmetric]
    consider "meth = ''initialize''" | "meth = ''tools/list''" | "meth = ''tools/call''"
      | "meth \<notin> {''initialize'', ''tools/list'', ''tools/call''}" by blast
    then show ?thesis
    proof cases
      case 3
      with tool_panic [of env dir name args] call show ?thesis
        by (cases "mcp_call_tool env dir name args") (simp_all add: unfold response_fields json_of_option_def)
    qed (simp_all add: unfold response_fields json_of_option_def)
  qed
qed

text \<open>
  C40: \<open>tapio health\<close> and the MCP tool judge the node alike: over occurrences of the four known
  observers the status and both totals are the same, whatever the iteration order of the
  hash map.
\<close>

theorem health_views_agree:
  assumes "list_all (\<lambda>occ. category occ \<in> set categories) recent"
  shows "let stats = observer_stats_of recent; total = stat_total os_count stats;
             critical = stat_total os_critical_count stats; report = health_json order recent in
     get_str report ''status'' = Some (health_status total critical)
     \<and> json_get report ''total_anomalies_1h'' = Some (JPos (word_of_nat total))
     \<and> json_get report ''total_critical_1h'' = Some (JPos (word_of_nat critical))"
proof -
  have "filter (\<lambda>occ. True \<and> category occ \<in> set categories) recent = recent"
    "filter (\<lambda>occ. is_critical occ \<and> category occ \<in> set categories) recent = filter is_critical recent"
    using assms by (simp_all add: list_all_iff filter_id_conv cong: filter_cong)
  then have "stat_total os_count (observer_stats_of recent) = length recent"
    "stat_total os_critical_count (observer_stats_of recent) = length (filter is_critical recent)"
    using stat_total_count [of os_count "\<lambda>_. True" recent] stat_total_count [of os_critical_count is_critical recent]
    by (simp_all add: stats_step_def stats_empty_def)
  then show ?thesis
    by (simp add: health_json_def by_observer_totals Let_def get_str_def as_str_def json_get_object)
qed

lemma health_views_agree_witness:
  "get_str (health_json rev [timed 5, timed 7]) ''status'' = Some ''degraded''"
proof -
  have "category (timed w) = ''network''" for w
    by (simp add: category_def observer_category_def timed_def occurrence_with_def)
  then have "list_all (\<lambda>occ. category occ \<in> set categories) [timed 5, timed 7]" by (simp add: categories_def)
  from health_views_agree [OF this, of rev] show ?thesis
    using stat_total_count [of os_count "\<lambda>_. True" "[timed 5, timed 7]"]
      stat_total_count [of os_critical_count is_critical "[timed 5, timed 7]"]
      \<open>\<And>w. category (timed w) = ''network''\<close>
    by (simp add: Let_def health_status_def stats_step_def stats_empty_def categories_def is_critical_def timed_def
        occurrence_with_def)
qed

end
