(* ===== verification/Buffering.thy ===== *)
theory Buffering
  imports Occurrence
begin

text \<open>
  What the HTTP sink and the OTLP sink of the agent share: a buffer of occurrences that is
  taken whole when a batch is due and that loses its oldest entries when it is full. A batch
  is posted after the lock is released, so posts complete at any later time; the locale
  \<open>buffering\<close> says that they do not touch the buffer.
\<close>

text \<open>The part that overflows, and the buffer with the new entry.\<close>

definition push_bounded :: "nat \<Rightarrow> nat \<Rightarrow> 'a \<Rightarrow> 'a list \<Rightarrow> 'a list \<times> 'a list" where
  "push_bounded max_buffer keep x buffer =
     (let drain_count = (if max_buffer \<le> length buffer then length buffer - keep else 0)
      in (take drain_count buffer, drop drain_count buffer @ [x]))"

lemma push_bounded_split: "push_bounded m k x b = (d, b') \<Longrightarrow> b @ [x] = d @ b'"
  by (auto simp: push_bounded_def Let_def)

lemma push_bounded_length:
  "push_bounded (k * 10) k x b = (d, b') \<Longrightarrow> length b \<le> max (k * 10) 1 \<Longrightarrow> length b' \<le> max (k * 10) 1"
  by (cases k) (auto simp: push_bounded_def Let_def max_def split: if_splits)

text \<open>The inputs of such a sink and the pieces its stream of occurrences is cut into.\<close>

datatype ('t, 'r) sink_event = Put 't occurrence | Flush 't | Posted 'r

datatype piece = Overflowed "occurrence list" | Batched "occurrence list"

definition piece_events :: "piece \<Rightarrow> occurrence list" where
  "piece_events p = (case p of Overflowed l \<Rightarrow> l | Batched l \<Rightarrow> l)"

definition put_of :: "('t, 'r) sink_event \<Rightarrow> occurrence list" where
  "put_of i = (case i of Put _ occ \<Rightarrow> [occ] | _ \<Rightarrow> [])"

definition batch_piece :: "occurrence list option \<Rightarrow> piece list" where
  "batch_piece b = (case b of None \<Rightarrow> [] | Some l \<Rightarrow> [Batched l])"

fun buffer_step ::
  "('t \<Rightarrow> occurrence \<Rightarrow> 's \<Rightarrow> occurrence list \<times> occurrence list option \<times> 's) \<Rightarrow> ('t \<Rightarrow> 's \<Rightarrow> occurrence list option \<times> 's)
     \<Rightarrow> ('r \<Rightarrow> 's \<Rightarrow> 's) \<Rightarrow> ('t, 'r) sink_event \<Rightarrow> piece list \<times> 's \<Rightarrow> piece list \<times> 's" where
  "buffer_step put flush posted (Put t occ) (pieces, s) =
     (let (overflow, batch, s1) = put t occ s
      in (pieces @ (if overflow = [] then [] else [Overflowed overflow]) @ batch_piece batch, s1))"
| "buffer_step put flush posted (Flush t) (pieces, s) =
     (let (batch, s1) = flush t s in (pieces @ batch_piece batch, s1))"
| "buffer_step put flush posted (Posted r) (pieces, s) = (pieces, posted r s)"

locale buffering =
  fixes put :: "'t \<Rightarrow> occurrence \<Rightarrow> 's \<Rightarrow> occurrence list \<times> occurrence list option \<times> 's"
    and flush :: "'t \<Rightarrow> 's \<Rightarrow> occurrence list option \<times> 's"
    and posted :: "'r \<Rightarrow> 's \<Rightarrow> 's"
    and buffer :: "'s \<Rightarrow> occurrence list"
    and inv :: "'s \<Rightarrow> bool"
  assumes put_split: "put t occ s = (overflow, batch, s1) \<Longrightarrow> buffer s @ [occ] = overflow @ unwrap_or batch [] @ buffer s1"
    and flush_split: "flush t s = (batch, s1) \<Longrightarrow> buffer s = unwrap_or batch [] @ buffer s1"
    and posted_buffer: "buffer (posted r s) = buffer s"
    and inv_put: "inv s \<Longrightarrow> put t occ s = (overflow, batch, s1) \<Longrightarrow> inv s1"
    and inv_flush: "inv s \<Longrightarrow> flush t s = (batch, s1) \<Longrightarrow> inv s1"
    and inv_posted: "inv s \<Longrightarrow> inv (posted r s)"
begin

lemma batch_events: "concat (map piece_events (batch_piece b)) = unwrap_or b []"
  by (simp add: batch_piece_def piece_events_def split: option.splits)

lemma step_account:
  assumes "buffer_step put flush posted i (pieces, s) = (pieces', s')"
  shows "concat (map piece_events pieces') @ buffer s' = concat (map piece_events pieces) @ buffer s @ put_of i
     \<and> (inv s \<longrightarrow> inv s')"
proof (cases i)
  case (Put t occ)
  obtain overflow batch s1 where p: "put t occ s = (overflow, batch, s1)" by (metis prod_cases3)
  have "concat (map piece_events (if overflow = [] then [] else [Overflowed overflow])) = overflow"
    by (simp add: piece_events_def)
  with assms Put p put_split [OF p] inv_put [OF _ p] show ?thesis
    by (auto simp: batch_events put_of_def)
next
  case (Flush t)
  obtain batch s1 where f: "flush t s = (batch, s1)" by force
  with assms Flush f flush_split [OF f] inv_flush [OF _ f] show ?thesis
    by (auto simp: batch_events put_of_def)
next
  case (Posted r)
  with assms show ?thesis by (auto simp: put_of_def posted_buffer inv_posted)
qed

lemma run_account:
  assumes "fold (buffer_step put flush posted) inputs (pieces, s) = (pieces', s')"
  shows "concat (map piece_events pieces') @ buffer s'
       = concat (map piece_events pieces) @ buffer s @ concat (map put_of inputs)
     \<and> (inv s \<longrightarrow> inv s')"
  using assms
proof (induction inputs arbitrary: pieces s)
  case (Cons i inputs)
  obtain p1 s1 where step: "buffer_step put flush posted i (pieces, s) = (p1, s1)" by force
  note a = step_account [OF step]
  have "fold (buffer_step put flush posted) inputs (p1, s1) = (pieces', s')" using Cons.prems step by simp
  from Cons.IH [OF this] a have "concat (map piece_events pieces') @ buffer s'
      = (concat (map piece_events p1) @ buffer s1) @ concat (map put_of inputs)" by simp
  with a Cons.IH [OF \<open>fold _ inputs (p1, s1) = _\<close>] show ?case by auto
qed simp

end

end
