(* ===== verification/Sinks.thy ===== *)
theory Sinks
  imports Buffering Backoff Httpc WireEvents Cli "HOL-Library.AList" "HOL-Library.Multiset"
begin

text \<open>
  The simple sinks of the agent: \<open>tapio-agent/src/sink/stdout.rs\<close>, \<open>sink/file.rs\<close> and
  \<open>sink/http.rs\<close>. The JSON encoders, the file system's and the network's answers and the
  clock (nanoseconds, never earlier than the last reading) are parameters.
\<close>

section \<open>Standard output\<close>

text \<open>\<open>write\<close> is the error of a \<open>write_all\<close>; what an error leaves half written is not modelled.\<close>

definition stdout_send ::
  "(occurrence \<Rightarrow> string + string) \<Rightarrow> (string \<Rightarrow> string option) \<Rightarrow> occurrence \<Rightarrow> string \<Rightarrow> (sink_error + unit) \<times> string" where
  "stdout_send to_json write occ out =
     (case to_json occ of
        Inl e \<Rightarrow> (Inl (SinkSerialization e), out)
      | Inr buf \<Rightarrow>
          (case write buf of
             Some e \<Rightarrow> (Inl (SinkIo e), out)
           | None \<Rightarrow>
               (case write [CHR 0x0A] of
                  Some e \<Rightarrow> (Inl (SinkIo e), out @ buf)
                | None \<Rightarrow> (Inr (), out @ buf @ [CHR 0x0A]))))"

section \<open>Files\<close>

text \<open>
  The data directory: whether it is there, and its files by name. \<open>fo_create\<close> is the error of
  \<open>create_dir_all\<close>, \<open>fo_write\<close> that of \<open>fs::write\<close> with the content that it leaves, if any.
\<close>

record data_dir =
  dd_exists :: bool
  dd_files :: "(string \<times> string) list"

record file_ops =
  fo_create :: "string option"
  fo_write :: "string \<Rightarrow> string \<Rightarrow> (string \<times> string option) option"

definition put_file :: "string \<Rightarrow> string \<Rightarrow> data_dir \<Rightarrow> data_dir" where
  "put_file name content d = d\<lparr>dd_files := AList.update name content (dd_files d)\<rparr>"

definition ensure_dir :: "file_ops \<Rightarrow> data_dir \<Rightarrow> (sink_error + unit) \<times> data_dir" where
  "ensure_dir ops d =
     (if dd_exists d then (Inr (), d)
      else case fo_create ops of Some e \<Rightarrow> (Inl (SinkIo e), d) | None \<Rightarrow> (Inr (), d\<lparr>dd_exists := True\<rparr>))"

definition file_send ::
  "(occurrence \<Rightarrow> string + string) \<Rightarrow> file_ops \<Rightarrow> occurrence \<Rightarrow> data_dir \<Rightarrow> (sink_error + unit) \<times> data_dir" where
  "file_send to_json_pretty ops occ d =
     (case ensure_dir ops d of
        (Inl e, d1) \<Rightarrow> (Inl e, d1)
      | (Inr _, d1) \<Rightarrow>
          (let name = occ_id occ @ ''.json'' in
           case to_json_pretty occ of
             Inl e \<Rightarrow> (Inl (SinkSerialization e), d1)
           | Inr data \<Rightarrow>
               (case fo_write ops name data of
                  Some (e, left) \<Rightarrow> (Inl (SinkIo e), case left of None \<Rightarrow> d1 | Some content \<Rightarrow> put_file name content d1)
                | None \<Rightarrow> (Inr (), put_file name data d1))))"

section \<open>HTTP\<close>

datatype http_sink_error = HttpEncode string | HttpSend nat post_error

text \<open>Times in nanoseconds, delays in seconds.\<close>

record http_sink =
  hx_endpoint :: string
  hx_buffer_size :: nat
  hx_buffer :: "occurrence list"
  hx_flush_interval :: nat
  hx_last_flush :: nat
  hx_next_retry :: nat
  hx_backoff :: nat
  hx_max_buffer :: nat

definition INITIAL_BACKOFF :: nat where "INITIAL_BACKOFF = 1"
definition MAX_BACKOFF :: nat where "MAX_BACKOFF = 60"

definition next_http_backoff :: "nat \<Rightarrow> nat" where
  "next_http_backoff delay = min (delay * 2) MAX_BACKOFF"

definition http_sink_new :: "string \<Rightarrow> nat \<Rightarrow> nat \<Rightarrow> nat \<Rightarrow> http_sink" where
  "http_sink_new endpoint buffer_size flush_interval now =
     \<lparr>hx_endpoint = endpoint, hx_buffer_size = buffer_size, hx_buffer = [], hx_flush_interval = flush_interval,
      hx_last_flush = now, hx_next_retry = now, hx_backoff = INITIAL_BACKOFF, hx_max_buffer = buffer_size * 10\<rparr>"

text \<open>The locked part of \<open>send\<close>; the second time is that of the call to \<open>elapsed\<close>.\<close>

definition http_put :: "nat \<times> nat \<Rightarrow> occurrence \<Rightarrow> http_sink \<Rightarrow> occurrence list \<times> occurrence list option \<times> http_sink" where
  "http_put clk occ s =
     (let (now, later) = clk;
          (overflow, buffer) = push_bounded (hx_max_buffer s) (hx_buffer_size s) occ (hx_buffer s);
          should_flush = (hx_next_retry s \<le> now
            \<and> (hx_buffer_size s \<le> length buffer \<or> hx_flush_interval s \<le> later - hx_last_flush s))
      in if should_flush then (overflow, Some buffer, s\<lparr>hx_buffer := [], hx_last_flush := now\<rparr>)
         else (overflow, None, s\<lparr>hx_buffer := buffer\<rparr>))"

definition http_take :: "nat \<times> nat \<Rightarrow> http_sink \<Rightarrow> occurrence list option \<times> http_sink" where
  "http_take clk s =
     (if hx_buffer s = [] then (None, s)
      else (Some (hx_buffer s), s\<lparr>hx_buffer := [], hx_last_flush := fst clk\<rparr>))"

text \<open>How a post changes the state when it completes, at a time.\<close>

datatype http_post_end = PostOk | PostErr nat | PostUnencodable

definition http_posted :: "http_post_end \<Rightarrow> http_sink \<Rightarrow> http_sink" where
  "http_posted r s =
     (case r of
        PostOk \<Rightarrow> s\<lparr>hx_backoff := INITIAL_BACKOFF\<rparr>
      | PostErr now \<Rightarrow> s\<lparr>hx_next_retry := now + hx_backoff s * 10 ^ 9, hx_backoff := next_http_backoff (hx_backoff s)\<rparr>
      | PostUnencodable \<Rightarrow> s)"

text \<open>\<open>post_batch\<close>: the payload, the request, and the state afterwards.\<close>

definition post_batch ::
  "(occurrence list \<Rightarrow> string + string) \<Rightarrow> (string \<Rightarrow> string + connection) \<Rightarrow> nat \<Rightarrow> occurrence list \<Rightarrow> http_sink
     \<Rightarrow> (http_sink_error + unit) \<times> http_sink" where
  "post_batch to_json connect now batch s =
     (if batch = [] then (Inr (), s)
      else case to_json batch of
        Inl e \<Rightarrow> (Inl (HttpEncode e), http_posted PostUnencodable s)
      | Inr payload \<Rightarrow>
          (case post_json connect (hx_endpoint s) payload of
             Inr _ \<Rightarrow> (Inr (), http_posted PostOk s)
           | Inl e \<Rightarrow> (Inl (HttpSend (length batch) e), http_posted (PostErr now) s)))"

definition http_send ::
  "(occurrence list \<Rightarrow> string + string) \<Rightarrow> (string \<Rightarrow> string + connection) \<Rightarrow> nat \<times> nat \<Rightarrow> nat \<Rightarrow> occurrence \<Rightarrow> http_sink
     \<Rightarrow> (http_sink_error + unit) \<times> http_sink" where
  "http_send to_json connect clk after occ s =
     (case http_put clk occ s of
        (_, Some batch, s1) \<Rightarrow> post_batch to_json connect after batch s1
      | (_, None, s1) \<Rightarrow> (Inr (), s1))"

definition http_flush ::
  "(occurrence list \<Rightarrow> string + string) \<Rightarrow> (string \<Rightarrow> string + connection) \<Rightarrow> nat \<times> nat \<Rightarrow> nat \<Rightarrow> http_sink
     \<Rightarrow> (http_sink_error + unit) \<times> http_sink" where
  "http_flush to_json connect clk after s =
     (case http_take clk s of
        (Some batch, s1) \<Rightarrow> post_batch to_json connect after batch s1
      | (None, s1) \<Rightarrow> (Inr (), s1))"

section \<open>Lemmas\<close>

interpretation http_delay: backoff INITIAL_BACKOFF MAX_BACKOFF next_http_backoff
  by unfold_locales (simp_all add: INITIAL_BACKOFF_def MAX_BACKOFF_def next_http_backoff_def)

definition http_inv :: "http_sink \<Rightarrow> bool" where
  "http_inv s \<longleftrightarrow> hx_max_buffer s = hx_buffer_size s * 10 \<and> length (hx_buffer s) \<le> max (hx_max_buffer s) 1
     \<and> (\<exists>n. hx_backoff s = (next_http_backoff ^^ n) INITIAL_BACKOFF)"

lemma http_posted_keeps [simp]:
  "hx_buffer (http_posted r s) = hx_buffer s" "hx_buffer_size (http_posted r s) = hx_buffer_size s"
  "hx_max_buffer (http_posted r s) = hx_max_buffer s" "hx_endpoint (http_posted r s) = hx_endpoint s"
  by (cases r; simp add: http_posted_def)+

lemma http_put_cases:
  assumes "http_put t occ s = (overflow, batch, s1)"
  obtains buffer where "push_bounded (hx_max_buffer s) (hx_buffer_size s) occ (hx_buffer s) = (overflow, buffer)"
    "buffer = unwrap_or batch [] @ hx_buffer s1" "hx_max_buffer s1 = hx_max_buffer s"
    "hx_buffer_size s1 = hx_buffer_size s" "hx_backoff s1 = hx_backoff s" "hx_next_retry s1 = hx_next_retry s"
  using assms
  by (auto simp: http_put_def Let_def split: prod.splits if_splits)

lemma http_inv_posted: "http_inv s \<Longrightarrow> http_inv (http_posted r s)"
proof -
  assume inv: "http_inv s"
  then obtain n where n: "hx_backoff s = (next_http_backoff ^^ n) INITIAL_BACKOFF" by (auto simp: http_inv_def)
  have "\<exists>n. hx_backoff (http_posted r s) = (next_http_backoff ^^ n) INITIAL_BACKOFF"
  proof (cases r)
    case PostOk
    then show ?thesis by (intro exI [of _ 0]) (simp add: http_posted_def)
  next
    case (PostErr now)
    with n show ?thesis by (intro exI [of _ "Suc n"]) (simp add: http_posted_def)
  next
    case PostUnencodable
    with n show ?thesis by (auto simp: http_posted_def)
  qed
  with inv show ?thesis by (auto simp: http_inv_def)
qed

interpretation http_buffer: buffering http_put http_take http_posted hx_buffer http_inv
proof unfold_locales
  fix t occ s overflow batch s1
  assume put: "http_put t occ s = (overflow, batch, s1)"
  then show "hx_buffer s @ [occ] = overflow @ unwrap_or batch [] @ hx_buffer s1"
    by (rule http_put_cases) (auto dest: push_bounded_split)
  assume inv: "http_inv s"
  from put show "http_inv s1"
  proof (rule http_put_cases)
    fix buffer
    assume b: "push_bounded (hx_max_buffer s) (hx_buffer_size s) occ (hx_buffer s) = (overflow, buffer)"
      "buffer = unwrap_or batch [] @ hx_buffer s1"
      and keep: "hx_max_buffer s1 = hx_max_buffer s" "hx_buffer_size s1 = hx_buffer_size s" "hx_backoff s1 = hx_backoff s"
    have "length buffer \<le> max (hx_buffer_size s * 10) 1"
      using inv push_bounded_length [of "hx_buffer_size s" occ "hx_buffer s" overflow buffer] b(1)
      by (auto simp: http_inv_def)
    with inv b(2) keep show "http_inv s1" by (auto simp: http_inv_def)
  qed
next
  fix t s batch s1
  assume take: "http_take t s = (batch, s1)"
  then show "hx_buffer s = unwrap_or batch [] @ hx_buffer s1"
    by (auto simp: http_take_def split: if_splits)
  assume "http_inv s"
  with take show "http_inv s1" by (auto simp: http_take_def http_inv_def split: if_splits)
qed (simp_all add: http_inv_posted)

lemma http_inv_new: "http_inv (http_sink_new endpoint n interval now)"
  by (auto simp: http_inv_def http_sink_new_def intro: exI [of _ 0])

text \<open>What the command line tool finds in the data directory, in some order.\<close>

definition files_of :: "data_dir \<Rightarrow> (string + dir_file) list" where
  "files_of d = map (\<lambda>(name, content). Inr \<lparr>df_name = name, df_read = Inr content\<rparr>) (dd_files d)"

definition no_file_errors :: file_ops where
  "no_file_errors = \<lparr>fo_create = None, fo_write = (\<lambda>_ _. None)\<rparr>"

definition empty_dir :: data_dir where
  "empty_dir = \<lparr>dd_exists = False, dd_files = []\<rparr>"

lemma update_new: "k \<notin> fst ` set al \<Longrightarrow> AList.update k v al = al @ [(k, v)]"
  by (induction al) auto

lemma file_run:
  assumes "distinct (map occ_id occs)" "list_all (\<lambda>occ. to_json occ = Inr (text_of occ)) occs"
  shows "dd_files (fold (\<lambda>occ d. snd (file_send to_json no_file_errors occ d)) occs empty_dir)
     = map (\<lambda>occ. (occ_id occ @ ''.json'', text_of occ)) occs"
  using assms
proof (induction occs rule: rev_induct)
  case Nil
  then show ?case by (simp add: empty_dir_def)
next
  case (snoc occ occs)
  have fresh: "occ_id occ @ ''.json'' \<notin> fst ` (\<lambda>occ. (occ_id occ @ ''.json'', text_of occ)) ` set occs"
    using snoc.prems(1) by (auto simp: image_iff)
  have send: "dd_files (snd (file_send to_json no_file_errors occ d))
      = AList.update (occ_id occ @ ''.json'') (text_of occ) (dd_files d)" for d
    using snoc.prems(2) by (simp add: file_send_def ensure_dir_def no_file_errors_def put_file_def)
  from snoc fresh show ?case by (simp add: send update_new)
qed

lemma json_extension: "i \<noteq> [] \<Longrightarrow> path_extension (i @ ''.json'') = Some ''json''"
  by (simp add: path_extension_def)

lemma mset_map_filter: "mset xs = mset ys \<Longrightarrow> mset (List.map_filter f xs) = mset (List.map_filter f ys)"
  by (simp add: List.map_filter_def)

text \<open>The sink's \<open>send\<close> and \<open>flush\<close> are such steps: the locked part, then the end of a post if there is one.\<close>

lemma post_batch_posts: "\<exists>rs. snd (post_batch to_json connect now batch s) = fold http_posted rs s"
proof -
  have one: "fold http_posted [r] s = http_posted r s" for r by simp
  show ?thesis unfolding post_batch_def
    by (auto split: sum.splits intro: exI [of _ "[]"] one [symmetric] exI [where P = "\<lambda>rs. _ = fold http_posted rs s"])
qed

lemma fold_posted:
  "fold (buffer_step http_put http_take http_posted) (map Posted rs) (pieces, s) = (pieces, fold http_posted rs s)"
  by (induction rs arbitrary: s) simp_all

lemma http_calls_are_steps:
  "\<exists>rs. snd (http_send to_json connect clk after occ s) =
     snd (fold (buffer_step http_put http_take http_posted) (Put clk occ # map Posted rs) (pieces, s))"
  "\<exists>rs. snd (http_flush to_json connect clk after s) =
     snd (fold (buffer_step http_put http_take http_posted) (Flush clk # map Posted rs) (pieces, s))"
  using post_batch_posts [of to_json connect after]
  by (auto simp: http_send_def http_flush_def fold_posted Let_def split_def split: option.splits intro: exI [of _ "[]"])

section \<open>Properties\<close>

text \<open>
  C38: in every run of the HTTP sink, whatever the clock and however sends, flushes and the
  completions of posts interleave, each occurrence is in order and once in an overflow, in a
  batch that was taken or in the buffer; the buffer never exceeds ten batches and the delay
  after failures stays between one and sixty seconds.
\<close>

theorem http_sink_accounts_run:
  "case fold (buffer_step http_put http_take http_posted) inputs ([], http_sink_new endpoint cap interval now) of
     (pieces, s) \<Rightarrow>
       concat (map piece_events pieces) @ hx_buffer s = concat (map put_of inputs)
       \<and> length (hx_buffer s) \<le> max (cap * 10) 1 \<and> 1 \<le> hx_backoff s \<and> hx_backoff s \<le> 60"
proof -
  let ?s0 = "http_sink_new endpoint cap interval now"
  obtain pieces s where r: "fold (buffer_step http_put http_take http_posted) inputs ([], ?s0) = (pieces, s)" by force
  have sizes: "hx_buffer_size (snd (fold (buffer_step http_put http_take http_posted) inputs ps)) = hx_buffer_size (snd ps)" for ps
  proof (induction inputs arbitrary: ps)
    case (Cons i inputs)
    have "hx_buffer_size (snd (buffer_step http_put http_take http_posted i ps)) = hx_buffer_size (snd ps)"
      by (cases i; cases ps) (auto simp: http_put_def http_take_def Let_def split: prod.splits)
    with Cons show ?case by simp
  qed simp
  from http_buffer.run_account [OF r] http_inv_new have inv: "http_inv s" by blast
  then obtain n where "hx_backoff s = (next_http_backoff ^^ n) INITIAL_BACKOFF" by (auto simp: http_inv_def)
  then have "1 \<le> hx_backoff s" "hx_backoff s \<le> 60"
    using http_delay.delay_bounds [of n] by (simp_all add: MAX_BACKOFF_def)
  moreover have "hx_buffer_size s = cap" using sizes [of "([], ?s0)"] unfolding r by (simp add: http_sink_new_def)
  ultimately show ?thesis
    using http_buffer.run_account [OF r] inv unfolding r by (auto simp: http_inv_def) (simp_all add: http_sink_new_def)
qed



text \<open>
  A full buffer during the delay after a failure loses all but a batch of its oldest entries,
  and the caller is told of success.
\<close>

lemma http_overflow_unnoticed:
  assumes "hx_max_buffer s \<le> length (hx_buffer s)" "fst clk < hx_next_retry s"
  shows "http_send to_json connect clk after occ s
    = (Inr (), s\<lparr>hx_buffer := drop (length (hx_buffer s) - hx_buffer_size s) (hx_buffer s) @ [occ]\<rparr>)"
  using assms by (cases clk) (simp add: http_send_def http_put_def push_bounded_def Let_def)

end
