(* ===== verification/NetAddr.thy ===== *)
theory NetAddr
  imports Numbers
begin

text \<open>
  \<open>SocketAddr::from_str\<close>: four decimal octets without leading zeros and a port; text in
  brackets is left to the parameter.
\<close>

definition octet :: "string \<Rightarrow> bool" where
  "octet s \<longleftrightarrow> s \<noteq> [] \<and> list_all is_digit s \<and> length s \<le> 3 \<and> (s = ''0'' \<or> hd s \<noteq> CHR ''0'') \<and> digits_val s < 256"

definition port_text :: "string \<Rightarrow> bool" where
  "port_text s \<longleftrightarrow> s \<noteq> [] \<and> list_all is_digit s \<and> digits_val s < 65536"

definition socket_addr :: "(string \<Rightarrow> bool) \<Rightarrow> string \<Rightarrow> bool" where
  "socket_addr v6 s \<longleftrightarrow>
     (if starts_with s ''['' then v6 s
      else case split_once (CHR '':'') s of
        None \<Rightarrow> False
      | Some (ip, port) \<Rightarrow>
          length (split_on (CHR ''.'') ip) = 4 \<and> list_all octet (split_on (CHR ''.'') ip) \<and> port_text port)"

text \<open>\<open>IpAddr::from_str\<close>.\<close>

definition ip_addr :: "(string \<Rightarrow> bool) \<Rightarrow> string \<Rightarrow> bool" where
  "ip_addr v6 s \<longleftrightarrow> (length (split_on (CHR ''.'') s) = 4 \<and> list_all octet (split_on (CHR ''.'') s)) \<or> v6 s"

end
