(* ===== verification/Otlp.thy ===== *)
theory Otlp
  imports Sinks AgentConfig NetAddr
begin

text \<open>
  \<open>tapio-agent/src/sink/otlp.rs\<close>: occurrences exported as OTLP log records over HTTP. The
  protobuf encoding, gzip, chrono's timestamp parser, the IPv6 address parser and the network
  are parameters. A peer that never ends its status line keeps \<open>http_post\<close> waiting for ever;
  then the result is \<open>None\<close>.
\<close>

section \<open>Log records\<close>

record any_value =
  av_string_value :: string

record key_value =
  kv_key :: string
  kv_value :: "any_value option"

record log_record =
  lr_time_unix_nano :: u64
  lr_severity_number :: int
  lr_body :: "any_value option"
  lr_attributes :: "key_value list"

record scope_logs =
  sl_log_records :: "log_record list"

record resource =
  rs_attributes :: "key_value list"

record resource_logs =
  rl_resource :: "resource option"
  rl_scope_logs :: "scope_logs list"

record export_request =
  er_resource_logs :: "resource_logs list"

definition severity_to_otlp :: "severity \<Rightarrow> int" where
  "severity_to_otlp s = (case s of SevDebug \<Rightarrow> 9 | SevInfo \<Rightarrow> 9 | SevWarning \<Rightarrow> 13 | SevError \<Rightarrow> 17 | SevCritical \<Rightarrow> 21)"

definition kv :: "string \<Rightarrow> string \<Rightarrow> key_value" where
  "kv key val = \<lparr>kv_key = key, kv_value = Some \<lparr>av_string_value = val\<rparr>\<rparr>"

definition some_kv :: "string \<Rightarrow> string option \<Rightarrow> key_value list" where
  "some_kv key val = (case val of None \<Rightarrow> [] | Some v \<Rightarrow> [kv key v])"

definition context_attributes :: "occ_context \<Rightarrow> key_value list" where
  "context_attributes ctx =
     some_kv ''k8s.node.name'' (ctx_node ctx) @ some_kv ''k8s.namespace.name'' (ctx_namespace ctx)
     @ concat (map (\<lambda>e. if ent_kind e = ''pod'' then some_kv ''k8s.pod.name'' (ent_name e) else []) (ctx_entities ctx))"

text \<open>
  \<open>chrono_nanos ts\<close> is the result of parsing, with the nanoseconds if they fit 64 signed bits.
\<close>

definition occurrence_to_log_record :: "(string \<Rightarrow> int option option) \<Rightarrow> occurrence \<Rightarrow> log_record" where
  "occurrence_to_log_record chrono_nanos occ =
     \<lparr>lr_time_unix_nano = (case chrono_nanos (occ_timestamp occ) of
        None \<Rightarrow> 0 | Some nanos \<Rightarrow> word_of_int (unwrap_or nanos 0)),
      lr_severity_number = severity_to_otlp (occ_severity occ),
      lr_body = Some \<lparr>av_string_value = (case occ_error occ of None \<Rightarrow> [] | Some e \<Rightarrow> oe_message e)\<rparr>,
      lr_attributes = [kv ''occurrence.id'' (occ_id occ), kv ''anomaly.type'' (occ_type occ),
          kv ''tapio.source'' (occ_source occ)]
        @ (case occ_context occ of None \<Rightarrow> [] | Some ctx \<Rightarrow> context_attributes ctx)\<rparr>"

definition export_request_of :: "(string \<Rightarrow> int option option) \<Rightarrow> string \<Rightarrow> occurrence list \<Rightarrow> export_request" where
  "export_request_of chrono_nanos version batch =
     \<lparr>er_resource_logs = [\<lparr>rl_resource = Some \<lparr>rs_attributes = [kv ''service.name'' ''tapio'', kv ''service.version'' version]\<rparr>,
        rl_scope_logs = [\<lparr>sl_log_records = map (occurrence_to_log_record chrono_nanos) batch\<rparr>]\<rparr>]\<rparr>"

section \<open>Addresses\<close>

definition normalize_http_endpoint :: "string \<Rightarrow> sink_error + string" where
  "normalize_http_endpoint endpoint =
     (let trimmed = trim_end_char (CHR ''/'') (trim endpoint) in
      if trimmed = [] then Inl (SinkConnection ''OTLP endpoint is empty'')
      else if starts_with trimmed ''https://'' then Inl (SinkConnection
        ''OTLP sink supports plaintext http:// only; use a local collector or TLS-terminating proxy for HTTPS'')
      else case strip_prefix trimmed ''http://'' of
        None \<Rightarrow> Inl (SinkConnection (''OTLP endpoint must start with http://: '' @ trimmed))
      | Some rest \<Rightarrow>
          if hd (split_on (CHR ''/'') rest) = []
          then Inl (SinkConnection (''OTLP endpoint missing host: '' @ trimmed))
          else Inr trimmed)"

section \<open>One request\<close>

partial_function (option) read_line :: "(nat \<Rightarrow> read_result) \<Rightarrow> nat \<Rightarrow> string \<Rightarrow> (string + string) option" where
  "read_line server i acc =
     (case server i of
        ReadReset e \<Rightarrow> Some (Inl e)
      | ReadErr e \<Rightarrow> Some (Inl e)
      | ReadOk chunk \<Rightarrow>
          if chunk = [] then Some (Inr acc)
          else if CHR 0x0A \<in> set chunk then Some (Inr (acc @ takeWhile (\<lambda>c. c \<noteq> CHR 0x0A) chunk @ [CHR 0x0A]))
          else read_line server (i + 1) (acc @ chunk))"

text \<open>\<open>str::split_whitespace\<close>, with the word that has begun.\<close>

function split_ws :: "string \<Rightarrow> string \<Rightarrow> string list" where
  "split_ws word [] = (if word = [] then [] else [word])"
| "split_ws word (c # s) =
     (case find (\<lambda>w. starts_with (c # s) w) ws_seqs of
        None \<Rightarrow> split_ws (word @ [c]) s
      | Some w \<Rightarrow> (if word = [] then [] else [word]) @ split_ws [] (drop (length w) (c # s)))"
  by pat_completeness auto
termination
proof (relation "measure (\<lambda>(word, s). length s)", goal_cases)
  case (3 word c s w)
  then have "w \<in> set ws_seqs" by (auto simp: find_Some_iff)
  then have "w \<noteq> []" by (rule ws_seqs_nonempty)
  then show ?case by (cases w) simp_all
qed simp_all

text \<open>The second word of the status line as \<open>u16\<close>, else 0.\<close>

definition status_of_line :: "string \<Rightarrow> nat" where
  "status_of_line line =
     (case split_ws [] line of _ # w # _ \<Rightarrow> unwrap_or (parse_uint (2 ^ 16) w) 0 | _ \<Rightarrow> 0)"

text \<open>What reaches the network: the IPv6 parser, and a connection or an error per address.\<close>

record otlp_net =
  on_v6 :: "string \<Rightarrow> bool"
  on_connect :: "string \<Rightarrow> string + connection"

definition otlp_head :: "string \<Rightarrow> string \<Rightarrow> string option \<Rightarrow> string \<Rightarrow> string" where
  "otlp_head host path auth_header body =
     ''POST '' @ path @ '' HTTP/1.1'' @ CRLF @ ''Host: '' @ host @ CRLF
     @ ''Content-Type: application/x-protobuf'' @ CRLF @ ''Content-Encoding: gzip'' @ CRLF
     @ ''Content-Length: '' @ dec (length body) @ CRLF
     @ (case auth_header of None \<Rightarrow> [] | Some auth \<Rightarrow> ''Authorization: '' @ auth @ CRLF)
     @ ''Connection: close'' @ CRLF @ CRLF"

definition otlp_http_post :: "otlp_net \<Rightarrow> string option \<Rightarrow> string \<Rightarrow> string \<Rightarrow> (sink_error + nat) option" where
  "otlp_http_post net auth_header url body =
     (case strip_prefix url ''http://'' of
        None \<Rightarrow> Some (Inl (SinkConnection (''OTLP endpoint must use http://: '' @ url)))
      | Some rest \<Rightarrow>
          (let (host, path) = (case split_once (CHR ''/'') rest of
                 Some (h, p) \<Rightarrow> (h, CHR ''/'' # p) | None \<Rightarrow> (rest, ''/''));
               addr = (if CHR '':'' \<in> set host then host else host @ '':80'')
           in if \<not> socket_addr (on_v6 net) addr
              then Some (Inl (SinkConnection (''invalid address '' @ addr @ '': invalid socket address syntax'')))
              else case on_connect net addr of
                Inl e \<Rightarrow> Some (Inl (SinkConnection e))
              | Inr cx \<Rightarrow>
                  (case cx_write_head cx (otlp_head host path auth_header body) of
                     Some e \<Rightarrow> Some (Inl (SinkSend e))
                   | None \<Rightarrow>
                  (case cx_write_body cx body of
                     Some e \<Rightarrow> Some (Inl (SinkSend e))
                   | None \<Rightarrow>
                  (case read_line (cx_read cx) 0 [] of
                     None \<Rightarrow> None
                   | Some (Inl e) \<Rightarrow> Some (Inl (SinkSend e))
                   | Some (Inr line) \<Rightarrow>
                       if utf8_valid line then Some (Inr (status_of_line line))
                       else Some (Inl (SinkSend ''stream did not contain valid UTF-8'')))))))"

section \<open>The sink\<close>

record otlp_sink =
  ox_endpoint :: string
  ox_auth_header :: "string option"
  ox_batch_size :: nat
  ox_flush_interval :: nat
  ox_buffer :: "occurrence list"
  ox_last_flush :: nat

definition RETRY_BACKOFF_MS :: "nat list" where "RETRY_BACKOFF_MS = [500, 1000, 2000]"
definition MAX_BUFFER_MULTIPLIER :: nat where "MAX_BUFFER_MULTIPLIER = 10"

definition otlp_sink_new :: "string \<Rightarrow> string option \<Rightarrow> nat \<Rightarrow> nat \<Rightarrow> nat \<Rightarrow> sink_error + otlp_sink" where
  "otlp_sink_new endpoint auth_header batch_size flush_interval now =
     and_then (normalize_http_endpoint endpoint) (\<lambda>e. Inr
       \<lparr>ox_endpoint = e, ox_auth_header = auth_header, ox_batch_size = batch_size,
        ox_flush_interval = flush_interval, ox_buffer = [], ox_last_flush = now\<rparr>)"

text \<open>
  The attempts with their delays, the first of which is not slept; \<open>post n\<close> is the n-th
  request. The result comes with the delays slept.
\<close>

fun export_attempts :: "(nat \<Rightarrow> (sink_error + nat) option) \<Rightarrow> nat list \<Rightarrow> nat \<Rightarrow> ((sink_error + unit) \<times> nat list) option" where
  "export_attempts post [] attempt = Some (Inl (SinkSend ''OTLP export: retries exhausted''), [])"
| "export_attempts post (backoff_ms # delays) attempt =
     (let slept = (if 0 < attempt then [backoff_ms] else []);
          again = map_option (\<lambda>(r, later). (r, slept @ later)) (export_attempts post delays (attempt + 1))
      in case post attempt of
           None \<Rightarrow> None
         | Some (Inr status) \<Rightarrow>
             if 200 \<le> status \<and> status < 300 then Some (Inr (), slept)
             else if status = 429 \<or> 500 \<le> status then again
             else Some (Inl (SinkSend (''OTLP export failed: HTTP '' @ dec status)), slept)
         | Some (Inl e) \<Rightarrow> if attempt < length RETRY_BACKOFF_MS then again else Some (Inl e, slept))"

definition export_batch ::
  "(string \<Rightarrow> int option option) \<Rightarrow> string \<Rightarrow> (export_request \<Rightarrow> string) \<Rightarrow> (string \<Rightarrow> string + string)
     \<Rightarrow> (nat \<Rightarrow> otlp_net) \<Rightarrow> otlp_sink \<Rightarrow> occurrence list \<Rightarrow> ((sink_error + unit) \<times> nat list) option" where
  "export_batch chrono_nanos version encode gzip net s batch =
     (if batch = [] then Some (Inr (), [])
      else case gzip (encode (export_request_of chrono_nanos version batch)) of
        Inl e \<Rightarrow> Some (Inl (SinkSerialization e), [])
      | Inr compressed \<Rightarrow>
          export_attempts (\<lambda>n. otlp_http_post (net n) (ox_auth_header s) (ox_endpoint s @ ''/v1/logs'') compressed)
            (0 # RETRY_BACKOFF_MS) 0)"

text \<open>The locked parts of \<open>send\<close> and \<open>flush\<close>, at the times of the two clock readings.\<close>

definition otlp_put :: "nat \<times> nat \<Rightarrow> occurrence \<Rightarrow> otlp_sink \<Rightarrow> occurrence list \<times> occurrence list option \<times> otlp_sink" where
  "otlp_put clk occ s =
     (let (overflow, buffer) = push_bounded (ox_batch_size s * MAX_BUFFER_MULTIPLIER) (ox_batch_size s) occ (ox_buffer s)
      in if ox_batch_size s \<le> length buffer \<or> ox_flush_interval s \<le> fst clk - ox_last_flush s
         then (overflow, Some buffer, s\<lparr>ox_buffer := [], ox_last_flush := snd clk\<rparr>)
         else (overflow, None, s\<lparr>ox_buffer := buffer\<rparr>))"

definition otlp_take :: "nat \<times> nat \<Rightarrow> otlp_sink \<Rightarrow> occurrence list option \<times> otlp_sink" where
  "otlp_take clk s =
     (if ox_buffer s = [] then (None, s)
      else (Some (ox_buffer s), s\<lparr>ox_buffer := [], ox_last_flush := snd clk\<rparr>))"

definition otlp_send ::
  "(otlp_sink \<Rightarrow> occurrence list \<Rightarrow> ((sink_error + unit) \<times> nat list) option) \<Rightarrow> nat \<times> nat \<Rightarrow> occurrence \<Rightarrow> otlp_sink
     \<Rightarrow> ((sink_error + unit) \<times> otlp_sink) option" where
  "otlp_send export clk occ s =
     (case otlp_put clk occ s of
        (_, Some batch, s1) \<Rightarrow> map_option (\<lambda>(r, _). (r, s1)) (export s1 batch)
      | (_, None, s1) \<Rightarrow> Some (Inr (), s1))"

definition otlp_flush ::
  "(otlp_sink \<Rightarrow> occurrence list \<Rightarrow> ((sink_error + unit) \<times> nat list) option) \<Rightarrow> nat \<times> nat \<Rightarrow> otlp_sink
     \<Rightarrow> ((sink_error + unit) \<times> otlp_sink) option" where
  "otlp_flush export clk s =
     (case otlp_take clk s of
        (Some batch, s1) \<Rightarrow> map_option (\<lambda>(r, _). (r, s1)) (export s1 batch)
      | (None, s1) \<Rightarrow> Some (Inr (), s1))"

section \<open>Lemmas\<close>

definition otlp_inv :: "otlp_sink \<Rightarrow> bool" where
  "otlp_inv s \<longleftrightarrow> length (ox_buffer s) \<le> max (ox_batch_size s * 10) 1"

interpretation otlp_buffer: buffering otlp_put otlp_take "\<lambda>(_ :: unit) s. s" ox_buffer otlp_inv
proof unfold_locales
  fix t occ s overflow batch s1
  assume put: "otlp_put t occ s = (overflow, batch, s1)"
  obtain buffer where b: "push_bounded (ox_batch_size s * 10) (ox_batch_size s) occ (ox_buffer s) = (overflow, buffer)"
    and e: "buffer = unwrap_or batch [] @ ox_buffer s1" and keep: "ox_batch_size s1 = ox_batch_size s"
    using put by (auto simp: otlp_put_def MAX_BUFFER_MULTIPLIER_def split: prod.splits if_splits)
  show "ox_buffer s @ [occ] = overflow @ unwrap_or batch [] @ ox_buffer s1"
    using push_bounded_split [OF b] e by simp
  show "otlp_inv s \<Longrightarrow> otlp_inv s1"
    using push_bounded_length [OF b] unfolding e by (simp add: otlp_inv_def keep)
next
  fix t s batch s1
  assume "otlp_take t s = (batch, s1)"
  then show "ox_buffer s = unwrap_or batch [] @ ox_buffer s1" "otlp_inv s \<Longrightarrow> otlp_inv s1"
    by (auto simp: otlp_take_def otlp_inv_def split: if_splits)
qed simp_all

text \<open>A read that does not end the line.\<close>

definition keeps_waiting :: "read_result \<Rightarrow> bool" where
  "keeps_waiting r = (case r of ReadOk chunk \<Rightarrow> chunk \<noteq> [] \<and> CHR 0x0A \<notin> set chunk | _ \<Rightarrow> False)"

lemma read_line_ends:
  "\<not> keeps_waiting (server (i + k)) \<Longrightarrow> read_line server i acc \<noteq> None"
proof (induction k arbitrary: i acc)
  case 0
  then show ?case
    by (subst read_line.simps) (auto simp: keeps_waiting_def split: read_result.splits)
next
  case (Suc k)
  have "\<not> keeps_waiting (server (Suc i + k))" using Suc.prems by simp
  from Suc.IH [OF this] show ?case
    by (subst read_line.simps) (auto split: read_result.splits)
qed

lemma read_line_Some:
  assumes "read_line server i acc = Some r"
  shows "\<exists>k. \<not> keeps_waiting (server (i + k))"
proof (rule read_line.raw_induct [OF _ assms, where P = "\<lambda>server i acc r. \<exists>k. \<not> keeps_waiting (server (i + k))"])
  fix rec and server :: "nat \<Rightarrow> read_result" and i acc r
  assume IH: "\<And>(server :: nat \<Rightarrow> read_result) i acc r. rec server i acc = Some r \<Longrightarrow> \<exists>k. \<not> keeps_waiting (server (i + k))"
    and r: "(case server i of ReadOk chunk \<Rightarrow>
               if chunk = [] then Some (Inr acc)
               else if CHR 0x0A \<in> set chunk then Some (Inr (acc @ takeWhile (\<lambda>c. c \<noteq> CHR 0x0A) chunk @ [CHR 0x0A]))
               else rec server (i + 1) (acc @ chunk)
             | ReadReset e \<Rightarrow> Some (Inl e) | ReadErr e \<Rightarrow> Some (Inl e)) = Some r"
  show "\<exists>k. \<not> keeps_waiting (server (i + k))"
  proof (cases "keeps_waiting (server i)")
    case True
    then obtain chunk where "server i = ReadOk chunk" "chunk \<noteq> []" "CHR 0x0A \<notin> set chunk"
      by (auto simp: keeps_waiting_def split: read_result.splits)
    with r have "rec server (i + 1) (acc @ chunk) = Some r" by simp
    from IH [OF this] obtain k where "\<not> keeps_waiting (server (i + 1 + k))" by blast
    then show ?thesis by (intro exI [of _ "Suc k"]) simp
  next
    case False
    then show ?thesis by (intro exI [of _ 0]) simp
  qed
qed

lemma export_all_fail:
  "(\<And>n. post n = Some (Inl e)) \<Longrightarrow> export_attempts post (0 # RETRY_BACKOFF_MS) 0 = Some (Inl e, RETRY_BACKOFF_MS)"
  by (simp add: RETRY_BACKOFF_MS_def)

section \<open>Properties\<close>

text \<open>
  Reading the status line of a collector's answer waits for ever exactly when every read
  brings bytes without a line feed; there is no bound on the line.
\<close>

theorem status_line_wait_unbounded:
  "read_line server i acc = None \<longleftrightarrow> (\<forall>k. keeps_waiting (server (i + k)))"
  using read_line_ends read_line_Some by (metis option.exhaust)

text \<open>
  With the default OTLP endpoint the sink is created, but no batch is ever exported: the
  host name is not a socket address, so each of the four attempts fails without reaching the
  network, after three and a half seconds of delays.
\<close>

theorem default_otlp_endpoint_unreachable:
  assumes "batch \<noteq> []" "gzip (encode (export_request_of chrono_nanos version batch)) = Inr compressed"
  shows "case otlp_sink_new (oc_endpoint otlp_default) auth_header batch_size flush_interval now of
      Inl _ \<Rightarrow> False
    | Inr s \<Rightarrow> export_batch chrono_nanos version encode gzip net s batch
        = Some (Inl (SinkConnection ''invalid address localhost:4318: invalid socket address syntax''), [500, 1000, 2000])"
proof -
  have "trim ''http://localhost:4318'' = ''http://localhost:4318''"
    by (rule trim_visible_ends) (simp_all add: visible_def)
  then have new: "normalize_http_endpoint ''http://localhost:4318'' = Inr ''http://localhost:4318''"
    by (simp add: normalize_http_endpoint_def trim_end_char_def starts_with_def strip_prefix_def)
  have "\<not> socket_addr v6 ''localhost:4318''" for v6
    by (simp add: socket_addr_def starts_with_def octet_def)
  then have "otlp_http_post (net n) auth_header (''http://localhost:4318'' @ ''/v1/logs'') compressed
      = Some (Inl (SinkConnection ''invalid address localhost:4318: invalid socket address syntax''))" for n
    by (simp add: otlp_http_post_def strip_prefix_def starts_with_def)
  from export_all_fail [where post = "\<lambda>n. otlp_http_post (net n) auth_header (''http://localhost:4318'' @ ''/v1/logs'') compressed",
      OF this]
  show ?thesis
    using assms by (simp add: otlp_sink_new_def otlp_default_def new export_batch_def RETRY_BACKOFF_MS_def)
qed

lemma default_otlp_endpoint_unreachable_witness:
  "case otlp_sink_new (oc_endpoint otlp_default) None 100 5 0 of
      Inl _ \<Rightarrow> False
    | Inr s \<Rightarrow> export_batch (\<lambda>_. None) ''4.0.0'' (\<lambda>_. ''{}'') Inr
        (\<lambda>_. \<lparr>on_v6 = (\<lambda>_. False), on_connect = (\<lambda>_. Inl ''refused'')\<rparr>) s [timed 7]
        = Some (Inl (SinkConnection ''invalid address localhost:4318: invalid socket address syntax''), [500, 1000, 2000])"
  by (rule default_otlp_endpoint_unreachable [where compressed = "''{}''"]) simp_all

text \<open>The OTLP sink keeps the same account of its occurrences as the HTTP sink.\<close>

lemma otlp_sink_accounts_run:
  assumes "otlp_sink_new endpoint auth_header batch_size flush_interval now = Inr s0"
    and "fold (buffer_step otlp_put otlp_take (\<lambda>(_ :: unit) s. s)) inputs ([], s0) = (pieces, s)"
  shows "concat (map piece_events pieces) @ ox_buffer s = concat (map put_of inputs)
     \<and> length (ox_buffer s) \<le> max (ox_batch_size s * 10) 1"
proof -
  have "ox_buffer s0 = []" using assms(1) by (auto simp: otlp_sink_new_def and_then_Inr)
  with otlp_buffer.run_account [OF assms(2)] show ?thesis by (simp add: otlp_inv_def)
qed

end
