(* ===== verification/AgentMain.thy ===== *)
theory AgentMain
  imports Otlp Registration ControllerSink
begin

text \<open>
  \<open>tapio-agent/src/main.rs\<close>: the command line, the sinks it asks for and their fan-out, the
  log level, and the state in which the agent's tasks are started. The environment variables
  and files are parameters; the tasks together are in \<open>AgentRun\<close>.
\<close>

section \<open>The command line\<close>

record args =
  ar_config :: string
  ar_sinks :: "string list"
  ar_ebpf_dir :: string
  ar_data_dir :: string
  ar_http_endpoint :: string
  ar_controller_endpoint :: "string option"
  ar_config_poll_interval :: nat
  ar_heartbeat_interval :: nat

definition args_default :: args where
  "args_default = \<lparr>ar_config = ''/etc/tapio/tapio.toml'', ar_sinks = [''stdout''], ar_ebpf_dir = ''/opt/tapio/ebpf'',
     ar_data_dir = ''.tapio/occurrences'', ar_http_endpoint = ''http://localhost:8765'',
     ar_controller_endpoint = None, ar_config_poll_interval = 30, ar_heartbeat_interval = 30\<rparr>"

datatype args_error =
    EmptyValue string
  | NeedsValue string
  | NeedsValueGot string string
  | HttpsUnsupported string
  | MustStartWithHttp string
  | MustBeSeconds string
  | AtLeastFiveSeconds string
  | UnknownArgument string

text \<open>Parsing ends with the arguments, with a text printed and exit code 0, or with an error.\<close>

datatype parse_end = Parsed args | HelpPrinted | VersionPrinted | ArgsError args_error

definition next_arg :: "string \<Rightarrow> string option \<Rightarrow> string list \<Rightarrow> args_error + (string \<times> string list)" where
  "next_arg flag inline_value rest =
     (case inline_value of
        Some value \<Rightarrow> if value = [] then Inl (EmptyValue flag) else Inr (value, rest)
      | None \<Rightarrow>
          (case rest of
             [] \<Rightarrow> Inl (NeedsValue flag)
           | value # rest1 \<Rightarrow>
               if starts_with value ''-'' then Inl (NeedsValueGot flag value) else Inr (value, rest1)))"

definition validate_http_endpoint :: "string \<Rightarrow> string \<Rightarrow> args_error + unit" where
  "validate_http_endpoint flag endpoint =
     (if starts_with endpoint ''https://'' then Inl (HttpsUnsupported flag)
      else if \<not> starts_with endpoint ''http://'' then Inl (MustStartWithHttp flag)
      else Inr ())"

definition seconds_arg :: "string \<Rightarrow> string \<Rightarrow> args_error + nat" where
  "seconds_arg flag value =
     (case parse_uint (2 ^ 64) value of
        None \<Rightarrow> Inl (MustBeSeconds flag)
      | Some seconds \<Rightarrow> if seconds < 5 then Inl (AtLeastFiveSeconds flag) else Inr seconds)"

text \<open>The effect of an option with a value on the arguments and the explicit sinks.\<close>

definition set_option :: "string \<Rightarrow> string \<Rightarrow> args \<times> string list \<Rightarrow> args_error + (args \<times> string list)" where
  "set_option flag value st =
     (case st of (args, explicit_sinks) \<Rightarrow>
        if flag = ''--config'' then Inr (args\<lparr>ar_config := value\<rparr>, explicit_sinks)
        else if flag = ''--sink'' then Inr (args, explicit_sinks @ [value])
        else if flag = ''--ebpf-dir'' then Inr (args\<lparr>ar_ebpf_dir := value\<rparr>, explicit_sinks)
        else if flag = ''--data-dir'' then Inr (args\<lparr>ar_data_dir := value\<rparr>, explicit_sinks)
        else if flag = ''--http-endpoint'' then Inr (args\<lparr>ar_http_endpoint := value\<rparr>, explicit_sinks)
        else if flag = ''--controller-endpoint'' then
          and_then (validate_http_endpoint flag value) (\<lambda>_.
            Inr (args\<lparr>ar_controller_endpoint := Some value\<rparr>, explicit_sinks))
        else if flag = ''--config-poll-interval'' then
          and_then (seconds_arg flag value) (\<lambda>seconds. Inr (args\<lparr>ar_config_poll_interval := seconds\<rparr>, explicit_sinks))
        else and_then (seconds_arg flag value) (\<lambda>seconds. Inr (args\<lparr>ar_heartbeat_interval := seconds\<rparr>, explicit_sinks)))"

definition value_options :: "string list" where
  "value_options = [''--config'', ''--sink'', ''--ebpf-dir'', ''--data-dir'', ''--http-endpoint'',
     ''--controller-endpoint'', ''--config-poll-interval'', ''--heartbeat-interval'']"

definition split_flag :: "string \<Rightarrow> string \<times> string option" where
  "split_flag arg = (case split_once (CHR ''='') arg of Some (flag, value) \<Rightarrow> (flag, Some value) | None \<Rightarrow> (arg, None))"

lemma next_arg_shorter: "next_arg flag inline_value rest = Inr (value, rest1) \<Longrightarrow> length rest1 \<le> length rest"
  by (auto simp: next_arg_def split: option.splits list.splits if_splits)

function parse_args :: "string list \<Rightarrow> args \<times> string list \<Rightarrow> parse_end" where
  "parse_args [] st =
     (case st of (args, explicit_sinks) \<Rightarrow>
        Parsed (if explicit_sinks \<noteq> [] then args\<lparr>ar_sinks := explicit_sinks\<rparr> else args))"
| "parse_args (arg # rest) st =
     (let (flag, inline_value) = split_flag arg in
      if flag = ''--help'' \<or> flag = ''-h'' then HelpPrinted
      else if flag = ''--version'' \<or> flag = ''-V'' then VersionPrinted
      else if flag \<in> set value_options then
        (case next_arg flag inline_value rest of
           Inl e \<Rightarrow> ArgsError e
         | Inr (value, rest1) \<Rightarrow>
             (case set_option flag value st of Inl e \<Rightarrow> ArgsError e | Inr st1 \<Rightarrow> parse_args rest1 st1))
      else ArgsError (UnknownArgument flag))"
  by pat_completeness auto
termination
  by (relation "measure (\<lambda>(rest, st). length rest)") (auto dest!: next_arg_shorter simp: less_Suc_eq_le)

definition parse_from :: "string list \<Rightarrow> parse_end" where
  "parse_from argv = parse_args argv (args_default, [])"

section \<open>Sinks\<close>

definition node_name :: "(string \<Rightarrow> string option) \<Rightarrow> string" where
  "node_name env = (case env ''TAPIO_NODE_NAME'' of Some n \<Rightarrow> n
     | None \<Rightarrow> (case env ''HOSTNAME'' of Some n \<Rightarrow> n | None \<Rightarrow> ''unknown-node''))"

definition agent_id :: "(string \<Rightarrow> string option) \<Rightarrow> string" where
  "agent_id env = (case env ''TAPIO_AGENT_ID'' of Some i \<Rightarrow> i | None \<Rightarrow> ''node/'' @ node_name env)"

definition controller_config_of :: "(string \<Rightarrow> string option) \<Rightarrow> args \<Rightarrow> string \<Rightarrow> agent_controller_config" where
  "controller_config_of env args endpoint =
     \<lparr>acc_endpoint = endpoint, acc_agent_id = agent_id env, acc_node_name = node_name env,
      acc_poll_interval = ar_config_poll_interval args, acc_heartbeat_interval = ar_heartbeat_interval args\<rparr>"

text \<open>The sinks as they are constructed; times in nanoseconds.\<close>

datatype sink_spec =
    StdoutSink
  | FileSink string
  | HttpSink http_sink
  | ControllerSinkFor agent_controller_config
  | OtlpSink otlp_sink

datatype create_error = NeedsControllerEndpoint | OtlpNotBuilt | OtlpRefused sink_error | UnknownSink string | NoSink

definition create_sink ::
  "bool \<Rightarrow> nat \<Rightarrow> (string \<Rightarrow> string option) \<Rightarrow> args \<Rightarrow> agent_config \<Rightarrow> string \<Rightarrow> create_error + sink_spec" where
  "create_sink otlp_feature now env args cfg name =
     (if name = ''stdout'' then Inr StdoutSink
      else if name = ''file'' then Inr (FileSink (ar_data_dir args))
      else if name = ''http'' then Inr (HttpSink (http_sink_new (ar_http_endpoint args) 100 (10 ^ 9) now))
      else if name = ''controller'' then
        (case ar_controller_endpoint args of
           None \<Rightarrow> Inl NeedsControllerEndpoint
         | Some endpoint \<Rightarrow> Inr (ControllerSinkFor (controller_config_of env args endpoint)))
      else if name = ''otlp'' then
        (if \<not> otlp_feature then Inl OtlpNotBuilt
         else case otlp_sink_new (oc_endpoint (ac_otlp cfg)) (oc_auth_header (ac_otlp cfg))
                  (unat (oc_batch_size (ac_otlp cfg))) (unat (oc_flush_interval_secs (ac_otlp cfg)) * 10 ^ 9) now of
                Inl e \<Rightarrow> Inl (OtlpRefused e)
              | Inr s \<Rightarrow> Inr (OtlpSink s))
      else Inl (UnknownSink name))"

fun create_all :: "(string \<Rightarrow> create_error + sink_spec) \<Rightarrow> string list \<Rightarrow> create_error + sink_spec list" where
  "create_all create [] = Inr []"
| "create_all create (name # names) =
     and_then (create name) (\<lambda>s. and_then (create_all create names) (\<lambda>ss. Inr (s # ss)))"

definition create_sinks ::
  "bool \<Rightarrow> nat \<Rightarrow> (string \<Rightarrow> string option) \<Rightarrow> args \<Rightarrow> agent_config \<Rightarrow> create_error + sink_spec list" where
  "create_sinks otlp_feature now env args cfg =
     and_then (create_all (create_sink otlp_feature now env args cfg) (ar_sinks args)) (\<lambda>sinks.
     if sinks = [] then Inl NoSink else Inr sinks)"

section \<open>Fan-out\<close>

text \<open>A sink as the fan-out sees it: its name, and its \<open>send\<close> and \<open>flush\<close> on the state of all sinks.\<close>

record ('e, 'w) any_sink =
  as_name :: string
  as_send :: "occurrence \<Rightarrow> 'w \<Rightarrow> ('e + unit) \<times> 'w"
  as_flush :: "'w \<Rightarrow> ('e + unit) \<times> 'w"

definition count_write :: "string \<Rightarrow> string \<Rightarrow> tapio_metrics option \<Rightarrow> tapio_metrics option" where
  "count_write name result metrics =
     map_option (\<lambda>m. m\<lparr>m_sink_writes_total := inc [name, result] (m_sink_writes_total m)\<rparr>) metrics"

fun multi_send ::
  "('e, 'w) any_sink list \<Rightarrow> occurrence \<Rightarrow> 'e option \<Rightarrow> tapio_metrics option \<times> 'w
     \<Rightarrow> ('e + unit) \<times> tapio_metrics option \<times> 'w" where
  "multi_send [] occ last_err (metrics, w) = ((case last_err of Some e \<Rightarrow> Inl e | None \<Rightarrow> Inr ()), metrics, w)"
| "multi_send (s # ss) occ last_err (metrics, w) =
     (case as_send s occ w of
        (Inr _, w1) \<Rightarrow> multi_send ss occ last_err (count_write (as_name s) ''ok'' metrics, w1)
      | (Inl e, w1) \<Rightarrow> multi_send ss occ (Some e) (count_write (as_name s) ''err'' metrics, w1))"

fun multi_flush :: "('e, 'w) any_sink list \<Rightarrow> 'e option \<Rightarrow> 'w \<Rightarrow> ('e + unit) \<times> 'w" where
  "multi_flush [] last_err w = ((case last_err of Some e \<Rightarrow> Inl e | None \<Rightarrow> Inr ()), w)"
| "multi_flush (s # ss) last_err w =
     (case as_flush s w of
        (Inr _, w1) \<Rightarrow> multi_flush ss last_err w1
      | (Inl e, w1) \<Rightarrow> multi_flush ss (Some e) w1)"

section \<open>Logging\<close>

datatype log_level = LevelTrace | LevelDebug | LevelInfo | LevelWarn | LevelError | LevelOff

definition ascii_lower :: "char \<Rightarrow> char" where
  "ascii_lower c = (if in_range 65 90 c then char_of ((of_char c :: nat) + 32) else c)"

definition log_level_from_rust_log :: "string option \<Rightarrow> log_level" where
  "log_level_from_rust_log value =
     (case value of
        None \<Rightarrow> LevelError
      | Some v \<Rightarrow>
          (let part = hd (split_on (CHR '','') v);
               level = (case split_once (CHR ''='') (rev part) of None \<Rightarrow> part | Some (after, before) \<Rightarrow> rev after);
               directive = map ascii_lower (trim level)
           in if directive = ''trace'' then LevelTrace else if directive = ''debug'' then LevelDebug
              else if directive = ''info'' then LevelInfo else if directive = ''warn'' then LevelWarn
              else if directive = ''error'' then LevelError else if directive = ''off'' then LevelOff
              else LevelError))"

text \<open>Writing to standard error: a broken pipe counts as written.\<close>

datatype io_error = BrokenPipe | OtherIo string

definition guard_write :: "(string \<Rightarrow> io_error + nat) \<Rightarrow> string \<Rightarrow> io_error + nat" where
  "guard_write stderr buf = (case stderr buf of Inl BrokenPipe \<Rightarrow> Inr (length buf) | other \<Rightarrow> other)"

definition guard_flush :: "io_error + unit \<Rightarrow> io_error + unit" where
  "guard_flush r = (case r of Inl BrokenPipe \<Rightarrow> Inr () | other \<Rightarrow> other)"

section \<open>Start-up\<close>

definition UNCONFIGURED_CONFIG_VERSION :: string where "UNCONFIGURED_CONFIG_VERSION = ''0''"
definition STANDALONE_CONFIG_VERSION :: string where "STANDALONE_CONFIG_VERSION = ''1''"

text \<open>A line that reads \<open>[thresholds]\<close>; \<open>read\<close> is \<open>read_to_string(path).ok()\<close>.\<close>

definition config_file_mentions_thresholds :: "(string \<Rightarrow> string option) \<Rightarrow> string \<Rightarrow> bool" where
  "config_file_mentions_thresholds read path =
     (case read path of None \<Rightarrow> False | Some content \<Rightarrow> list_ex (\<lambda>line. trim line = ''[thresholds]'') (str_lines content))"

definition boot_offset :: "u64 \<Rightarrow> u64 \<Rightarrow> u64 \<Rightarrow> u64" where
  "boot_offset wall_ns tv_sec tv_nsec = wall_ns - (tv_sec * 1000000000 + tv_nsec)"

record agent_start =
  st_control :: agent_control
  st_tapio_config :: tapio_config
  st_active_config :: "applied_config_identity option"
  st_pmc_thresholds :: pmc_thresholds
  st_controller :: "agent_controller_config option"

definition agent_start_of :: "(string \<Rightarrow> string option) \<Rightarrow> args \<Rightarrow> agent_config \<Rightarrow> agent_start" where
  "agent_start_of env args cfg =
     (let controller_mode = ar_controller_endpoint args \<noteq> None;
          config = (if controller_mode then tapio_config_default else agent_tapio_config cfg)
      in \<lparr>st_control = agent_control_new (if controller_mode then UNCONFIGURED_CONFIG_VERSION else STANDALONE_CONFIG_VERSION),
          st_tapio_config = config,
          st_active_config = (if \<not> controller_mode
            then Some \<lparr>aci_version = STANDALONE_CONFIG_VERSION, aci_hash = [], aci_flags = tc_flags config\<rparr> else None),
          st_pmc_thresholds = \<lparr>pt_stall_pct_warning = th_stall_pct_warning (ac_thresholds cfg),
             pt_stall_pct_critical = th_stall_pct_critical (ac_thresholds cfg),
             pt_ipc_degradation = th_ipc_degradation (ac_thresholds cfg)\<rparr>,
          st_controller = map_option (controller_config_of env args) (ar_controller_endpoint args)\<rparr>)"

text \<open>
  The whole start: arguments, configuration file, sinks, then the address of the metrics
  endpoint. \<open>at_file\<close> is the file at a path, \<open>None\<close> when there is none.
\<close>

datatype ('io, 'toml) boot_error =
    BadArgs args_error
  | BadConfig "('io, 'toml) load_error"
  | BadSinks create_error
  | BadMetricsAddress string

datatype ('io, 'toml) boot_end =
    BootExit
  | BootFailed "('io, 'toml) boot_error"
  | Booted agent_start "sink_spec list" "(string \<times> u16) option"

record ('io, 'toml) boot_world =
  at_env :: "string \<Rightarrow> string option"
  at_file :: "string \<Rightarrow> ('io + string) option"
  at_toml :: "string \<Rightarrow> 'toml + agent_config"
  at_otlp_feature :: bool
  at_v6 :: "string \<Rightarrow> bool"
  at_now :: nat

definition agent_boot :: "('io, 'toml) boot_world \<Rightarrow> string list \<Rightarrow> ('io, 'toml) boot_end" where
  "agent_boot world argv =
     (case parse_from argv of
        HelpPrinted \<Rightarrow> BootExit
      | VersionPrinted \<Rightarrow> BootExit
      | ArgsError e \<Rightarrow> BootFailed (BadArgs e)
      | Parsed args \<Rightarrow>
          (case load_agent_config (at_file world (ar_config args)) (at_toml world) of
             Inl e \<Rightarrow> BootFailed (BadConfig e)
           | Inr cfg \<Rightarrow>
               (case create_sinks (at_otlp_feature world) (at_now world) (at_env world) args cfg of
                  Inl e \<Rightarrow> BootFailed (BadSinks e)
                | Inr sinks \<Rightarrow>
                    (let st = agent_start_of (at_env world) args cfg; m = ac_metrics cfg in
                     if \<not> mc_enabled m then Booted st sinks None
                     else if \<not> ip_addr (at_v6 world) (mc_bind_address m) then BootFailed (BadMetricsAddress (mc_bind_address m))
                     else Booted st sinks (Some (mc_bind_address m, mc_port m))))))"

section \<open>Lemmas\<close>

definition args_ok :: "args \<Rightarrow> bool" where
  "args_ok args \<longleftrightarrow> 5 \<le> ar_config_poll_interval args \<and> ar_config_poll_interval args < 2 ^ 64
     \<and> 5 \<le> ar_heartbeat_interval args \<and> ar_heartbeat_interval args < 2 ^ 64 \<and> ar_sinks args \<noteq> []
     \<and> (case ar_controller_endpoint args of None \<Rightarrow> True
        | Some e \<Rightarrow> starts_with e ''http://'' \<and> \<not> starts_with e ''https://'')"

lemma set_option_ok:
  "set_option flag v (args, explicit) = Inr (args', explicit') \<Longrightarrow> args_ok args \<Longrightarrow> args_ok args'"
  using parse_uint_bound [of "2 ^ 64" v]
  by (auto simp: set_option_def args_ok_def and_then_Inr seconds_arg_def validate_http_endpoint_def
      split: if_splits option.splits)

lemma parse_args_ok:
  "args_ok (fst st) \<Longrightarrow> (case parse_args argv st of Parsed args \<Rightarrow> args_ok args | _ \<Rightarrow> True)"
proof (induction argv st rule: parse_args.induct)
  case (1 st)
  then show ?case by (cases st) (auto simp: args_ok_def)
next
  case (2 arg rest st)
  obtain flag inline_value where f: "split_flag arg = (flag, inline_value)" by force
  obtain args explicit where st: "st = (args, explicit)" by force
  show ?case
  proof (cases "flag \<in> set value_options \<and> flag \<notin> {''--help'', ''-h'', ''--version'', ''-V''}")
    case True
    show ?thesis
    proof (cases "next_arg flag inline_value rest")
      case (Inl e)
      with True f show ?thesis by simp
    next
      case (Inr vr)
      obtain v rest1 where vr: "vr = (v, rest1)" by force
      show ?thesis
      proof (cases "set_option flag v st")
        case (Inl e)
        with True f Inr vr show ?thesis by simp
      next
        case (Inr st1)
        obtain args1 explicit1 where st1: "st1 = (args1, explicit1)" by force
        have "args_ok (fst st1)"
          using set_option_ok [of flag v args explicit args1 explicit1] Inr "2.prems" by (simp add: st st1)
        from "2.IH" [OF f [symmetric] refl _ _ _ \<open>next_arg _ _ _ = _\<close> vr [symmetric] Inr this] True
        have "case parse_args rest1 st1 of Parsed args \<Rightarrow> args_ok args | _ \<Rightarrow> True" by simp
        with True f \<open>next_arg _ _ _ = _\<close> vr Inr show ?thesis by simp
      qed
    qed
  next
    case False
    with f show ?thesis by auto
  qed
qed

lemma trim_end_http:
  assumes "starts_with e ''http://''"
  shows "starts_with (trim_end_char (CHR ''/'') e) ''http://'' \<or> set (drop 7 e) \<subseteq> {CHR ''/''}"
proof -
  obtain t where e: "e = ''http://'' @ t" using assms by (auto simp: starts_with_iff)
  have d: "dropWhile (\<lambda>c. c = CHR ''/'') (xs @ ys) = dropWhile (\<lambda>c. c = CHR ''/'') xs @ ys"
    if "\<exists>x\<in>set xs. x \<noteq> CHR ''/''" for xs ys using that by (auto simp: dropWhile_append)
  show ?thesis
  proof (cases "set t \<subseteq> {CHR ''/''}")
    case True
    then show ?thesis by (simp add: e)
  next
    case False
    then have "\<exists>x\<in>set (rev t). x \<noteq> CHR ''/''" by auto
    from d [OF this, of "rev ''http://''"] have "trim_end_char (CHR ''/'') e = ''http://'' @ trim_end_char (CHR ''/'') t"
      by (simp add: trim_end_char_def e)
    then show ?thesis by (simp add: starts_with_def)
  qed
qed

text \<open>The results of the sinks, each called once and in turn.\<close>

fun send_results :: "('e, 'w) any_sink list \<Rightarrow> occurrence \<Rightarrow> 'w \<Rightarrow> ('e + unit) list" where
  "send_results [] occ w = []"
| "send_results (s # ss) occ w = fst (as_send s occ w) # send_results ss occ (snd (as_send s occ w))"

definition errors_in :: "('e + unit) list \<Rightarrow> 'e list" where
  "errors_in rs = List.map_filter (\<lambda>r. case r of Inl e \<Rightarrow> Some e | Inr _ \<Rightarrow> None) rs"

lemma multi_send_all:
  assumes "cv_inv (m_sink_writes_total m)"
  shows "\<exists>m'. multi_send ss occ last_err (Some m, w)
     = ((case errors_in (send_results ss occ w) of
           [] \<Rightarrow> (case last_err of None \<Rightarrow> Inr () | Some e \<Rightarrow> Inl e) | es \<Rightarrow> Inl (last es)),
        Some m', fold (\<lambda>s w. snd (as_send s occ w)) ss w)
     \<and> cv_inv (m_sink_writes_total m')
     \<and> cv_sum (m_sink_writes_total m') = cv_sum (m_sink_writes_total m) + of_nat (length ss)"
  using assms
proof (induction ss arbitrary: last_err m w)
  case Nil
  then show ?case by (auto simp: errors_in_def split: option.splits)
next
  case (Cons s ss)
  obtain r w1 where r: "as_send s occ w = (r, w1)" by force
  define m1 where "m1 = (\<lambda>res. m\<lparr>m_sink_writes_total := inc [as_name s, res] (m_sink_writes_total m)\<rparr>)"
  have count: "count_write (as_name s) res (Some m) = Some (m1 res)" for res
    by (simp add: count_write_def m1_def)
  have m1: "cv_inv (m_sink_writes_total (m1 res))"
    "cv_sum (m_sink_writes_total (m1 res)) = cv_sum (m_sink_writes_total m) + 1" for res
    using Cons.prems by (simp_all add: m1_def inc_def inc_sum)
  show ?case
  proof (cases r)
    case (Inr u)
    from Cons.IH [of "m1 ''ok''" last_err w1] m1 Inr show ?thesis
      by (auto simp: r count errors_in_def add.assoc split: list.splits)
  next
    case (Inl e)
    from Cons.IH [of "m1 ''err''" "Some e" w1] m1 Inl show ?thesis
      by (auto simp: r count errors_in_def add.assoc split: list.splits)
  qed
qed

lemma create_all_ok:
  "create_all create names = Inr sinks \<Longrightarrow> list_all2 (\<lambda>name s. create name = Inr s) names sinks"
  by (induction names arbitrary: sinks) (auto simp: and_then_Inr)

lemma standalone_observers:
  "observer_enabled (agent_tapio_config cfg) TAPIO_F_NETWORK" "observer_enabled (agent_tapio_config cfg) TAPIO_F_STORAGE"
  "observer_enabled (agent_tapio_config cfg) TAPIO_F_CONTAINER" "observer_enabled (agent_tapio_config cfg) TAPIO_F_NODE_PMC"
  by (simp_all add: agent_tapio_config_def thresholds_tapio_config_def observer_enabled_def has_valid_abi_def flag_constants)

lemma default_disabled: "\<not> observer_enabled tapio_config_default flag"
  by (simp add: observer_enabled_def has_valid_abi_def tapio_config_default_def TAPIO_CONFIG_ABI_VERSION_def)

text \<open>The sinks that are created are the ones that are asked for, in order.\<close>

lemma created_sinks:
  "create_sinks otlp_feature now env args cfg = Inr sinks \<Longrightarrow>
     list_all2 (\<lambda>name s. create_sink otlp_feature now env args cfg name = Inr s) (ar_sinks args) sinks \<and> sinks \<noteq> []"
  by (auto simp: create_sinks_def and_then_Inr dest: create_all_ok split: if_splits)

lemma st_controller_of:
  "st_controller (agent_start_of env args cfg) = map_option (controller_config_of env args) (ar_controller_endpoint args)"
  by (simp add: agent_start_of_def Let_def)

lemma created_identity:
  assumes "create_sinks otlp_feature now env args cfg = Inr sinks"
  shows "list_all (\<lambda>s. case s of
      ControllerSinkFor c \<Rightarrow> st_controller (agent_start_of env args cfg) = Some c
    | _ \<Rightarrow> True) sinks"
proof -
  have "list_all2 (\<lambda>name s. create_sink otlp_feature now env args cfg name = Inr s) (ar_sinks args) sinks"
    using created_sinks [OF assms] by simp
  then show ?thesis
    by (induction rule: list_all2_induct)
      (auto simp: create_sink_def st_controller_of split: sink_spec.splits if_splits option.splits sum.splits)
qed

text \<open>The two ways to start, with the heartbeat they lead to.\<close>

definition starts_as :: "bool \<Rightarrow> agent_start \<Rightarrow> heartbeat_request \<Rightarrow> bool" where
  "starts_as controller_mode st hb \<longleftrightarrow>
     (if controller_mode
      then list_all (\<lambda>flag. \<not> observer_enabled (st_tapio_config st) flag)
             [TAPIO_F_NETWORK, TAPIO_F_STORAGE, TAPIO_F_CONTAINER, TAPIO_F_NODE_PMC]
           \<and> hb_config_version hb = ''0'' \<and> hb_config_hash hb = [] \<and> hb_degraded_reasons hb = [Unconfigured]
      else list_all (observer_enabled (st_tapio_config st))
             [TAPIO_F_NETWORK, TAPIO_F_STORAGE, TAPIO_F_CONTAINER, TAPIO_F_NODE_PMC]
           \<and> hb_config_version hb = ''1'' \<and> hb_degraded_reasons hb = [])"

lemma start_modes:
  "starts_as (st_controller (agent_start_of env args cfg) \<noteq> None) (agent_start_of env args cfg)
     (build_heartbeat_request cc metrics (st_active_config (agent_start_of env args cfg)) uptime)"
  by (simp add: starts_as_def agent_start_of_def Let_def build_heartbeat_request_def build_heartbeat_def
      default_disabled standalone_observers STANDALONE_CONFIG_VERSION_def)

section \<open>Properties\<close>

text \<open>
  Arguments that are accepted are safe: both intervals are at least five seconds and fit 64
  bits, there is a sink, and a controller endpoint has the scheme that the HTTP client
  requires, also in the addresses built from it, unless it names no host.
\<close>

theorem accepted_args_safe:
  "case parse_from argv of
     Parsed args \<Rightarrow>
       5 \<le> ar_config_poll_interval args \<and> ar_config_poll_interval args < 2 ^ 64
       \<and> 5 \<le> ar_heartbeat_interval args \<and> ar_heartbeat_interval args < 2 ^ 64 \<and> ar_sinks args \<noteq> []
       \<and> (case ar_controller_endpoint args of None \<Rightarrow> True
          | Some e \<Rightarrow> starts_with e ''http://''
              \<and> (starts_with (config_url (controller_config_of env args e)) ''http://'' \<or> set (drop 7 e) \<subseteq> {CHR ''/''}))
   | _ \<Rightarrow> True"
proof -
  have "args_ok args_default" by (simp add: args_ok_def args_default_def)
  with parse_args_ok [of "(args_default, [])" argv]
  have ok: "case parse_from argv of Parsed args \<Rightarrow> args_ok args | _ \<Rightarrow> True" by (simp add: parse_from_def)
  have url: "starts_with (config_url (controller_config_of env args e)) ''http://'' \<or> set (drop 7 e) \<subseteq> {CHR ''/''}"
    if "starts_with e ''http://''" for args e
    using trim_end_http [OF that] by (auto simp: config_url_def controller_config_of_def starts_with_iff)
  show ?thesis using ok url by (auto simp: args_ok_def split: parse_end.splits option.splits)
qed

text \<open>
  The fan-out hands an occurrence to every sink exactly once and in order, whichever fail; it
  reports the last failure, and counts one write for each sink.
\<close>

theorem multi_send_reaches_all:
  assumes "cv_inv (m_sink_writes_total m)"
  shows "case multi_send sinks occ None (Some m, w) of
      (r, metrics, w') \<Rightarrow>
        w' = fold (\<lambda>s w. snd (as_send s occ w)) sinks w
        \<and> (r = Inr () \<longleftrightarrow> errors_in (send_results sinks occ w) = [])
        \<and> (case r of Inr _ \<Rightarrow> True | Inl e \<Rightarrow> e = last (errors_in (send_results sinks occ w)))
        \<and> (case metrics of None \<Rightarrow> False
           | Some m' \<Rightarrow> cv_sum (m_sink_writes_total m') = cv_sum (m_sink_writes_total m) + of_nat (length sinks))"
proof -
  obtain m' where m': "multi_send sinks occ None (Some m, w)
      = ((case errors_in (send_results sinks occ w) of [] \<Rightarrow> Inr () | es \<Rightarrow> Inl (last es)),
         Some m', fold (\<lambda>s w. snd (as_send s occ w)) sinks w)"
    "cv_sum (m_sink_writes_total m') = cv_sum (m_sink_writes_total m) + of_nat (length sinks)"
    using multi_send_all [OF assms, of sinks occ None w] by (fastforce simp only: option.case)
  show ?thesis unfolding m'(1) by (cases "errors_in (send_results sinks occ w)") (simp_all add: m'(2))
qed

definition failing_sink :: "string \<Rightarrow> (sink_error, string list) any_sink" where
  "failing_sink name = \<lparr>as_name = name, as_send = (\<lambda>_ w. (Inl (SinkSend name), w @ [name])), as_flush = (\<lambda>w. (Inr (), w))\<rparr>"

definition working_sink :: "string \<Rightarrow> (sink_error, string list) any_sink" where
  "working_sink name = \<lparr>as_name = name, as_send = (\<lambda>_ w. (Inr (), w @ [name])), as_flush = (\<lambda>w. (Inr (), w))\<rparr>"

lemma multi_send_reaches_all_witness:
  "snd (snd (multi_send [failing_sink ''fail'', working_sink ''ok''] (timed 7) None (Some metrics_new, []))) = [''fail'', ''ok'']"
proof -
  have "cv_inv (m_sink_writes_total metrics_new)" by (simp add: metrics_new_def)
  from multi_send_reaches_all [where sinks = "[failing_sink ''fail'', working_sink ''ok'']" and occ = "timed 7"
      and w = "[]", OF this]
  show ?thesis by (auto simp: failing_sink_def working_sink_def split: prod.splits)
qed

text \<open>
  An agent that starts has a sink, and every controller sink has the identity and endpoint
  under which the agent registers and polls. Given a controller it starts with every observer
  switched off, the version 0 and a heartbeat that says it is not configured; without one
  it starts with all four observers on, the version 1 and nothing to excuse.
\<close>

theorem startup_modes:
  "case agent_boot world argv of
     Booted st sinks addr \<Rightarrow>
       sinks \<noteq> [] \<and> list_all (\<lambda>s. case s of ControllerSinkFor c \<Rightarrow> st_controller st = Some c | _ \<Rightarrow> True) sinks
       \<and> starts_as (st_controller st \<noteq> None) st (build_heartbeat_request cc metrics (st_active_config st) uptime)
   | _ \<Rightarrow> True"
proof (cases "agent_boot world argv")
  case (Booted st sinks addr)
  then obtain args cfg where st: "st = agent_start_of (at_env world) args cfg"
    and sinks: "create_sinks (at_otlp_feature world) (at_now world) (at_env world) args cfg = Inr sinks"
    by (auto simp: agent_boot_def Let_def split: parse_end.splits sum.splits if_splits)
  from created_sinks [OF sinks] created_identity [OF sinks]
  show ?thesis unfolding Booted using start_modes [of "at_env world" args cfg cc metrics uptime]
    by (simp add: st)
qed simp_all

end
