(* ===== verification/AgentRun.thy ===== *)
theory AgentRun
  imports AgentMain ObserverRun
begin

text \<open>
  The tasks that \<open>main\<close> of \<open>tapio-agent/src/main.rs\<close> spawns, together: the poll loop and the
  registration loop in controller mode, and the four observers, over the state that they share,
  until the shutdown signal. An input is the completion that a task was waiting for; the tasks
  themselves are \<open>AgentPoll\<close>, \<open>Registration\<close> and \<open>ObserverRun\<close>. What an observer does
  between its set-up and its end (ticks, occurrences, counters) is in \<open>ObserverRun\<close>.
\<close>

section \<open>State\<close>

datatype observer_phase = Starting | Looping | GaveUp setup_end | Shut

record agent_run =
  ag_control :: agent_control
  ag_metrics :: tapio_metrics
  ag_active :: "applied_config_identity option"
  ag_target :: apply_target
  ag_etag :: "string option"
  ag_polling :: bool
  ag_registration :: reg_phase
  ag_slept :: "nat list"
  ag_observers :: "string \<Rightarrow> observer_phase"
  ag_shutdown :: bool

text \<open>In the order in which they are spawned.\<close>

definition observer_names :: "string list" where
  "observer_names = [''network'', ''container'', ''storage'', ''node_pmc'']"

definition agent_begin :: "agent_start \<Rightarrow> tapio_metrics \<Rightarrow> agent_run" where
  "agent_begin start m =
     \<lparr>ag_control = st_control start, ag_metrics = m, ag_active = st_active_config start,
      ag_target = \<lparr>ap_carriers = carriers_empty, ap_thresholds = st_pmc_thresholds start, ap_receivers = True\<rparr>,
      ag_etag = None, ag_polling = (st_controller start \<noteq> None),
      ag_registration = (if st_controller start \<noteq> None then Helloing INITIAL_HELLO_BACKOFF else Stopped),
      ag_slept = [], ag_observers = (\<lambda>_. Starting), ag_shutdown = False\<rparr>"

text \<open>The part of the state that a loop sees, and its way back.\<close>

definition poll_view :: "agent_run \<Rightarrow> poll_state" where
  "poll_view st = \<lparr>pl_etag = ag_etag st, pl_active = ag_active st, pl_control = ag_control st,
     pl_metrics = ag_metrics st, pl_target = ag_target st\<rparr>"

definition put_poll :: "poll_state \<Rightarrow> agent_run \<Rightarrow> agent_run" where
  "put_poll p st = st\<lparr>ag_etag := pl_etag p, ag_active := pl_active p, ag_control := pl_control p,
     ag_metrics := pl_metrics p, ag_target := pl_target p\<rparr>"

definition reg_view :: "agent_run \<Rightarrow> reg_state" where
  "reg_view st = \<lparr>rg_phase = ag_registration st, rg_control = ag_control st, rg_metrics = ag_metrics st,
     rg_slept = ag_slept st\<rparr>"

definition put_reg :: "reg_state \<Rightarrow> agent_run \<Rightarrow> agent_run" where
  "put_reg r st = st\<lparr>ag_registration := rg_phase r, ag_control := rg_control r, ag_metrics := rg_metrics r,
     ag_slept := rg_slept r\<rparr>"

section \<open>Steps\<close>

definition set_up_observer ::
  "(nat \<Rightarrow> bool) \<Rightarrow> string \<Rightarrow> perf_answers \<Rightarrow> string + ebpf_object \<Rightarrow> tapio_config \<Rightarrow> carrier_state
     \<Rightarrow> setup_end \<times> carrier_state" where
  "set_up_observer accepts name pf =
     (if name = ''network'' then network_setup accepts
      else if name = ''container'' then container_setup accepts
      else if name = ''storage'' then storage_setup accepts
      else pmc_setup accepts pf)"

text \<open>An observer that is set up waits for ticks; otherwise its task ends.\<close>

definition phase_after :: "setup_end \<Rightarrow> observer_phase" where
  "phase_after ending = (case ending of SetupRunning _ \<Rightarrow> Looping | _ \<Rightarrow> GaveUp ending)"

datatype agent_task = PollTask | RegistrationTask | ObserverTask string

datatype agent_input =
    Interrupt
  | PollTicked "string \<Rightarrow> string + connection"
  | Answered reg_input
  | SetUp string perf_answers "string + ebpf_object"
  | Noticed agent_task

text \<open>
  \<open>Noticed\<close>: the task's \<open>select!\<close> takes the branch of the shutdown channel, which it may do any
  time after the interrupt; until then it goes on.
\<close>

fun agent_step ::
  "(string \<Rightarrow> string + config_response) \<Rightarrow> (nat \<Rightarrow> bool) \<Rightarrow> agent_start \<Rightarrow> agent_input \<Rightarrow> agent_run \<Rightarrow> agent_run" where
  "agent_step from_json accepts start Interrupt st = st\<lparr>ag_shutdown := True\<rparr>"
| "agent_step from_json accepts start (PollTicked connect) st =
     (case st_controller start of
        None \<Rightarrow> st
      | Some cc \<Rightarrow>
          if ag_polling st then put_poll (poll_step from_json accepts cc connect (poll_view st)) st else st)"
| "agent_step from_json accepts start (Answered i) st =
     (if i = ShutdownSignal \<or> ag_registration st = Stopped then st else put_reg (reg_step i (reg_view st)) st)"
| "agent_step from_json accepts start (SetUp name pf loaded) st =
     (if name \<in> set observer_names \<and> ag_observers st name = Starting
      then (let (ending, carriers) =
                  set_up_observer accepts name pf loaded (st_tapio_config start) (ap_carriers (ag_target st))
            in st\<lparr>ag_target := (ag_target st)\<lparr>ap_carriers := carriers\<rparr>,
                  ag_observers := (ag_observers st)(name := phase_after ending)\<rparr>)
      else st)"
| "agent_step from_json accepts start (Noticed task) st =
     (if \<not> ag_shutdown st then st
      else (case task of
          PollTask \<Rightarrow> st\<lparr>ag_polling := False\<rparr>
        | RegistrationTask \<Rightarrow> put_reg (reg_step ShutdownSignal (reg_view st)) st
        | ObserverTask name \<Rightarrow>
            (if ag_observers st name = Looping
             then st\<lparr>ag_observers := (ag_observers st)(name := Shut)\<rparr> else st)))"

text \<open>\<open>main\<close> returns when every task of the set has been joined.\<close>

definition agent_ended :: "agent_run \<Rightarrow> bool" where
  "agent_ended st \<longleftrightarrow> \<not> ag_polling st \<and> ag_registration st = Stopped
     \<and> list_all (\<lambda>name. ag_observers st name \<noteq> Starting \<and> ag_observers st name \<noteq> Looping) observer_names"

text \<open>The heartbeat that would be sent now.\<close>

definition heartbeat_now :: "agent_controller_config \<Rightarrow> u64 \<Rightarrow> agent_run \<Rightarrow> heartbeat_request" where
  "heartbeat_now cc uptime st = build_heartbeat_request cc (ag_metrics st) (ag_active st) uptime"

section \<open>Lemmas\<close>

lemma views [simp]:
  "ag_control (put_poll p st) = pl_control p" "ag_active (put_poll p st) = pl_active p"
  "ag_target (put_poll p st) = pl_target p" "ag_etag (put_poll p st) = pl_etag p"
  "ag_polling (put_poll p st) = ag_polling st" "ag_registration (put_poll p st) = ag_registration st"
  "ag_slept (put_poll p st) = ag_slept st" "ag_observers (put_poll p st) = ag_observers st"
  "ag_shutdown (put_poll p st) = ag_shutdown st" "ag_metrics (put_poll p st) = pl_metrics p"
  "ag_control (put_reg r st) = rg_control r" "ag_active (put_reg r st) = ag_active st"
  "ag_target (put_reg r st) = ag_target st" "ag_etag (put_reg r st) = ag_etag st"
  "ag_polling (put_reg r st) = ag_polling st" "ag_registration (put_reg r st) = rg_phase r"
  "ag_slept (put_reg r st) = rg_slept r" "ag_observers (put_reg r st) = ag_observers st"
  "ag_shutdown (put_reg r st) = ag_shutdown st" "ag_metrics (put_reg r st) = rg_metrics r"
  by (simp_all add: put_poll_def put_reg_def)

lemma view_fields [simp]:
  "pl_target (poll_view st) = ag_target st" "pl_active (poll_view st) = ag_active st" "pl_etag (poll_view st) = ag_etag st"
  "pl_control (poll_view st) = ag_control st" "pl_metrics (poll_view st) = ag_metrics st"
  "rg_phase (reg_view st) = ag_registration st" "rg_control (reg_view st) = ag_control st"
  "rg_metrics (reg_view st) = ag_metrics st" "rg_slept (reg_view st) = ag_slept st"
  by (simp_all add: poll_view_def reg_view_def)

lemma phase_after_set [simp]: "phase_after ending \<noteq> Starting" "phase_after ending \<noteq> Shut"
  by (simp_all add: phase_after_def split: setup_end.splits)

text \<open>A loop that waits is stopped by the signal only.\<close>

lemma reg_step_goes_on:
  "i \<noteq> ShutdownSignal \<Longrightarrow> rg_phase st \<noteq> Stopped \<Longrightarrow> rg_phase (reg_step i st) \<noteq> Stopped"
  by (cases i; cases "rg_phase st") (auto simp: hello_done_def Let_def split_def split: sum.splits)

subsection \<open>The end\<close>

fun task_stopped :: "agent_task \<Rightarrow> agent_run \<Rightarrow> bool" where
  "task_stopped PollTask st = (\<not> ag_polling st)"
| "task_stopped RegistrationTask st = (ag_registration st = Stopped)"
| "task_stopped (ObserverTask name) st = (ag_observers st name \<noteq> Starting \<and> ag_observers st name \<noteq> Looping)"

definition all_tasks :: "agent_task list" where
  "all_tasks = PollTask # RegistrationTask # map ObserverTask observer_names"

lemma agent_ended_tasks: "agent_ended st \<longleftrightarrow> list_all (\<lambda>t. task_stopped t st) all_tasks"
  by (simp add: agent_ended_def all_tasks_def list_all_iff)

lemma stopped_stays: "task_stopped t st \<Longrightarrow> task_stopped t (agent_step from_json accepts start i st)"
  by (cases t; cases i) (auto simp: Let_def split_def split: option.splits agent_task.splits)

lemma stopped_run: "task_stopped t st \<Longrightarrow> task_stopped t (fold (agent_step from_json accepts start) is st)"
  by (induction "is" arbitrary: st) (simp_all add: stopped_stays)

definition told :: "agent_run \<Rightarrow> bool" where
  "told st \<longleftrightarrow> ag_shutdown st \<and> list_all (\<lambda>name. ag_observers st name \<noteq> Starting) observer_names"

lemma told_stays: "told st \<Longrightarrow> told (agent_step from_json accepts start i st)"
  by (cases i) (auto simp: told_def list_all_iff Let_def split_def split: option.splits agent_task.splits)

lemma told_run: "told st \<Longrightarrow> told (fold (agent_step from_json accepts start) is st)"
  by (induction "is" arbitrary: st) (simp_all add: told_stays)

lemma noticed_stops:
  "told st \<Longrightarrow> t \<in> set all_tasks \<Longrightarrow> task_stopped t (agent_step from_json accepts start (Noticed t) st)"
  by (auto simp: told_def all_tasks_def list_all_iff)

lemma noticed_in_run:
  assumes "told st" "t \<in> set all_tasks" "Noticed t \<in> set is"
  shows "task_stopped t (fold (agent_step from_json accepts start) is st)"
proof -
  obtain xs ys where "is = xs @ Noticed t # ys" using assms(3) by (auto dest: split_list)
  then show ?thesis
    using stopped_run [OF noticed_stops [OF told_run [OF assms(1)] assms(2)]] by simp
qed

text \<open>Before the signal.\<close>

definition untold :: "agent_start \<Rightarrow> agent_run \<Rightarrow> bool" where
  "untold start st \<longleftrightarrow> \<not> ag_shutdown st \<and> (ag_polling st \<longleftrightarrow> st_controller start \<noteq> None)
     \<and> (ag_registration st = Stopped \<longleftrightarrow> st_controller start = None) \<and> (\<forall>name. ag_observers st name \<noteq> Shut)"

lemma untold_step:
  assumes "untold start st" "i \<noteq> Interrupt"
  shows "untold start (agent_step from_json accepts start i st)"
  using assms reg_step_goes_on [of _ "reg_view st"]
  by (cases i) (auto simp: untold_def Let_def split_def split: option.splits)

lemma untold_run:
  "untold start st \<Longrightarrow> Interrupt \<notin> set is \<Longrightarrow> untold start (fold (agent_step from_json accepts start) is st)"
  by (induction "is" arbitrary: st) (auto simp: untold_step)

lemma untold_begin: "untold start (agent_begin start m)"
  by (simp add: untold_def agent_begin_def)

lemma observer_phases: "ag_observers st name \<noteq> Starting \<and> ag_observers st name \<noteq> Looping \<and> ag_observers st name \<noteq> Shut
    \<longleftrightarrow> (\<exists>ending. ag_observers st name = GaveUp ending)"
  by (cases "ag_observers st name") simp_all

subsection \<open>What set-ups change\<close>

lemma set_up_current: "crs_current (snd (set_up_observer accepts name pf loaded config cs)) = crs_current cs"
proof -
  have "crs_current (snd (observer_setup accepts obs body loaded config cs)) = crs_current cs" for obs body
    using start_keeps_current [of accepts obs _ config cs]
    by (auto simp: observer_setup_def Let_def split_def split: sum.splits)
  then show ?thesis
    by (simp add: set_up_observer_def network_setup_def container_setup_def storage_setup_def pmc_setup_def)
qed

text \<open>Equal but for the carriers and the observers.\<close>

definition same_face :: "agent_run \<Rightarrow> agent_run \<Rightarrow> bool" where
  "same_face st st' \<longleftrightarrow> ag_control st = ag_control st' \<and> ag_metrics st = ag_metrics st' \<and> ag_active st = ag_active st'
     \<and> ag_etag st = ag_etag st' \<and> ag_polling st = ag_polling st' \<and> ag_registration st = ag_registration st'
     \<and> ag_slept st = ag_slept st' \<and> ag_shutdown st = ag_shutdown st'
     \<and> ap_receivers (ag_target st) = ap_receivers (ag_target st')"

lemma fetch_once_face:
  assumes "ap_receivers tgt = ap_receivers tgt'"
  shows "fst (fetch_once connect from_json accepts cc etag tgt) = fst (fetch_once connect from_json accepts cc etag tgt')"
    "ap_receivers (snd (fetch_once connect from_json accepts cc etag tgt)) = ap_receivers tgt"
  using assms by (auto simp: fetch_once_def apply_config_def Let_def split: sum.splits prod.splits)

lemma poll_step_face:
  assumes "ap_receivers (pl_target p) = ap_receivers (pl_target p')" "pl_etag p = pl_etag p'" "pl_active p = pl_active p'"
    and "pl_control p = pl_control p'" "pl_metrics p = pl_metrics p'"
  shows "pl_etag (poll_step from_json accepts cc connect p) = pl_etag (poll_step from_json accepts cc connect p')
    \<and> pl_active (poll_step from_json accepts cc connect p) = pl_active (poll_step from_json accepts cc connect p')
    \<and> pl_control (poll_step from_json accepts cc connect p) = pl_control (poll_step from_json accepts cc connect p')
    \<and> pl_metrics (poll_step from_json accepts cc connect p) = pl_metrics (poll_step from_json accepts cc connect p')
    \<and> ap_receivers (pl_target (poll_step from_json accepts cc connect p))
        = ap_receivers (pl_target (poll_step from_json accepts cc connect p'))"
proof -
  obtain r t where f: "fetch_once connect from_json accepts cc (pl_etag p) (pl_target p) = (r, t)" by force
  obtain r' t' where f': "fetch_once connect from_json accepts cc (pl_etag p') (pl_target p') = (r', t')" by force
  have "r = r'" "ap_receivers t = ap_receivers t'"
    using fetch_once_face [OF assms(1)] fetch_once_face(2) [OF refl, of connect from_json accepts cc "pl_etag p'" "pl_target p'"]
      f f' assms(1,2) by (metis fst_conv snd_conv)+
  with f f' assms show ?thesis
    by (auto simp: poll_step_def poll_outcome_step_def count_fetch_def split: sum.splits poll_outcome.splits fetch_error.splits)
qed

fun is_set_up :: "agent_input \<Rightarrow> bool" where
  "is_set_up (SetUp name pf loaded) = True"
| "is_set_up _ = False"

lemma set_up_face: "is_set_up i \<Longrightarrow> same_face st st' \<Longrightarrow> same_face (agent_step from_json accepts start i st) st'"
  by (cases i) (auto simp: same_face_def Let_def split_def)

lemma step_face:
  assumes "\<not> is_set_up i" "same_face st st'"
  shows "same_face (agent_step from_json accepts start i st) (agent_step from_json accepts start i st')"
proof (cases i)
  case (PollTicked connect)
  have "ap_receivers (pl_target (poll_view st)) = ap_receivers (pl_target (poll_view st'))"
    "pl_etag (poll_view st) = pl_etag (poll_view st')" "pl_active (poll_view st) = pl_active (poll_view st')"
    "pl_control (poll_view st) = pl_control (poll_view st')" "pl_metrics (poll_view st) = pl_metrics (poll_view st')"
    using assms(2) by (simp_all add: same_face_def)
  from poll_step_face [OF this, of from_json accepts _ connect] assms(2) PollTicked show ?thesis
    by (simp add: same_face_def split: option.split)
next
  case (Answered j)
  have "reg_view st = reg_view st'" using assms(2) by (simp add: same_face_def reg_view_def)
  then have "reg_step j (reg_view st) = reg_step j (reg_view st')" by (rule arg_cong)
  with assms(2) Answered show ?thesis by (simp add: same_face_def del: reg_step.simps)
next
  case (Noticed t)
  have "reg_view st = reg_view st'" using assms(2) by (simp add: same_face_def reg_view_def)
  with assms(2) Noticed show ?thesis by (simp add: same_face_def split: agent_task.split)
qed (use assms in \<open>simp_all add: same_face_def\<close>)

lemma run_face:
  "same_face st st' \<Longrightarrow> same_face (fold (agent_step from_json accepts start) is st)
     (fold (agent_step from_json accepts start) (filter (\<lambda>i. \<not> is_set_up i) is) st')"
  by (induction "is" arbitrary: st st') (auto simp: set_up_face step_face)

subsection \<open>The invariant of the whole\<close>

definition agent_inv :: "agent_run \<Rightarrow> bool" where
  "agent_inv st \<longleftrightarrow> poll_inv (poll_view st) \<and> reg_inv (reg_view st)"

lemma poll_inv_parts: "poll_inv (poll_view st) \<longleftrightarrow> ap_receivers (ag_target st)
    \<and> ag_etag st = map_option (\<lambda>a. config_etag (aci_hash a)) (ag_active st)
    \<and> rel_option identity_of (ag_active st) (crs_current (ap_carriers (ag_target st)))"
  by (simp add: poll_inv_def)

lemma poll_view_put [simp]: "poll_view (put_poll p st) = p"
  by (simp add: poll_view_def)

lemma reg_view_put [simp]: "reg_view (put_reg r st) = r"
  by (simp add: reg_view_def)

lemma outcome_batching:
  "act_send_interval_ms (pl_control (poll_outcome_step r p)) = act_send_interval_ms (pl_control p)
    \<and> act_max_batch_events (pl_control (poll_outcome_step r p)) = act_max_batch_events (pl_control p)"
proof (cases r)
  case (Inl e)
  then show ?thesis by (cases e) (simp_all add: poll_outcome_step_def)
next
  case (Inr o')
  then show ?thesis by (cases o') (simp_all add: poll_outcome_step_def set_config_version_def)
qed

lemma poll_step_batching:
  "act_send_interval_ms (pl_control (poll_step from_json accepts cc connect p)) = act_send_interval_ms (pl_control p)"
  "act_max_batch_events (pl_control (poll_step from_json accepts cc connect p)) = act_max_batch_events (pl_control p)"
  by (simp_all add: poll_step_def Let_def split_def outcome_batching)

lemma reg_inv_put_poll:
  "reg_inv (reg_view st) \<Longrightarrow> act_send_interval_ms (pl_control p) = act_send_interval_ms (ag_control st) \<Longrightarrow>
     act_max_batch_events (pl_control p) = act_max_batch_events (ag_control st) \<Longrightarrow> reg_inv (reg_view (put_poll p st))"
  by (simp add: reg_inv_def)

lemma poll_inv_put_reg: "poll_inv (poll_view (put_reg r st)) \<longleftrightarrow> poll_inv (poll_view st)"
  unfolding poll_inv_parts by simp

interpretation agent: invariant_run "agent_step from_json accepts start" agent_inv for from_json accepts start
proof
  fix st i assume inv: "agent_inv st"
  show "agent_inv (agent_step from_json accepts start i st)"
  proof (cases i)
    case (PollTicked connect)
    show ?thesis
    proof (cases "\<exists>cc. st_controller start = Some cc \<and> ag_polling st")
      case True
      then obtain cc where cc: "st_controller start = Some cc" "ag_polling st" by blast
      have "reg_inv (reg_view (put_poll (poll_step from_json accepts cc connect (poll_view st)) st))"
        using inv by (intro reg_inv_put_poll) (simp_all add: agent_inv_def poll_step_batching)
      with inv cc PollTicked show ?thesis by (simp add: agent_inv_def poll_step_inv)
    next
      case False
      with inv PollTicked show ?thesis by (auto split: option.split)
    qed
  next
    case (Answered j)
    with inv show ?thesis by (simp add: agent_inv_def poll_inv_put_reg registration.inv_step)
  next
    case (SetUp name pf loaded)
    with inv set_up_current [of accepts name pf loaded "st_tapio_config start" "ap_carriers (ag_target st)"]
    show ?thesis
      by (simp add: agent_inv_def poll_inv_parts reg_inv_def Let_def split_def)
  next
    case (Noticed t)
    with inv registration.inv_step [of "reg_view st" ShutdownSignal] show ?thesis
      by (cases t) (auto simp: agent_inv_def poll_inv_put_reg poll_inv_parts reg_inv_def)
  next
    case Interrupt
    with inv show ?thesis by (simp add: agent_inv_def poll_inv_parts reg_inv_def)
  qed
qed

lemma agent_inv_begin:
  assumes "st_controller start \<noteq> None" "st_active_config start = None"
    and "act_send_interval_ms (st_control start) \<noteq> 0" "act_max_batch_events (st_control start) \<noteq> 0"
  shows "agent_inv (agent_begin start m)"
  using assms by (simp add: agent_inv_def poll_inv_parts reg_inv_def agent_begin_def carriers_empty_def)

subsection \<open>Programs that are not installed\<close>

definition failed_set_ups :: "agent_input list" where
  "failed_set_ups =
     map (\<lambda>name. SetUp name \<lparr>pf_open = \<lambda>_ _. None, pf_set = \<lambda>_ _. None\<rparr> (Inl ''no such file'')) observer_names"

lemma failed_set_up: "set_up_observer accepts name pf (Inl e) config cs = (SetupFailed (ObjectNotLoaded e), cs)"
  by (simp add: set_up_observer_def network_setup_def container_setup_def storage_setup_def pmc_setup_def observer_setup_def)

lemma failed_set_ups_run:
  "fold (agent_step from_json accepts start) failed_set_ups (agent_begin start m)
    = (agent_begin start m)\<lparr>ag_observers := (\<lambda>name. if name \<in> set observer_names
         then GaveUp (SetupFailed (ObjectNotLoaded ''no such file'')) else Starting)\<rparr>"
  by (simp add: failed_set_ups_def observer_names_def failed_set_up phase_after_def agent_begin_def fun_eq_iff)

section \<open>Properties\<close>



text \<open>
  C15: without an interrupt a controller-managed agent never ends, even when all of its observers
  have given up, and a standalone one ends exactly when all four have.
\<close>

theorem agent_runs_until_interrupt:
  assumes "Interrupt \<notin> set inputs"
  shows "agent_ended (fold (agent_step from_json accepts start) inputs (agent_begin start m))
    \<longleftrightarrow> st_controller start = None
      \<and> list_all (\<lambda>name. \<exists>ending. ag_observers (fold (agent_step from_json accepts start) inputs (agent_begin start m)) name
            = GaveUp ending) observer_names"
proof -
  let ?st = "fold (agent_step from_json accepts start) inputs (agent_begin start m)"
  have "untold start ?st" by (rule untold_run [OF untold_begin assms])
  then show ?thesis
    using observer_phases [of ?st] by (auto simp: untold_def agent_ended_def list_all_iff)
qed

lemma agent_runs_until_interrupt_witness:
  "let start = agent_start_of (\<lambda>_. None) args_default agent_config_default
   in agent_ended (fold (agent_step (\<lambda>_. Inl []) (\<lambda>_. True) start) failed_set_ups (agent_begin start metrics_new))"
proof -
  let ?start = "agent_start_of (\<lambda>_. None) args_default agent_config_default"
  have none: "Interrupt \<notin> set failed_set_ups" by (auto simp: failed_set_ups_def)
  have "st_controller ?start = None" by (simp add: agent_start_of_def Let_def args_default_def)
  then show ?thesis
    unfolding Let_def agent_runs_until_interrupt [OF none] by (simp add: failed_set_ups_run list_all_iff)
qed



end
