(* ===== verification/ControllerMain.thy ===== *)
theory ControllerMain
  imports Controller NetAddr
begin

text \<open>
  \<open>tapio-controller/src/main.rs\<close>: the command line and the state the controller starts to
  serve. An address is kept as its text; reading the profile's file and YAML are parameters, as
  in \<open>Controller\<close>; binding the listener is not modelled.
\<close>

record controller_args =
  cta_addr :: string
  cta_profile :: "string option"

datatype controller_args_error =
    ProfileRequiresPath
  | ProfileTwice
  | UnknownControllerArgument string
  | InvalidAddress string
  | AddressTwice

fun controller_args_loop ::
  "(string \<Rightarrow> bool) \<Rightarrow> string list \<Rightarrow> string option \<Rightarrow> string option \<Rightarrow> controller_args_error + (string option \<times> string option)" where
  "controller_args_loop v6 [] addr profile = Inr (addr, profile)"
| "controller_args_loop v6 (arg # rest) addr profile =
     (if arg = ''--profile'' then
        (case rest of
           [] \<Rightarrow> Inl ProfileRequiresPath
         | path # rest1 \<Rightarrow>
             if profile \<noteq> None then Inl ProfileTwice else controller_args_loop v6 rest1 addr (Some path))
      else if starts_with arg ''--'' then Inl (UnknownControllerArgument arg)
      else if \<not> socket_addr v6 arg then Inl (InvalidAddress arg)
      else if addr \<noteq> None then Inl AddressTwice
      else controller_args_loop v6 rest (Some arg) profile)"

definition controller_parse_args :: "(string \<Rightarrow> bool) \<Rightarrow> string list \<Rightarrow> controller_args_error + controller_args" where
  "controller_parse_args v6 argv =
     and_then (controller_args_loop v6 argv None None) (\<lambda>(addr, profile).
     Inr \<lparr>cta_addr = unwrap_or addr ''127.0.0.1:8080'', cta_profile = profile\<rparr>)"

datatype ('io, 'y, 'j) controller_start_error =
    ControllerArgs controller_args_error
  | ControllerConfig "('io, 'y, 'j) config_load_error"

text \<open>The configuration to serve: the profile's, or the default.\<close>

definition served_config ::
  "(string \<Rightarrow> 'io + string) \<Rightarrow> (string \<Rightarrow> 'y + evidence_profile)
     \<Rightarrow> (compiled_config \<Rightarrow> 'j + string) \<Rightarrow> (string \<Rightarrow> u8 list) \<Rightarrow> string option
     \<Rightarrow> ('io, 'y, 'j) config_load_error + config_response" where
  "served_config read_to_string from_yaml to_vec sha256 profile =
     (case profile of
        Some path \<Rightarrow> and_then (load_profile read_to_string from_yaml path)
          (\<lambda>config. config_response_from_compiled to_vec sha256 config 1)
      | None \<Rightarrow> default_config_response from_yaml to_vec sha256)"

text \<open>The address to listen on and the state to serve.\<close>

definition controller_start ::
  "(string \<Rightarrow> bool) \<Rightarrow> (string \<Rightarrow> 'io + string) \<Rightarrow> (string \<Rightarrow> 'y + evidence_profile)
     \<Rightarrow> (compiled_config \<Rightarrow> 'j + string) \<Rightarrow> (string \<Rightarrow> u8 list) \<Rightarrow> int \<Rightarrow> string list
     \<Rightarrow> ('io, 'y, 'j) controller_start_error + (string \<times> controller_state)" where
  "controller_start v6 read_to_string from_yaml to_vec sha256 now argv =
     and_then (map_err ControllerArgs (controller_parse_args v6 argv)) (\<lambda>args.
     and_then (map_err ControllerConfig (served_config read_to_string from_yaml to_vec sha256 (cta_profile args))) (\<lambda>config.
     Inr (cta_addr args, controller_new config now)))"

section \<open>Lemmas\<close>

lemma map_err_Inr: "map_err f r = Inr y \<longleftrightarrow> r = Inr y"
  by (cases r) (simp_all add: map_err_def)

lemma controller_args_loop_addr:
  "controller_args_loop v6 argv addr profile = Inr (addr', profile') \<Longrightarrow>
     addr' = addr \<or> (\<exists>a. addr' = Some a \<and> a \<in> set argv \<and> socket_addr v6 a)"
  by (induction v6 argv addr profile rule: controller_args_loop.induct) (auto split: if_splits list.splits)

lemma controller_args_loop_profile:
  "controller_args_loop v6 argv addr profile = Inr (addr', profile') \<Longrightarrow>
     profile' = profile \<or> (profile = None \<and> (\<exists>xs p ys. profile' = Some p \<and> argv = xs @ ''--profile'' # p # ys))"
  by (induction v6 argv addr profile rule: controller_args_loop.induct)
    (auto split: if_splits list.splits intro: exI [of _ "[]"] append_Cons [symmetric])

lemma compile_profile_yaml_valid:
  "compile_profile_yaml from_yaml yaml path = Inr c \<Longrightarrow>
     \<exists>p v. from_yaml yaml = Inr p \<and> profile_validate p builtins_v0 = Inr v \<and> c = compile v"
  by (auto simp: compile_profile_yaml_def and_then_Inr map_err_Inr)

lemma config_response_version:
  "config_response_from_compiled to_vec sha256 c generation = Inr r \<Longrightarrow>
     cfg_config r = c \<and> cfg_version r = dec (unat generation) \<and> starts_with (cfg_config_hash r) ''sha256:''"
  by (auto simp: config_response_from_compiled_def config_hash_def and_then_Inr map_err_Inr starts_with_def)

lemma served_config_valid:
  "served_config read_to_string from_yaml to_vec sha256 profile = Inr c \<Longrightarrow>
     cfg_version c = ''1'' \<and> (\<exists>yaml p v. from_yaml yaml = Inr p \<and> profile_validate p builtins_v0 = Inr v
       \<and> cfg_config c = compile v
       \<and> (case profile of None \<Rightarrow> yaml = DEFAULT_PROFILE_YAML | Some path \<Rightarrow> read_to_string path = Inr yaml))"
proof -
  assume served: "served_config read_to_string from_yaml to_vec sha256 profile = Inr c"
  then obtain compiled yaml path where
    compiled: "compile_profile_yaml from_yaml yaml path = (Inr compiled :: ('a, 'b, 'c) config_load_error + compiled_config)"
    and c: "config_response_from_compiled to_vec sha256 compiled 1 = (Inr c :: ('a, 'b, 'c) config_load_error + config_response)"
    and yaml: "case profile of None \<Rightarrow> yaml = DEFAULT_PROFILE_YAML | Some path \<Rightarrow> read_to_string path = Inr yaml"
    by (cases profile) (auto simp: served_config_def load_profile_def default_config_response_def
        production_default_config_def and_then_Inr map_err_Inr)
  have "dec 1 = ''1''" by code_simp
  with compile_profile_yaml_valid [OF compiled] config_response_version [OF c] yaml
  show ?thesis by auto
qed

section \<open>What a controller that starts serves\<close>

lemma default_address_parses: "socket_addr v6 ''127.0.0.1:8080''"
  by (simp add: socket_addr_def starts_with_def octet_def port_text_def is_digit_def digits_val_def digit_val_def)

text \<open>
  A controller that starts listens on an address that parses, either the one argument that
  names it or the local default, has no agent yet, and serves as version 1 the compilation of a
  document that validates: the one in the file named by \<open>--profile\<close>, or the built-in default.
\<close>

theorem controller_start_serves_valid_profile:
  "case controller_start v6 read_to_string from_yaml to_vec sha256 now argv of
     Inl _ \<Rightarrow> True
   | Inr (addr, st) \<Rightarrow>
       socket_addr v6 addr \<and> (addr = ''127.0.0.1:8080'' \<or> addr \<in> set argv)
       \<and> ctl_agents st = [] \<and> ctl_started_at st = now \<and> cfg_version (ctl_config st) = ''1''
       \<and> (\<exists>yaml p v. from_yaml yaml = Inr p \<and> profile_validate p builtins_v0 = Inr v
            \<and> cfg_config (ctl_config st) = compile v
            \<and> (yaml = DEFAULT_PROFILE_YAML
               \<or> (\<exists>xs path ys. argv = xs @ ''--profile'' # path # ys \<and> read_to_string path = Inr yaml)))"
proof (cases "controller_start v6 read_to_string from_yaml to_vec sha256 now argv")
  case (Inr r)
  then obtain a p c where
    args: "controller_args_loop v6 argv None None = Inr (a, p)"
    and config: "served_config read_to_string from_yaml to_vec sha256 p = Inr c"
    and r: "r = (unwrap_or a ''127.0.0.1:8080'', controller_new c now)"
    by (auto simp: controller_start_def controller_parse_args_def and_then_Inr map_err_Inr)
  from controller_args_loop_addr [OF args]
  have addr: "socket_addr v6 (fst r) \<and> (fst r = ''127.0.0.1:8080'' \<or> fst r \<in> set argv)"
    using default_address_parses by (auto simp: r)
  from served_config_valid [OF config] controller_args_loop_profile [OF args]
  have "cfg_version c = ''1'' \<and> (\<exists>yaml p v. from_yaml yaml = Inr p \<and> profile_validate p builtins_v0 = Inr v
      \<and> cfg_config c = compile v
      \<and> (yaml = DEFAULT_PROFILE_YAML
         \<or> (\<exists>xs path ys. argv = xs @ ''--profile'' # path # ys \<and> read_to_string path = Inr yaml)))"
    by fastforce
  with addr show ?thesis unfolding Inr by (simp add: r controller_new_def)
qed simp

text \<open>With no argument it starts with the default configuration of the wire library.\<close>

lemma controller_starts_by_default:
  assumes "from_yaml DEFAULT_PROFILE_YAML = Inr (profile_document no_overrides)" "\<And>c. to_vec c = Inr (json c)"
  shows "\<exists>st. controller_start v6 read_to_string from_yaml to_vec sha256 now []
      = (Inr (''127.0.0.1:8080'', st) :: ('io, 'y, 'j) controller_start_error + (string \<times> controller_state))
    \<and> cfg_config (ctl_config st) = cfg_config config_default_v1"
proof -
  obtain v where "profile_validate (profile_document no_overrides) builtins_v0 = Inr v"
    "compile v = cfg_config config_default_v1"
    using default_profile_is_default_config by (cases "profile_validate (profile_document no_overrides) builtins_v0") auto
  then show ?thesis
    by (simp add: controller_start_def controller_parse_args_def served_config_def default_config_response_def
        production_default_config_def compile_profile_yaml_def config_response_from_compiled_def config_hash_def
        controller_new_def assms map_err_def)
qed

end
