(* ===== verification/Spec2Isabelle.thy ===== *)
theory Spec2Isabelle
  imports Pipeline Carriers Cli Mcp AgentRun ControllerMain
begin

text \<open>
  Tapio: kernel-event evidence for Kubernetes nodes.

  The system. eBPF programs write fixed-layout records into ring buffers. On every node an agent
  (\<open>tapio-agent\<close>) drains them, classifies each record, builds an \<^emph>\<open>occurrence\<close> per anomaly and
  hands it to its sinks: standard output, a directory of JSON files, a plain HTTP endpoint, an
  OTLP collector, or the controller. The controller (\<open>tapio-controller\<close>) compiles an Evidence
  Profile (\<open>tapio-profile\<close>) to the configuration that the agents poll and write into the kernel's
  configuration maps; it keeps the agents' registrations, heartbeats and the sequence numbers of
  their event batches. The messages in between are \<open>tapio-wire\<close>; the types that agent and kernel
  share are \<open>tapio-common\<close>. A command line tool (\<open>tapio-cli\<close>) reads the directory of the file sink.

  Conventions. Machine integers are words; floating-point numbers are a model of binary64 with
  round to nearest (\<open>F64\<close>). A \<open>String\<close> is a list of bytes as characters, UTF-8 where it matters.
  A \<open>Result\<close> is a sum with the error on the left. A point in time, a ULID, what the network, the
  file system, the eBPF loader or the kernel answers, and the encoders and decoders of
  third-party libraries (JSON, YAML, TOML, SHA-256, protobuf, gzip, chrono's parser) are arguments.
  State is passed and returned; a run is a \<open>fold\<close> of a step over its inputs, so that every
  interleaving of calls is a list.

  \<^bold>\<open>Foundations.\<close>
  \<^item> \<open>Prelude\<close>, \<open>Strings\<close>, \<open>Numbers\<close>, \<open>Bytes\<close>, \<open>Civil\<close>, \<open>F64\<close>, \<open>Json\<close>, \<open>Btree\<close>, \<open>HashEntry\<close>, \<open>NetAddr\<close>: the part of
    the language and of its standard library that the source uses (checks in order with the first
    error, saturating arithmetic, \<open>str\<close> and integer parsing, struct bytes, dates, ordered maps, the
    entry loop, addresses).
  \<^item> \<open>Simulation\<close>, \<open>Backoff\<close>, \<open>Buffering\<close>: the contracts that several components share, as locales: an
    invariant and a view of a run; a doubling delay with its bounds; a bounded buffer that is cut into
    batches. Their interpretations are in the components.

  \<^bold>\<open>Wire and profile.\<close>
  \<^item> \<open>Wire\<close> (\<open>tapio-wire/src\<close>): the messages, every \<open>validate\<close>, the filter for reasoning fields;
    which messages are accepted, exactly.
  \<^item> \<open>Profile\<close> (\<open>tapio-profile/src/lib.rs\<close>): document, validation, resolution, compilation; a document
    is accepted if and only if its values are in range and ordered, and compilation neither
    overflows nor reorders thresholds.

  \<^bold>\<open>Controller\<close> (\<open>tapio-controller/src\<close>).
  \<^item> \<open>Controller\<close>: state, operations, profile loading, HTTP handlers (\<open>route\<close>); \<open>ControllerMain\<close>: the
    command line and the state it starts with.
  \<^item> \<open>Tracking\<close>: sequence numbers against the batches that are missing. \<open>Server\<close>: what the status
    reports, the totals and the registry as functions of the requests served, by simulation.

  \<^bold>\<open>Shared types\<close> (\<open>tapio-common/src\<close>).
  \<^item> \<open>Ebpf\<close>: the event and configuration structs with their byte layout. \<open>Occurrence\<close>: the occurrence,
    its builders and validation. \<open>Timestamps\<close>: texts sort as the instants they denote.

  \<^bold>\<open>Kernel\<close> (\<open>ebpf\<close>).
  \<^item> \<open>Kernel\<close>: what the programs share (configuration snapshot, ring buffer, metrics) and the contract
    \<open>record_source\<close>; \<open>KernelNetwork\<close>, \<open>KernelStorage\<close>, \<open>KernelContainer\<close>, \<open>KernelPmc\<close>: the programs of
    each object as operations on its maps, with a step over what can happen to them. A latency is that
    of its own request while keys are not shared; a baseline is within the times seen; what a
    history must contain before a spike is reported.

  \<^bold>\<open>Agent\<close> (\<open>tapio-agent/src\<close>).
  \<^item> \<open>Drain\<close>: the loop body that the observers share and the contract \<open>observer\<close>; \<open>Network\<close>, \<open>Storage\<close>,
    \<open>Container\<close>, \<open>NodePmc\<close>: the four observers as interpretations of it; \<open>ObserverRun\<close>: set-up, ticks until
    shutdown and the last flush. \<open>Carriers\<close>: the registry of configuration maps, one operation at a
    time and with threads as a step relation.
  \<^item> \<open>AgentConfig\<close>: file and compiled configuration to kernel configuration. \<open>Metrics\<close>: counters and their
    text endpoint. \<open>Httpc\<close>: the HTTP client. \<open>AgentPoll\<close>: polling the configuration. \<open>Registration\<close>: hello
    and heartbeat as a state machine.
  \<^item> \<open>WireEvents\<close>, \<open>ControllerSink\<close>: occurrences to wire events; queue, worker, batches, retries. \<open>Sinks\<close>,
    \<open>Otlp\<close>: the other sinks. \<open>AgentMain\<close>: arguments, creation and fan-out of the sinks, start.
    \<open>AgentRun\<close>: the tasks of \<open>main\<close> together until they end. It stops once every task has noticed the
    interrupt, not before when it has a controller, and no failed observer shows in its heartbeat.

  \<^bold>\<open>Command line tool\<close> (\<open>tapio-cli/src/main.rs\<close>). \<open>Cli\<close>: status, recent, health, watch; \<open>Mcp\<close>: the server.

  \<^bold>\<open>Composition.\<close> \<open>ControlPlane\<close> joins agent and controller: an accepted profile reaches the kernel's
  maps with its thresholds; an applied configuration settles the poll at \<open>304\<close> and takes the agent
  off the list of unconverged ones; batches under the advertised limits are accepted; the gaps the
  controller reports are the batches the agent lost; whatever the ring buffers hold becomes valid
  wire events; and a restarted controller never learns of an agent that is up. \<open>Pipeline\<close> joins
  profile, kernel and observer: which requests and which exits become occurrences, in the units of
  the profile, and that every record of the kernel programs decodes.

  What the groups of lemmas show. Every operation has its result on every branch (the lemmas
  \<open>..._ok\<close>, \<open>..._iff\<close>, \<open>..._cases\<close>); every state has an invariant that each step keeps (\<open>..._inv\<close>); the
  history properties say where each event, batch or record has gone and rest on the shared
  locales; the negative results record where the code does less than its documents say.

  Bounds and termination. There is no fuel: loops are structural or have a measure (\<open>split_ws\<close>,
  \<open>parse_args\<close>, \<open>drop_seqs\<close>, and \<open>read_all\<close>, which a response that grows past its limit ends); the one
  loop that a peer can keep waiting for ever, \<open>read_line\<close>, is a partial function to \<open>option\<close>, and
  when it has no result is proved. Retry loops run over the list of their delays.

  Not modelled. Races of eBPF programs on several CPUs over one map entry, and a configuration
  read while it is written: a program runs to completion. What its helpers answer (clock, task,
  socket, counters, room) and which entries the kernel evicts are arguments. The scheduling
  of tokio tasks: concurrency appears as the order of inputs, each a completion that a task was
  waiting for and handled without interruption, and for the configuration carriers as threads. A
  task that panics, and the task of the metrics endpoint, which \<open>main\<close> does not join. Raw descriptors of the eBPF objects and the \<open>bpf\<close> system call's structs; the
  help texts, log lines and the terminal; clap's, serde's and axum's own code, of which the outcome
  is an argument. A failed write to a pipe or a file leaves what the argument says. Observers
  see the sink's state one at a time, except in \<open>Sinks\<close> and \<open>Otlp\<close>, where calls interleave.
\<close>

end
